(* ===== verification/Prelude.thy ===== *)
theory Prelude
  imports Main "HOL-Library.Word"
begin

text \<open>
  The shared ground of the development.

  \<^item> The machine integers of the daemon as words, byte strings as lists of \<open>u8\<close>.
  \<^item> A Rust computation that may panic: \<open>'a rust\<close>, with \<open>Inl\<close> carrying the panic
    message of the failed \<open>expect\<close>, \<open>assert_eq!\<close>, \<open>unreachable!\<close> or index.
    Sequencing is \<open>rbind\<close>.
  \<^item> A fallible system call: \<open>('w, 'a) io\<close>, a function of the world that returns
    \<open>io_error + 'a\<close> together with the next world. An \<open>io_error\<close> is the text its
    \<open>Display\<close> prints, the only use the daemon makes of it.
  \<^item> The little-endian layout of \<open>u16\<close>, \<open>u32\<close> and the slice operations
    (\<open>data.get(a..b)\<close>, \<open>copy_from_slice\<close>) the components share.
\<close>

unbundle bit_operations_syntax

section \<open>Types\<close>

type_synonym u8 = "8 word"
type_synonym u16 = "16 word"
type_synonym u32 = "32 word"
type_synonym u64 = "64 word"
type_synonym bytes = "u8 list"

text \<open>A Rust \<open>str\<close> is its UTF-8 byte string; a \<open>Path\<close> on Unix is a byte string.\<close>

type_synonym rstr = bytes
type_synonym path = bytes
type_synonym fd = int
type_synonym io_error = bytes
type_synonym 'a rust = "string + 'a"
type_synonym ('w, 'a) io = "'w \<Rightarrow> (io_error + 'a) \<times> 'w"

named_theorems wire_simps \<open>byte-level layout of the wire and descriptor structures\<close>
named_theorems rust_simps \<open>inversion of panicking computations\<close>
named_theorems slice_simps \<open>slices and in-place copies\<close>

section \<open>Byte strings\<close>

definition bytes_of :: "string \<Rightarrow> bytes" where
  "bytes_of s = map of_char s"

lemma length_bytes_of [simp]: "length (bytes_of s) = length s"
  by (simp add: bytes_of_def)

lemma bytes_of_append: "bytes_of (s @ t) = bytes_of s @ bytes_of t"
  by (simp add: bytes_of_def)

section \<open>Computations that may panic\<close>

fun rbind :: "'a rust \<Rightarrow> ('a \<Rightarrow> 'b rust) \<Rightarrow> 'b rust" where
  "rbind (Inl p) f = Inl p"
| "rbind (Inr a) f = f a"

definition expect :: "string \<Rightarrow> 'a option \<Rightarrow> 'a rust" where
  "expect msg m = (case m of None \<Rightarrow> Inl msg | Some a \<Rightarrow> Inr a)"

definition assert_that :: "string \<Rightarrow> bool \<Rightarrow> unit rust" where
  "assert_that msg b = (if b then Inr () else Inl msg)"

lemma expect_simps [simp]:
  "expect msg None = Inl msg"
  "expect msg (Some a) = Inr a"
  by (simp_all add: expect_def)

lemma assert_that_simps [simp]:
  "assert_that msg True = Inr ()"
  "assert_that msg False = Inl msg"
  by (simp_all add: assert_that_def)

lemma rbind_Inr_iff [rust_simps]:
  "rbind m f = Inr b \<longleftrightarrow> (\<exists>a. m = Inr a \<and> f a = Inr b)"
  by (cases m) auto

lemma rbind_Inl_iff [rust_simps]:
  "rbind m f = Inl p \<longleftrightarrow> m = Inl p \<or> (\<exists>a. m = Inr a \<and> f a = Inl p)"
  by (cases m) auto

lemma rbind_assoc: "rbind (rbind m f) g = rbind m (\<lambda>a. rbind (f a) g)"
  by (cases m) auto

lemma rbind_Inr_right [simp]: "rbind m Inr = m"
  by (cases m) auto

lemma expect_Inr_iff [rust_simps]: "expect msg m = Inr a \<longleftrightarrow> m = Some a"
  by (cases m) auto

lemma expect_Inl_iff [rust_simps]: "expect msg m = Inl p \<longleftrightarrow> m = None \<and> p = msg"
  by (cases m) auto

lemma assert_that_Inr_iff [rust_simps]: "assert_that msg b = Inr u \<longleftrightarrow> b"
  by (cases b) auto

text \<open>\<open>u32::try_from\<close> on a length, and arithmetic under either setting of the compiler's
  overflow checks: with the checks an overflow panics, without them it wraps.\<close>

definition try_u32 :: "nat \<Rightarrow> u32 option" where
  "try_u32 n = (if n < 2 ^ 32 then Some (of_nat n) else None)"

lemma try_u32_small [simp]: "n < 2 ^ 32 \<Longrightarrow> try_u32 n = Some (of_nat n)"
  by (simp add: try_u32_def)

lemma try_u32_Some_iff [rust_simps]: "try_u32 n = Some w \<longleftrightarrow> n < 2 ^ 32 \<and> w = of_nat n"
  by (auto simp: try_u32_def)

lemma unat_of_nat_u32 [simp]: "n < 2 ^ 32 \<Longrightarrow> unat (of_nat n :: u32) = n"
  by (simp add: unat_of_nat)

lemma unat_u8_le: "unat (b :: u8) \<le> 255"
proof -
  have "unat b < 2 ^ LENGTH(8)" by (rule unsigned_less)
  then show ?thesis by simp
qed

lemma unat_u32_less: "unat (w :: u32) < 2 ^ 32"
proof -
  have "unat w < 2 ^ LENGTH(32)" by (rule unsigned_less)
  then show ?thesis by simp
qed

lemma unat_ucast_u8 [simp]: "unat (ucast (b :: u8) :: u32) = unat b"
  using unat_u8_le [of b] by (simp add: unsigned_ucast_eq take_bit_nat_eq_self)

text \<open>\<open>Result::ok\<close>.\<close>

fun result_ok :: "'e + 'a \<Rightarrow> 'a option" where
  "result_ok (Inl e) = None"
| "result_ok (Inr a) = Some a"

lemma result_ok_Some_iff [rust_simps]: "result_ok r = Some a \<longleftrightarrow> r = Inr a"
  by (cases r) auto

definition add_u32 :: "bool \<Rightarrow> u32 \<Rightarrow> u32 \<Rightarrow> u32 rust" where
  "add_u32 overflow_checks a b =
     (if overflow_checks \<and> 2 ^ 32 \<le> unat a + unat b
      then Inl ''attempt to add with overflow'' else Inr (a + b))"

lemma add_u32_no_overflow: "unat a + unat b < 2 ^ 32 \<Longrightarrow> add_u32 oc a b = Inr (a + b)"
  by (simp add: add_u32_def)

section \<open>Little-endian layout\<close>

definition le16 :: "u16 \<Rightarrow> bytes" where
  "le16 w = [ucast w, ucast (drop_bit 8 w)]"

definition le32 :: "u32 \<Rightarrow> bytes" where
  "le32 w = [ucast w, ucast (drop_bit 8 w), ucast (drop_bit 16 w), ucast (drop_bit 24 w)]"

definition of_le32 :: "u8 \<Rightarrow> u8 \<Rightarrow> u8 \<Rightarrow> u8 \<Rightarrow> u32" where
  "of_le32 a b c d =
     ucast a OR push_bit 8 (ucast b) OR push_bit 16 (ucast c) OR push_bit 24 (ucast d)"

fun from_le_bytes :: "bytes \<Rightarrow> u32" where
  "from_le_bytes (a # b # c # d # _) = of_le32 a b c d"
| "from_le_bytes _ = 0"

lemma length_le16 [simp]: "length (le16 w) = 2"
  by (simp add: le16_def)

lemma length_le32 [simp]: "length (le32 w) = 4"
  by (simp add: le32_def)

lemma le32_of_le32 [wire_simps]: "le32 (of_le32 a b c d) = [a, b, c, d]"
  unfolding le32_def of_le32_def list.inject
  by (intro conjI bit_word_eqI refl) (auto simp: bit_simps dest: bit_imp_le_length)

lemma of_le32_bytes [wire_simps]:
  "of_le32 (ucast w) (ucast (drop_bit 8 w)) (ucast (drop_bit 16 w)) (ucast (drop_bit 24 w)) = w"
proof (rule bit_word_eqI)
  fix n
  assume "n < LENGTH(32)"
  then consider "n < 8" | "8 \<le> n" "n < 16" | "16 \<le> n" "n < 24" | "24 \<le> n" "n < 32"
    by fastforce
  then show "bit (of_le32 (ucast w) (ucast (drop_bit 8 w)) (ucast (drop_bit 16 w))
      (ucast (drop_bit 24 w))) n \<longleftrightarrow> bit w n"
    by cases (auto simp: of_le32_def bit_simps)
qed

lemma from_le_bytes_le32 [simp]: "from_le_bytes (le32 w @ r) = w"
  by (simp add: le32_def of_le32_bytes)

lemma from_le_bytes_le32_Nil [simp]: "from_le_bytes (le32 w) = w"
  using from_le_bytes_le32 [of w "[]"] by simp

lemma le32_eq_iff: "le32 v = le32 w \<longleftrightarrow> v = w"
  by (metis from_le_bytes_le32_Nil)

section \<open>Slices\<close>

text \<open>\<open>data.get(a..b)\<close>: the slice, or \<open>None\<close> when it runs past the end.\<close>

definition slice_get :: "nat \<Rightarrow> nat \<Rightarrow> 'a list \<Rightarrow> 'a list option" where
  "slice_get a b xs = (if a \<le> b \<and> b \<le> length xs then Some (take (b - a) (drop a xs)) else None)"

text \<open>\<open>buf[off..off + src.len()].copy_from_slice(src)\<close>, for a range inside the buffer.\<close>

definition copy_at :: "nat \<Rightarrow> 'a list \<Rightarrow> 'a list \<Rightarrow> 'a list" where
  "copy_at off src buf = take off buf @ src @ drop (off + length src) buf"

lemma length_copy_at [slice_simps]:
  "off + length src \<le> length buf \<Longrightarrow> length (copy_at off src buf) = length buf"
  by (simp add: copy_at_def)

lemma take_copy_at [slice_simps]:
  "off \<le> length buf \<Longrightarrow> take (off + length src) (copy_at off src buf) = take off buf @ src"
  by (simp add: copy_at_def)

lemma copy_at_0 [slice_simps]: "copy_at 0 src buf = src @ drop (length src) buf"
  by (simp add: copy_at_def)

lemma slice_get_from [slice_simps]:
  "slice_get p (p + n) xs = (if p + n \<le> length xs then Some (take n (drop p xs)) else None)"
  by (simp add: slice_get_def)

lemma take_drop_at [slice_simps]: "take k (drop pos d) @ drop (pos + k) d = drop pos d"
  by (metis add.commute append_take_drop_id drop_drop)

lemma four_or_more: "4 \<le> length xs \<Longrightarrow> \<exists>a b c d ys. xs = a # b # c # d # ys"
  by (auto simp: numeral_eq_Suc Suc_le_length_iff)

lemma first_occurrence_unique:
  "c \<notin> set p \<Longrightarrow> c \<notin> set u \<Longrightarrow> p @ c # r = u @ c # v \<longleftrightarrow> p = u \<and> r = v"
  by (auto simp: append_eq_append_conv2 append_eq_Cons_conv Cons_eq_append_conv)

lemma break_at_byte:
  assumes "c \<notin> set u"
  shows "takeWhile (\<lambda>x. x \<noteq> c) (u @ c # r) = u"
    and "dropWhile (\<lambda>x. x \<noteq> c) (u @ c # r) = c # r"
  using assms by (induction u) auto

end
