(* ===== verification/Rust_Std.thy ===== *)
theory Rust_Std
  imports Prelude
begin

text \<open>
  The parts of Rust's standard library the daemon's own logic computes with: strings as UTF-8
  byte strings (\<open>strip_prefix\<close>, \<open>split_once\<close>, \<open>lines\<close>, \<open>trim\<close>, integer parsing), UTF-8
  validation and the lossy rendering behind \<open>Path::display\<close>, and \<open>CStr::from_bytes_until_nul\<close>.
\<close>

section \<open>Prefixes and splitting\<close>

fun strip_prefix :: "bytes \<Rightarrow> bytes \<Rightarrow> bytes option" where
  "strip_prefix [] s = Some s"
| "strip_prefix (p # ps) [] = None"
| "strip_prefix (p # ps) (c # cs) = (if p = c then strip_prefix ps cs else None)"

definition starts_with :: "bytes \<Rightarrow> bytes \<Rightarrow> bool" where
  "starts_with p s \<longleftrightarrow> strip_prefix p s \<noteq> None"

lemma strip_prefix_Some_iff: "strip_prefix p s = Some r \<longleftrightarrow> s = p @ r"
  by (induction p s rule: strip_prefix.induct) auto

lemma strip_prefix_append [simp]: "strip_prefix p (p @ r) = Some r"
  by (simp add: strip_prefix_Some_iff)

lemma strip_prefix_self [simp]: "strip_prefix p p = Some []"
  by (simp add: strip_prefix_Some_iff)

lemma starts_with_iff: "starts_with p s \<longleftrightarrow> (\<exists>r. s = p @ r)"
  by (auto simp: starts_with_def strip_prefix_Some_iff)

text \<open>\<open>str::split_once\<close> at an ASCII character: around its first occurrence.\<close>

fun split_once :: "u8 \<Rightarrow> bytes \<Rightarrow> (bytes \<times> bytes) option" where
  "split_once c [] = None"
| "split_once c (x # xs) =
     (if x = c then Some ([], xs)
      else map_option (\<lambda>(k, v). (x # k, v)) (split_once c xs))"

lemma split_once_Some_iff:
  "split_once c s = Some (k, v) \<longleftrightarrow> s = k @ c # v \<and> c \<notin> set k"
proof (induction s arbitrary: k)
  case (Cons x xs)
  show ?case
  proof (cases k)
    case Nil
    then show ?thesis by auto
  next
    case (Cons y ys)
    then show ?thesis by (auto simp: Cons.IH)
  qed
qed simp

lemma split_once_None_iff: "split_once c s = None \<longleftrightarrow> c \<notin> set s"
  by (induction s) auto

text \<open>\<open>str::lines\<close>: the pieces ended by a line feed, each without it and without a carriage
  return before it; a last piece with no line feed is a line as it stands.\<close>

definition strip_cr :: "bytes \<Rightarrow> bytes" where
  "strip_cr l = (if l \<noteq> [] \<and> last l = 0x0D then butlast l else l)"

fun lines_from :: "bytes \<Rightarrow> bytes \<Rightarrow> bytes list" where
  "lines_from acc [] = (if acc = [] then [] else [rev acc])"
| "lines_from acc (c # cs) =
     (if c = 0x0A then strip_cr (rev acc) # lines_from [] cs else lines_from (c # acc) cs)"

definition lines :: "bytes \<Rightarrow> bytes list" where
  "lines s = lines_from [] s"

lemma lines_from_newline:
  "0x0A \<notin> set l \<Longrightarrow> lines_from acc (l @ 0x0A # r) = strip_cr (rev acc @ l) # lines r"
  by (induction l arbitrary: acc) (auto simp: lines_def)

lemma lines_newline: "0x0A \<notin> set l \<Longrightarrow> lines (l @ 0x0A # r) = strip_cr l # lines r"
  by (simp add: lines_def lines_from_newline)

lemma lines_from_last: "0x0A \<notin> set l \<Longrightarrow> l \<noteq> [] \<Longrightarrow> lines_from acc l = [rev acc @ l]"
proof (induction l arbitrary: acc)
  case (Cons c cs)
  then show ?case by (cases "cs = []") auto
qed simp

lemma lines_last: "0x0A \<notin> set l \<Longrightarrow> l \<noteq> [] \<Longrightarrow> lines l = [l]"
  by (simp add: lines_def lines_from_last)

section \<open>Trimming\<close>

text \<open>
  Characters with the Unicode property White\_Space, by the length of their UTF-8 encoding at the
  front of a string: U+0009 to U+000D, U+0020, U+0085, U+00A0, U+1680, U+2000 to U+200A, U+2028,
  U+2029, U+202F, U+205F, U+3000. Length 0 when the string starts with none of them.
\<close>

fun ws_len :: "bytes \<Rightarrow> nat" where
  "ws_len (a # r) =
     (if (0x09 \<le> a \<and> a \<le> 0x0D) \<or> a = 0x20 then 1
      else (case r of
        b # r' \<Rightarrow>
          if a = 0xC2 \<and> (b = 0x85 \<or> b = 0xA0) then 2
          else (case r' of
            c # _ \<Rightarrow>
              if (a = 0xE1 \<and> b = 0x9A \<and> c = 0x80)
                \<or> (a = 0xE2 \<and> b = 0x80 \<and>
                    ((0x80 \<le> c \<and> c \<le> 0x8A) \<or> c = 0xA8 \<or> c = 0xA9 \<or> c = 0xAF))
                \<or> (a = 0xE2 \<and> b = 0x81 \<and> c = 0x9F)
                \<or> (a = 0xE3 \<and> b = 0x80 \<and> c = 0x80)
              then 3 else 0
          | [] \<Rightarrow> 0)
      | [] \<Rightarrow> 0))"
| "ws_len [] = 0"

lemma ws_len_le: "ws_len s \<le> length s"
  by (cases s rule: ws_len.cases) (auto split: list.splits)

function trim_start :: "bytes \<Rightarrow> bytes" where
  "trim_start s = (if ws_len s = 0 then s else trim_start (drop (ws_len s) s))"
  by pat_completeness auto
termination
proof (relation "measure length")
  fix s :: bytes
  assume "ws_len s \<noteq> 0"
  moreover from this have "s \<noteq> []" by auto
  ultimately show "(drop (ws_len s) s, s) \<in> measure length" by simp
qed simp

declare trim_start.simps [simp del]

text \<open>The same from the back: the length of a white-space encoding that ends the string.\<close>

definition ws_len_end :: "bytes \<Rightarrow> nat" where
  "ws_len_end s =
     (let n = length s in
      if 1 \<le> n \<and> ws_len (drop (n - 1) s) = 1 then 1
      else if 2 \<le> n \<and> ws_len (drop (n - 2) s) = 2 then 2
      else if 3 \<le> n \<and> ws_len (drop (n - 3) s) = 3 then 3 else 0)"

lemma ws_len_end_le: "ws_len_end s \<le> length s"
  by (simp add: ws_len_end_def Let_def)

function trim_end :: "bytes \<Rightarrow> bytes" where
  "trim_end s = (if ws_len_end s = 0 then s else trim_end (take (length s - ws_len_end s) s))"
  by pat_completeness auto
termination
proof (relation "measure length")
  fix s :: bytes
  assume "ws_len_end s \<noteq> 0"
  with ws_len_end_le [of s] show "(take (length s - ws_len_end s) s, s) \<in> measure length"
    by auto
qed simp

declare trim_end.simps [simp del]

definition trim :: "bytes \<Rightarrow> bytes" where
  "trim s = trim_end (trim_start s)"

text \<open>\<open>trim_end_matches\<close> and \<open>trim_matches\<close> with one ASCII character.\<close>

definition trim_start_matches :: "u8 \<Rightarrow> bytes \<Rightarrow> bytes" where
  "trim_start_matches c s = dropWhile (\<lambda>x. x = c) s"

definition trim_end_matches :: "u8 \<Rightarrow> bytes \<Rightarrow> bytes" where
  "trim_end_matches c s = rev (dropWhile (\<lambda>x. x = c) (rev s))"

definition trim_matches :: "u8 \<Rightarrow> bytes \<Rightarrow> bytes" where
  "trim_matches c s = trim_end_matches c (trim_start_matches c s)"

lemma trim_start_no_ws: "ws_len s = 0 \<Longrightarrow> trim_start s = s"
  by (simp add: trim_start.simps)

lemma trim_end_no_ws: "ws_len_end s = 0 \<Longrightarrow> trim_end s = s"
  by (simp add: trim_end.simps)

section \<open>Integer parsing\<close>

datatype ParseIntError = Empty | InvalidDigit | PosOverflow

fun parse_int_msg :: "ParseIntError \<Rightarrow> bytes" where
  "parse_int_msg Empty = bytes_of ''cannot parse integer from empty string''"
| "parse_int_msg InvalidDigit = bytes_of ''invalid digit found in string''"
| "parse_int_msg PosOverflow = bytes_of ''number too large to fit in target type''"

definition is_digit :: "u8 \<Rightarrow> bool" where
  "is_digit c \<longleftrightarrow> 0x30 \<le> c \<and> c \<le> 0x39"

definition digit_val :: "u8 \<Rightarrow> nat" where
  "digit_val c = unat (c - 0x30)"

text \<open>The digit loop of \<open>from_str_radix\<close> for an unsigned type with the given number of bits.\<close>

fun parse_digits :: "nat \<Rightarrow> nat \<Rightarrow> bytes \<Rightarrow> ParseIntError + nat" where
  "parse_digits bits acc [] = Inr acc"
| "parse_digits bits acc (c # cs) =
     (if \<not> is_digit c then Inl InvalidDigit
      else if 2 ^ bits \<le> acc * 10 then Inl PosOverflow
      else if 2 ^ bits \<le> acc * 10 + digit_val c then Inl PosOverflow
      else parse_digits bits (acc * 10 + digit_val c) cs)"

definition parse_unsigned :: "nat \<Rightarrow> bytes \<Rightarrow> ParseIntError + nat" where
  "parse_unsigned bits s =
     (if s = [] then Inl Empty
      else if s = [0x2B] \<or> s = [0x2D] then Inl InvalidDigit
      else if hd s = 0x2B then parse_digits bits 0 (tl s)
      else parse_digits bits 0 s)"

fun decimal :: "nat \<Rightarrow> bytes \<Rightarrow> nat" where
  "decimal acc [] = acc"
| "decimal acc (c # cs) = decimal (acc * 10 + digit_val c) cs"

lemma decimal_mono: "acc \<le> decimal acc cs"
proof (induction cs arbitrary: acc)
  case (Cons c cs)
  have "acc \<le> acc * 10 + digit_val c" by simp
  also have "\<dots> \<le> decimal (acc * 10 + digit_val c) cs" by (rule Cons.IH)
  finally show ?case by simp
qed simp

lemma parse_digits_Inr_iff:
  "parse_digits bits acc cs = Inr n \<longleftrightarrow>
     list_all is_digit cs \<and> n = decimal acc cs \<and> (cs = [] \<or> n < 2 ^ bits)"
proof (induction cs arbitrary: acc)
  case (Cons c cs)
  have "acc * 10 + digit_val c \<le> decimal (acc * 10 + digit_val c) cs"
    by (rule decimal_mono)
  then show ?case
    by (auto simp: Cons.IH not_le intro: le_less_trans add_leD1)
qed auto

section \<open>UTF-8\<close>

definition is_cont :: "u8 \<Rightarrow> bool" where
  "is_cont b \<longleftrightarrow> 0x80 \<le> b \<and> b \<le> 0xBF"

text \<open>The range of a second byte after a three- or four-byte lead.\<close>

definition second_ok :: "u8 \<Rightarrow> u8 \<Rightarrow> bool" where
  "second_ok a b \<longleftrightarrow>
     (if a = 0xE0 then 0xA0 \<le> b \<and> b \<le> 0xBF
      else if a = 0xED then 0x80 \<le> b \<and> b \<le> 0x9F
      else if a = 0xF0 then 0x90 \<le> b \<and> b \<le> 0xBF
      else if a = 0xF4 then 0x80 \<le> b \<and> b \<le> 0x8F
      else is_cont b)"

definition byte_at :: "nat \<Rightarrow> bytes \<Rightarrow> u8" where
  "byte_at i s = (if i < length s then s ! i else 0)"

text \<open>
  The next character of a byte string: whether it is well-formed, and how many bytes it or its
  ill-formed maximal prefix takes. A missing byte reads as 0, which continues nothing.
\<close>

definition utf8_next :: "bytes \<Rightarrow> bool \<times> nat" where
  "utf8_next s =
     (let a = byte_at 0 s in
      if a < 0x80 then (True, 1)
      else if 0xC2 \<le> a \<and> a \<le> 0xDF then
        (if is_cont (byte_at 1 s) then (True, 2) else (False, 1))
      else if 0xE0 \<le> a \<and> a \<le> 0xEF then
        (if \<not> second_ok a (byte_at 1 s) then (False, 1)
         else if \<not> is_cont (byte_at 2 s) then (False, 2) else (True, 3))
      else if 0xF0 \<le> a \<and> a \<le> 0xF4 then
        (if \<not> second_ok a (byte_at 1 s) then (False, 1)
         else if \<not> is_cont (byte_at 2 s) then (False, 2)
         else if \<not> is_cont (byte_at 3 s) then (False, 3) else (True, 4))
      else (False, 1))"

lemma utf8_next_pos: "0 < snd (utf8_next s)"
  by (simp add: utf8_next_def Let_def)

function utf8_valid :: "bytes \<Rightarrow> bool" where
  "utf8_valid s =
     (if s = [] then True
      else fst (utf8_next s) \<and> utf8_valid (drop (snd (utf8_next s)) s))"
  by pat_completeness auto
termination
  by (relation "measure length") (simp_all add: utf8_next_pos)

declare utf8_valid.simps [simp del]

text \<open>\<open>String::from_utf8_lossy\<close>: each ill-formed prefix becomes U+FFFD.\<close>

function lossy :: "bytes \<Rightarrow> bytes" where
  "lossy s =
     (if s = [] then []
      else (let (ok, n) = utf8_next s in
        (if ok then take n s else [0xEF, 0xBF, 0xBD]) @ lossy (drop n s)))"
  by pat_completeness auto
termination
proof (relation "measure length")
  fix s :: bytes and x ok n
  assume "s \<noteq> []" and "x = utf8_next s" and "(ok, n) = x"
  with utf8_next_pos [of s] show "(drop n s, s) \<in> measure length"
    by (cases "utf8_next s") simp
qed simp

declare lossy.simps [simp del]

text \<open>A well-formed string is rendered as it is: error texts quote UTF-8 paths verbatim.\<close>

lemma lossy_valid: "utf8_valid s \<Longrightarrow> lossy s = s"
proof (induction s rule: lossy.induct)
  case (1 s)
  show ?case
  proof (cases "s = []")
    case True
    then show ?thesis by (simp add: lossy.simps)
  next
    case False
    obtain ok n where nx: "utf8_next s = (ok, n)" by (cases "utf8_next s")
    from "1.prems" False nx have ok: ok and rest: "utf8_valid (drop n s)"
      by (auto simp: utf8_valid.simps [of s])
    have "lossy (drop n s) = drop n s"
      using "1.IH" [OF False refl, of ok n] nx rest by simp
    with False nx ok show ?thesis
      by (simp add: lossy.simps [of s])
  qed
qed

lemma utf8_next_ascii: "a < 0x80 \<Longrightarrow> utf8_next (a # s) = (True, 1)"
  by (simp add: utf8_next_def byte_at_def Let_def)

lemma utf8_valid_ascii: "list_all (\<lambda>a. a < 0x80) s \<Longrightarrow> utf8_valid s"
proof (induction s)
  case Nil
  then show ?case by (simp add: utf8_valid.simps)
next
  case (Cons a s)
  then show ?case by (simp add: utf8_valid.simps [of "a # s"] utf8_next_ascii)
qed

section \<open>C strings\<close>

text \<open>\<open>CStr::from_bytes_until_nul\<close>: the bytes before the first NUL, an error if there is none.\<close>

definition from_bytes_until_nul :: "bytes \<Rightarrow> bytes option" where
  "from_bytes_until_nul s = map_option fst (split_once 0 s)"

lemma from_bytes_until_nul_Some_iff:
  "from_bytes_until_nul s = Some c \<longleftrightarrow> (\<exists>r. s = c @ 0 # r) \<and> 0 \<notin> set c"
  by (auto simp: from_bytes_until_nul_def split_once_Some_iff)

lemma from_bytes_until_nul_None_iff: "from_bytes_until_nul s = None \<longleftrightarrow> 0 \<notin> set s"
  by (simp add: from_bytes_until_nul_def split_once_None_iff)

end
