(* ===== verification/Winnow.thy ===== *)
theory Winnow
  imports Rust_Std
begin

text \<open>
  The \<open>winnow\<close> parser library the daemon imports. Its code is not part of the repository, so its
  leaf parsers are parameters, the fields of a record \<open>winnow\<close>, and its documented behaviour is
  the locale \<open>winnow_spec\<close>. A parser takes the input slice and returns the value with the rest, or
  \<open>None\<close> for an error. The combinators that only pass values on, and are polymorphic in
  them (\<open>seq!\<close>, \<open>map\<close>, \<open>separated_pair\<close>, \<open>verify_map\<close>), are binds of the option type. \<open>winnow_ref\<close> is an implementation of the documented behaviour; it shows that the
  laws are consistent and runs the concrete examples.
\<close>

type_synonym 'a parser = "bytes \<Rightarrow> ('a \<times> bytes) option"

record winnow =
  le_u32 :: "u32 parser"
  length_take :: "u32 parser \<Rightarrow> bytes parser"
  take_until1 :: "bytes \<Rightarrow> bytes parser"
  literal :: "bytes \<Rightarrow> bytes parser"
  digit1 :: "bytes parser"

definition verify_map :: "'a parser \<Rightarrow> ('a \<Rightarrow> 'b option) \<Rightarrow> 'b parser" where
  "verify_map p f i =
     Option.bind (p i) (\<lambda>(v, r). map_option (\<lambda>b. (b, r)) (f v))"

lemma verify_map_Some_iff [rust_simps]:
  "verify_map p f i = Some (b, r) \<longleftrightarrow> (\<exists>v. p i = Some (v, r) \<and> f v = Some b)"
  by (auto simp: verify_map_def bind_eq_Some_conv)

locale winnow_spec =
  fixes W :: winnow
  assumes le_u32_enough: "le_u32 W (a # b # c # d # r) = Some (of_le32 a b c d, r)"
    and le_u32_short: "length i < 4 \<Longrightarrow> le_u32 W i = None"
    and length_take_eq: "length_take W p i =
      (case p i of
        None \<Rightarrow> None
      | Some (n, r) \<Rightarrow>
          if unat n \<le> length r then Some (take (unat n) r, drop (unat n) r) else None)"
    and take_until1_found:
      "c \<notin> set u \<Longrightarrow> u \<noteq> [] \<Longrightarrow> take_until1 W [c] (u @ c # r) = Some (u, c # r)"
    and take_until1_empty: "take_until1 W [c] (c # r) = None"
    and take_until1_missing: "c \<notin> set i \<Longrightarrow> take_until1 W [c] i = None"
    and literal_eq: "literal W t i = map_option (\<lambda>r. (t, r)) (strip_prefix t i)"
    and digit1_eq: "digit1 W i =
      (if takeWhile is_digit i = [] then None
       else Some (takeWhile is_digit i, dropWhile is_digit i))"
begin

lemma le_u32_le32 [simp]: "le_u32 W (le32 v @ r) = Some (v, r)"
  by (simp add: le32_def le_u32_enough of_le32_bytes)

lemma le_u32_le32_Nil [simp]: "le_u32 W (le32 v) = Some (v, [])"
  using le_u32_le32 [of v "[]"] by simp

lemma le_u32_Some_iff: "le_u32 W i = Some (v, r) \<longleftrightarrow> i = le32 v @ r"
proof (cases "length i < 4")
  case True
  then show ?thesis by (auto simp: le_u32_short)
next
  case False
  then obtain a b c d s where "i = a # b # c # d # s"
    by (auto simp: not_less dest: four_or_more)
  then have "i = le32 (of_le32 a b c d) @ s"
    by (simp add: le32_of_le32)
  then show ?thesis
    by (auto simp: append_eq_append_conv le32_eq_iff)
qed

text \<open>A length-prefixed field: exactly the inputs that spell a length and hold that many bytes.\<close>

lemma length_take_Some_iff:
  "length_take W (le_u32 W) i = Some (b, r) \<longleftrightarrow>
     (\<exists>n. i = le32 n @ b @ r \<and> length b = unat n)"
proof (cases "le_u32 W i")
  case None
  then have "i \<noteq> le32 n @ b @ r" for n by (auto simp: le_u32_le32)
  with None show ?thesis by (simp add: length_take_eq)
next
  case (Some x)
  obtain n s where x: "x = (n, s)" by (cases x)
  with Some have i: "i = le32 n @ s" by (simp add: le_u32_Some_iff)
  have "(\<exists>n'. i = le32 n' @ b @ r \<and> length b = unat n') \<longleftrightarrow> s = b @ r \<and> length b = unat n"
    unfolding i by (auto simp: append_eq_append_conv le32_eq_iff)
  moreover have "length_take W (le_u32 W) i = Some (b, r) \<longleftrightarrow> s = b @ r \<and> length b = unat n"
    unfolding i by (auto simp: length_take_eq append_eq_conv_conj)
  ultimately show ?thesis by blast
qed

lemma length_take_le32:
  "length b < 2 ^ 32 \<Longrightarrow>
     length_take W (le_u32 W) (le32 (of_nat (length b)) @ b @ r) = Some (b, r)"
  by (auto simp: length_take_Some_iff intro!: exI [of _ "of_nat (length b)"])

end

section \<open>An implementation of the documented behaviour\<close>

fun ref_le_u32 :: "u32 parser" where
  "ref_le_u32 (a # b # c # d # r) = Some (of_le32 a b c d, r)"
| "ref_le_u32 _ = None"

definition ref_length_take :: "u32 parser \<Rightarrow> bytes parser" where
  "ref_length_take p i =
     (case p i of
       None \<Rightarrow> None
     | Some (n, r) \<Rightarrow>
         if unat n \<le> length r then Some (take (unat n) r, drop (unat n) r) else None)"

fun ref_find :: "bytes \<Rightarrow> bytes \<Rightarrow> (bytes \<times> bytes) option" where
  "ref_find t [] = (if t = [] then Some ([], []) else None)"
| "ref_find t (x # xs) =
     (if starts_with t (x # xs) then Some ([], x # xs)
      else map_option (\<lambda>(u, r). (x # u, r)) (ref_find t xs))"

definition ref_take_until1 :: "bytes \<Rightarrow> bytes parser" where
  "ref_take_until1 t i =
     (case ref_find t i of
       None \<Rightarrow> None
     | Some (u, r) \<Rightarrow> if u = [] then None else Some (u, r))"

definition winnow_ref :: winnow where
  "winnow_ref = \<lparr>
     le_u32 = ref_le_u32,
     length_take = ref_length_take,
     take_until1 = ref_take_until1,
     literal = (\<lambda>t i. map_option (\<lambda>r. (t, r)) (strip_prefix t i)),
     digit1 = (\<lambda>i. if takeWhile is_digit i = [] then None
                   else Some (takeWhile is_digit i, dropWhile is_digit i))\<rparr>"

lemma winnow_ref_simps [simp]:
  "le_u32 winnow_ref = ref_le_u32"
  "length_take winnow_ref = ref_length_take"
  "take_until1 winnow_ref = ref_take_until1"
  "literal winnow_ref t i = map_option (\<lambda>r. (t, r)) (strip_prefix t i)"
  by (simp_all add: winnow_ref_def)

lemma ref_find_byte:
  "ref_find [c] i = (if c \<in> set i
     then Some (takeWhile (\<lambda>x. x \<noteq> c) i, dropWhile (\<lambda>x. x \<noteq> c) i) else None)"
  by (induction i) (auto simp: starts_with_def)

interpretation winnow_ref: winnow_spec winnow_ref
proof
  show "length i < 4 \<Longrightarrow> le_u32 winnow_ref i = None" for i
    by (cases i rule: ref_le_u32.cases) auto
next
  show "c \<notin> set u \<Longrightarrow> u \<noteq> [] \<Longrightarrow>
      take_until1 winnow_ref [c] (u @ c # r) = Some (u, c # r)" for c u r
    by (auto simp: ref_take_until1_def ref_find_byte break_at_byte)
qed (auto simp: ref_length_take_def ref_take_until1_def ref_find_byte winnow_ref_def
      starts_with_def takeWhile_eq_Nil_iff)

end
