(* ===== verification/Os.thy ===== *)
theory Os
  imports Rust_Std
begin

text \<open>
  The operating system as the daemon calls it, through \<open>std::fs\<close>, \<open>std::process\<close>, \<open>std::net\<close>
  and \<open>rustix\<close>. The system is not part of the repository: it is a world of an arbitrary type \<open>'w\<close>
  and a record \<open>'w kernel\<close> with one field per call, each a function of the world that may fail.
  Three locales name the documented behaviour the properties rest on: \<open>file_writer\<close> (created files
  and appending), \<open>file_reader\<close> (sequential reads up to end of file) and \<open>fd_table\<close> (which calls
  open and close descriptors). Every other behaviour of the system is left open, so the properties
  hold for every interleaving of failures and short transfers.
\<close>

type_synonym pid = int

record metadata =
  md_mode :: u32
  md_size :: u64
  md_mtime :: int

record 'w kernel =
  k_read_file :: "path \<Rightarrow> ('w, bytes) io"
  k_write_file :: "path \<Rightarrow> bytes \<Rightarrow> ('w, unit) io"
  k_create_dir_all :: "path \<Rightarrow> ('w, unit) io"
  k_exists :: "path \<Rightarrow> ('w, bool) io"
  k_symlink :: "path \<Rightarrow> path \<Rightarrow> ('w, unit) io"
  k_read_dir :: "path \<Rightarrow> ('w, (io_error + bytes) list) io"
  k_symlink_metadata :: "path \<Rightarrow> ('w, metadata) io"
  k_open :: "path \<Rightarrow> ('w, fd) io"
  k_create :: "path \<Rightarrow> ('w, fd) io"
  k_read :: "fd \<Rightarrow> nat \<Rightarrow> ('w, bytes) io"
  k_write :: "fd \<Rightarrow> bytes \<Rightarrow> ('w, nat) io"
  k_write_all :: "fd \<Rightarrow> bytes \<Rightarrow> ('w, unit) io"
  k_set_permissions :: "fd \<Rightarrow> u32 \<Rightarrow> ('w, unit) io"
  k_set_mtime :: "fd \<Rightarrow> u64 \<Rightarrow> ('w, unit) io"
  k_remove_file :: "path \<Rightarrow> ('w, unit) io"
  k_close :: "fd \<Rightarrow> 'w \<Rightarrow> 'w"
  k_tcp_connect :: "u16 \<Rightarrow> ('w, fd) io"
  k_connect_abstract :: "bytes \<Rightarrow> ('w, fd) io"
  k_connect_path :: "path \<Rightarrow> ('w, fd) io"
  k_shutdown_write :: "fd \<Rightarrow> ('w, unit) io"
  k_openpt :: "('w, fd) io"
  k_grantpt :: "fd \<Rightarrow> ('w, unit) io"
  k_unlockpt :: "fd \<Rightarrow> ('w, unit) io"
  k_tiocgptpeer :: "fd \<Rightarrow> ('w, fd) io"
  k_dup :: "fd \<Rightarrow> ('w, fd) io"
  k_spawn :: "bytes \<Rightarrow> bytes list \<Rightarrow> (fd \<times> fd \<times> fd) option \<Rightarrow> ('w, pid) io"
  k_kill :: "pid \<Rightarrow> ('w, unit) io"
  k_wait :: "pid \<Rightarrow> ('w, unit) io"

section \<open>Sequencing fallible calls\<close>

text \<open>The \<open>?\<close> operator: go on with the value, or return the error from the world it left.\<close>

definition io_bind :: "('w, 'a) io \<Rightarrow> ('a \<Rightarrow> ('w, 'b) io) \<Rightarrow> ('w, 'b) io" where
  "io_bind m f w =
     (case m w of
       (Inl e, w') \<Rightarrow> (Inl e, w')
     | (Inr a, w') \<Rightarrow> f a w')"

definition io_ok :: "'a \<Rightarrow> ('w, 'a) io" where
  "io_ok a w = (Inr a, w)"

definition io_err :: "io_error \<Rightarrow> ('w, 'a) io" where
  "io_err e w = (Inl e, w)"

lemma io_bind_Inr_iff [rust_simps]:
  "io_bind m f w = (Inr b, w2) \<longleftrightarrow> (\<exists>a w1. m w = (Inr a, w1) \<and> f a w1 = (Inr b, w2))"
  by (auto simp: io_bind_def split: prod.splits sum.splits)

lemma io_bind_Inl_iff [rust_simps]:
  "io_bind m f w = (Inl e, w2) \<longleftrightarrow>
     m w = (Inl e, w2) \<or> (\<exists>a w1. m w = (Inr a, w1) \<and> f a w1 = (Inl e, w2))"
  by (auto simp: io_bind_def split: prod.splits sum.splits)

lemma io_ok_iff [rust_simps]: "io_ok a w = (r, w') \<longleftrightarrow> r = Inr a \<and> w' = w"
  by (auto simp: io_ok_def)

lemma io_err_iff [rust_simps]: "io_err e w = (r, w') \<longleftrightarrow> r = Inl e \<and> w' = w"
  by (auto simp: io_err_def)

text \<open>\<open>fs::read_to_string\<close>: the whole file, an error when it is not UTF-8.\<close>

definition read_to_string :: "'w kernel \<Rightarrow> path \<Rightarrow> ('w, rstr) io" where
  "read_to_string K p =
     io_bind (k_read_file K p)
       (\<lambda>s. if utf8_valid s then io_ok s
            else io_err (bytes_of ''stream did not contain valid UTF-8''))"

section \<open>Documented behaviour\<close>

text \<open>
  Writing to a file this process created and nobody else touches: \<open>contents w f\<close> is \<open>Some c\<close>
  when the descriptor stands at the end of a file that holds \<open>c\<close>, \<open>perm\<close> its permission bits,
  \<open>mtime\<close> its modification time. A created file is empty; a successful \<open>write_all\<close> appends
  all its bytes; setting the permissions or the times changes no content.
\<close>

locale file_writer =
  fixes K :: "'w kernel"
    and contents :: "'w \<Rightarrow> fd \<Rightarrow> bytes option"
    and perm :: "'w \<Rightarrow> fd \<Rightarrow> u32"
    and mtime :: "'w \<Rightarrow> fd \<Rightarrow> u64"
  assumes create_ok: "k_create K p w = (Inr f, w') \<Longrightarrow> contents w' f = Some []"
    and write_all_ok: "contents w f = Some c \<Longrightarrow> k_write_all K f xs w = (Inr u, w') \<Longrightarrow>
      contents w' f = Some (c @ xs)"
    and set_permissions_ok: "contents w f = Some c \<Longrightarrow>
      k_set_permissions K f m w = (Inr u, w') \<Longrightarrow> perm w' f = m \<and> contents w' f = Some c"
    and set_mtime_ok: "contents w f = Some c \<Longrightarrow> k_set_mtime K f t w = (Inr u, w') \<Longrightarrow>
      mtime w' f = t"
    and set_mtime_frame: "contents w f = Some c \<Longrightarrow> k_set_mtime K f t w = (r, w') \<Longrightarrow>
      contents w' f = Some c \<and> perm w' f = perm w f"

text \<open>
  Reading an open regular file from front to back: \<open>unread w f\<close> is \<open>Some u\<close> when \<open>u\<close> is what is
  left behind the descriptor. A read returns some of it from the front, at most as much as was
  asked for, and nothing only at the end of the file.
\<close>

locale file_reader =
  fixes K :: "'w kernel"
    and unread :: "'w \<Rightarrow> fd \<Rightarrow> bytes option"
  assumes read_ok: "unread w f = Some u \<Longrightarrow> k_read K f n w = (Inr xs, w') \<Longrightarrow>
      length xs \<le> n \<and> (\<exists>v. u = xs @ v \<and> unread w' f = Some v)"
    and read_eof: "unread w f = Some u \<Longrightarrow> k_read K f n w = (Inr [], w') \<Longrightarrow> 0 < n \<Longrightarrow> u = []"

text \<open>
  The descriptor table of the process. Calls that open something add one descriptor that was not
  there, and nothing when they fail; \<open>close\<close> removes it; every other call leaves the table alone
  (a child's descriptors are the child's). \<open>fresh_fd\<close> and \<open>keeps_fds\<close> say this of one call.
\<close>

definition fresh_fd :: "('w \<Rightarrow> fd set) \<Rightarrow> ('w, fd) io \<Rightarrow> bool" where
  "fresh_fd open_fds call \<longleftrightarrow>
     (\<forall>w. case call w of
        (Inr f, w') \<Rightarrow> f \<notin> open_fds w \<and> open_fds w' = insert f (open_fds w)
      | (Inl e, w') \<Rightarrow> open_fds w' = open_fds w)"

definition keeps_fds :: "('w \<Rightarrow> fd set) \<Rightarrow> ('w, 'a) io \<Rightarrow> bool" where
  "keeps_fds open_fds call \<longleftrightarrow> (\<forall>w. open_fds (snd (call w)) = open_fds w)"

lemma fresh_fd_Inr:
  "fresh_fd open_fds call \<Longrightarrow> call w = (Inr f, w') \<Longrightarrow>
     f \<notin> open_fds w \<and> open_fds w' = insert f (open_fds w)"
  unfolding fresh_fd_def by (drule spec [of _ w]) simp

lemma fresh_fd_Inl:
  "fresh_fd open_fds call \<Longrightarrow> call w = (Inl e, w') \<Longrightarrow> open_fds w' = open_fds w"
  unfolding fresh_fd_def by (drule spec [of _ w]) simp

lemma keeps_fdsD: "keeps_fds open_fds call \<Longrightarrow> call w = (res, w') \<Longrightarrow> open_fds w' = open_fds w"
  unfolding keeps_fds_def by (drule spec [of _ w]) simp

lemma keeps_fds_snd: "keeps_fds open_fds call \<Longrightarrow> open_fds (snd (call w)) = open_fds w"
  unfolding keeps_fds_def by blast

locale fd_table =
  fixes K :: "'w kernel"
    and open_fds :: "'w \<Rightarrow> fd set"
  assumes open_fresh: "fresh_fd open_fds (k_open K p)"
    and create_fresh: "fresh_fd open_fds (k_create K p)"
    and tcp_fresh: "fresh_fd open_fds (k_tcp_connect K port)"
    and abstract_fresh: "fresh_fd open_fds (k_connect_abstract K nm)"
    and path_fresh: "fresh_fd open_fds (k_connect_path K p)"
    and openpt_fresh: "fresh_fd open_fds (k_openpt K)"
    and peer_fresh: "fresh_fd open_fds (k_tiocgptpeer K f)"
    and dup_fresh: "fresh_fd open_fds (k_dup K f)"
    and close_fds: "open_fds (k_close K f w) = open_fds w - {f}"
    and read_keeps: "keeps_fds open_fds (k_read K f n)"
    and write_keeps: "keeps_fds open_fds (k_write K f xs)"
    and write_all_keeps: "keeps_fds open_fds (k_write_all K f xs)"
    and permissions_keeps: "keeps_fds open_fds (k_set_permissions K f m)"
    and mtime_keeps: "keeps_fds open_fds (k_set_mtime K f t)"
    and remove_keeps: "keeps_fds open_fds (k_remove_file K p)"
    and metadata_keeps: "keeps_fds open_fds (k_symlink_metadata K p)"
    and shutdown_keeps: "keeps_fds open_fds (k_shutdown_write K f)"
    and grantpt_keeps: "keeps_fds open_fds (k_grantpt K f)"
    and unlockpt_keeps: "keeps_fds open_fds (k_unlockpt K f)"
    and spawn_keeps: "keeps_fds open_fds (k_spawn K prog args stdio)"
    and kill_keeps: "keeps_fds open_fds (k_kill K pr)"
    and wait_keeps: "keeps_fds open_fds (k_wait K pr)"
begin

lemmas opens = open_fresh create_fresh tcp_fresh abstract_fresh path_fresh openpt_fresh peer_fresh
  dup_fresh

lemmas keeps = read_keeps write_keeps write_all_keeps permissions_keeps mtime_keeps remove_keeps
  metadata_keeps shutdown_keeps grantpt_keeps unlockpt_keeps spawn_keeps kill_keeps wait_keeps

lemmas fds_after = opens [THEN fresh_fd_Inr] opens [THEN fresh_fd_Inl] keeps [THEN keeps_fdsD]
lemmas fds_after_snd [simp] = keeps [THEN keeps_fds_snd]

end

end
