(* ===== verification/Device_Info.thy ===== *)
theory Device_Info
  imports Os "HOL-Library.Monad_Syntax"
begin

text \<open>
  \<open>src/device_info.rs\<close>: the identity the daemon advertises, discovered from the SMBIOS tables,
  \<open>/proc/cpuinfo\<close>, the device tree, \<open>/etc/os-release\<close>, \<open>/etc/machine-id\<close> and
  \<open>/etc/hostname\<close>. Each reader is a function of the world; a source that cannot be read or holds
  nothing gives \<open>None\<close> and the next source is tried. The \<open>dmidecode\<close> package is a parameter: its
  entry-point search and its list of structures.
\<close>

record DeviceInfo =
  serial :: rstr
  name :: rstr
  model :: rstr
  device :: rstr

record DmiInfo =
  dmi_product :: "rstr option"
  dmi_serial :: "rstr option"

definition DEFAULT_NAME :: rstr where
  "DEFAULT_NAME = bytes_of ''adibi''"

definition non_empty :: "rstr \<Rightarrow> rstr option" where
  "non_empty s = (if s = [] then None else Some s)"

text \<open>The value of a call, or \<open>None\<close> when it failed: \<open>.ok()?\<close>.\<close>

definition ok_bind :: "('w, 'a) io \<Rightarrow> ('a \<Rightarrow> 'b option) \<Rightarrow> 'w \<Rightarrow> 'b option \<times> 'w" where
  "ok_bind m f w = (case m w of (Inl e, w') \<Rightarrow> (None, w') | (Inr a, w') \<Rightarrow> (f a, w'))"

section \<open>The sources\<close>

text \<open>A parsed structure of the DMI table: an error, the system structure with its product and
  serial strings, or another kind.\<close>

datatype dmi_structure = DmiError | DmiSystem rstr rstr | DmiOther

record 'e dmidecode =
  entry_point_search :: "bytes \<Rightarrow> 'e option"
  dmi_structures :: "'e \<Rightarrow> bytes \<Rightarrow> dmi_structure list"

fun first_system :: "dmi_structure list \<Rightarrow> DmiInfo option" where
  "first_system [] = None"
| "first_system (DmiSystem p s # _) =
     Some \<lparr>dmi_product = non_empty p, dmi_serial = non_empty s\<rparr>"
| "first_system (_ # xs) = first_system xs"

definition read_dmi :: "'e dmidecode \<Rightarrow> 'w kernel \<Rightarrow> 'w \<Rightarrow> DmiInfo option \<times> 'w" where
  "read_dmi D K w =
     (case k_read_file K (bytes_of ''/sys/firmware/dmi/tables/smbios_entry_point'') w of
       (Inl _, w1) \<Rightarrow> (None, w1)
     | (Inr entry_data, w1) \<Rightarrow>
         (case k_read_file K (bytes_of ''/sys/firmware/dmi/tables/DMI'') w1 of
           (Inl _, w2) \<Rightarrow> (None, w2)
         | (Inr table_data, w2) \<Rightarrow>
             (case entry_point_search D entry_data of
               None \<Rightarrow> (None, w2)
             | Some e \<Rightarrow> (first_system (dmi_structures D e table_data), w2))))"

text \<open>The line loop of \<open>read_cpuinfo_field\<close>: the \<open>?\<close> on \<open>split_once\<close> leaves the function at
  the first line without a colon.\<close>

fun cpuinfo_scan :: "rstr \<Rightarrow> rstr list \<Rightarrow> rstr option" where
  "cpuinfo_scan field [] = None"
| "cpuinfo_scan field (line # ls) =
     (case split_once 0x3A line of
       None \<Rightarrow> None
     | Some (key, value) \<Rightarrow>
         if trim key = field then non_empty (trim value) else cpuinfo_scan field ls)"

definition read_cpuinfo_field :: "'w kernel \<Rightarrow> rstr \<Rightarrow> 'w \<Rightarrow> rstr option \<times> 'w" where
  "read_cpuinfo_field K field =
     ok_bind (read_to_string K (bytes_of ''/proc/cpuinfo'')) (\<lambda>s. cpuinfo_scan field (lines s))"

definition read_device_tree_model :: "'w kernel \<Rightarrow> 'w \<Rightarrow> rstr option \<times> 'w" where
  "read_device_tree_model K =
     ok_bind (read_to_string K (bytes_of ''/proc/device-tree/model''))
       (\<lambda>s. non_empty (trim (trim_end_matches 0 s)))"

fun os_release_scan :: "rstr list \<Rightarrow> rstr option" where
  "os_release_scan [] = None"
| "os_release_scan (line # ls) =
     (case split_once 0x3D line of
       None \<Rightarrow> None
     | Some (key, value) \<Rightarrow>
         if key = bytes_of ''PRETTY_NAME'' then non_empty (trim_matches 0x22 value)
         else os_release_scan ls)"

definition read_os_pretty_name :: "'w kernel \<Rightarrow> 'w \<Rightarrow> rstr option \<times> 'w" where
  "read_os_pretty_name K =
     ok_bind (read_to_string K (bytes_of ''/etc/os-release'')) (\<lambda>s. os_release_scan (lines s))"

definition read_machine_id :: "'w kernel \<Rightarrow> 'w \<Rightarrow> rstr option \<times> 'w" where
  "read_machine_id K =
     ok_bind (read_to_string K (bytes_of ''/etc/machine-id'')) (\<lambda>s. non_empty (trim s))"

definition read_hostname :: "'w kernel \<Rightarrow> 'w \<Rightarrow> rstr option \<times> 'w" where
  "read_hostname K =
     ok_bind (read_to_string K (bytes_of ''/etc/hostname'')) (\<lambda>s. non_empty (trim s))"

section \<open>Discovery\<close>

text \<open>\<open>opt.or_else(f)\<close>: the second source runs only when the first gave nothing.\<close>

definition or_else :: "'a option \<Rightarrow> ('w \<Rightarrow> 'a option \<times> 'w) \<Rightarrow> 'w \<Rightarrow> 'a option \<times> 'w" where
  "or_else m f w = (case m of Some a \<Rightarrow> (Some a, w) | None \<Rightarrow> f w)"

definition unwrap_or :: "'a \<Rightarrow> 'a option \<Rightarrow> 'a" where
  "unwrap_or d m = (case m of Some a \<Rightarrow> a | None \<Rightarrow> d)"

definition from_system :: "'e dmidecode \<Rightarrow> 'w kernel \<Rightarrow> 'w \<Rightarrow> DeviceInfo \<times> 'w" where
  "from_system D K w =
     (let (dmi_opt, w1) = read_dmi D K w;
          dmi = unwrap_or \<lparr>dmi_product = None, dmi_serial = None\<rparr> dmi_opt;
          (s1, w2) = or_else (dmi_serial dmi) (read_cpuinfo_field K (bytes_of ''Serial'')) w1;
          (s2, w3) = or_else s1 (read_machine_id K) w2;
          ser = unwrap_or DEFAULT_NAME s2;
          (n1, w4) = read_os_pretty_name K w3;
          nam = unwrap_or DEFAULT_NAME n1;
          (m1, w5) = or_else (dmi_product dmi) (read_cpuinfo_field K (bytes_of ''Model'')) w4;
          (m2, w6) = or_else m1 (read_device_tree_model K) w5;
          mdl = unwrap_or DEFAULT_NAME m2;
          (d1, w7) = read_hostname K w6;
          dev = unwrap_or DEFAULT_NAME d1
      in (\<lparr>serial = ser, name = nam, model = mdl, device = dev\<rparr>, w7))"

section \<open>Properties\<close>

lemma non_empty_Some [simp]: "non_empty s = Some r \<longleftrightarrow> r = s \<and> s \<noteq> []"
  by (auto simp: non_empty_def)

lemma first_system_non_empty:
  "first_system xs = Some i \<Longrightarrow> dmi_product i \<noteq> Some [] \<and> dmi_serial i \<noteq> Some []"
  by (induction xs rule: first_system.induct) (auto simp: non_empty_def split: if_splits)

lemma cpuinfo_scan_non_empty: "cpuinfo_scan f ls \<noteq> Some []"
  by (induction ls) (auto split: option.splits)

lemma os_release_scan_non_empty: "os_release_scan ls \<noteq> Some []"
  by (induction ls) (auto split: option.splits)

lemma read_dmi_non_empty:
  "read_dmi D K w = (Some i, w') \<Longrightarrow> dmi_product i \<noteq> Some [] \<and> dmi_serial i \<noteq> Some []"
  by (auto simp: read_dmi_def split: prod.splits sum.splits option.splits
      dest: first_system_non_empty)

lemma ok_bind_non_empty: "(\<And>a. f a \<noteq> Some []) \<Longrightarrow> fst (ok_bind m f w) \<noteq> Some []"
  by (auto simp: ok_bind_def split: prod.splits sum.splits)

lemma or_else_non_empty:
  "m \<noteq> Some [] \<Longrightarrow> (\<And>v. fst (f v) \<noteq> Some []) \<Longrightarrow> fst (or_else m f w) \<noteq> Some []"
  by (auto simp: or_else_def split: option.splits)

lemma unwrap_or_non_empty: "m \<noteq> Some [] \<Longrightarrow> unwrap_or DEFAULT_NAME m \<noteq> []"
  by (auto simp: unwrap_or_def DEFAULT_NAME_def bytes_of_def split: option.splits)

lemma reader_non_empty:
  "fst (read_cpuinfo_field K f w) \<noteq> Some []"
  "fst (read_device_tree_model K w) \<noteq> Some []"
  "fst (read_os_pretty_name K w) \<noteq> Some []"
  "fst (read_machine_id K w) \<noteq> Some []"
  "fst (read_hostname K w) \<noteq> Some []"
  unfolding read_cpuinfo_field_def read_device_tree_model_def read_os_pretty_name_def
    read_machine_id_def read_hostname_def
  by (rule ok_bind_non_empty;
      simp add: cpuinfo_scan_non_empty os_release_scan_non_empty non_empty_def)+

lemma from_system_fields_non_empty:
  assumes "from_system D K w = (i, w')"
  shows "serial i \<noteq> [] \<and> name i \<noteq> [] \<and> model i \<noteq> [] \<and> device i \<noteq> []"
proof -
  obtain dmi_opt w1 where d: "read_dmi D K w = (dmi_opt, w1)" by (cases "read_dmi D K w")
  define dmi where "dmi = unwrap_or \<lparr>dmi_product = None, dmi_serial = None\<rparr> dmi_opt"
  have dmi: "dmi_product dmi \<noteq> Some []" "dmi_serial dmi \<noteq> Some []"
    using read_dmi_non_empty [of D K w] d
    by (auto simp: dmi_def unwrap_or_def split: option.splits)
  note step = or_else_non_empty reader_non_empty unwrap_or_non_empty
  show ?thesis
    using assms dmi step(1) [of "dmi_serial dmi" "read_cpuinfo_field K (bytes_of ''Serial'')" w1]
    by (auto simp: from_system_def d dmi_def [symmetric] Let_def split: prod.splits
        intro!: unwrap_or_non_empty dest!: arg_cong [where f = fst]
        simp: reader_non_empty [THEN not_sym] step)
qed

section \<open>Scanning\<close>

text \<open>A line of another key: it has the separator, and its trimmed key is not the one sought.\<close>

definition other_key :: "rstr \<Rightarrow> rstr \<Rightarrow> bool" where
  "other_key field line \<longleftrightarrow>
     (case split_once 0x3A line of None \<Rightarrow> False | Some (key, _) \<Rightarrow> trim key \<noteq> field)"

lemma cpuinfo_scan_skip:
  "list_all (other_key field) pre \<Longrightarrow> cpuinfo_scan field (pre @ ls) = cpuinfo_scan field ls"
  by (induction pre) (auto simp: other_key_def split: option.splits)

end
