(* ===== verification/Message.thy ===== *)
theory Message
  imports Winnow Device_Info
begin

text \<open>
  \<open>src/message.rs\<close>: the commands and versions of the ADB protocol, the 24-byte message header, its
  parser and its constructors, and the CNXN response. The wire image of a header is
  \<open>as_le_bytes_header\<close>, the instance of \<open>AsLittleEndianBytes\<close> (\<open>src/usb.rs\<close>) at the
  \<open>repr(C)\<close> struct \<open>AdbHeader\<close>.
\<close>

section \<open>Commands\<close>

definition A_CNXN :: u32 where "A_CNXN = 0x4e584e43"
definition A_AUTH :: u32 where "A_AUTH = 0x48545541"
definition A_OPEN :: u32 where "A_OPEN = 0x4e45504f"
definition A_OKAY :: u32 where "A_OKAY = 0x59414b4f"
definition A_CLSE :: u32 where "A_CLSE = 0x45534c43"
definition A_WRTE :: u32 where "A_WRTE = 0x45545257"
definition A_STLS :: u32 where "A_STLS = 0x534c5453"

lemmas command_words = A_CNXN_def A_AUTH_def A_OPEN_def A_OKAY_def A_CLSE_def A_WRTE_def A_STLS_def

datatype Command = Cnxn | Auth | Open | Okay | Clse | Wrte | Stls

datatype CommandParsingError = CommandParsingError u32

definition command_try_from :: "u32 \<Rightarrow> CommandParsingError + Command" where
  "command_try_from value =
     (if value = A_CNXN then Inr Cnxn
      else if value = A_AUTH then Inr Auth
      else if value = A_OPEN then Inr Open
      else if value = A_OKAY then Inr Okay
      else if value = A_CLSE then Inr Clse
      else if value = A_WRTE then Inr Wrte
      else if value = A_STLS then Inr Stls
      else Inl (CommandParsingError value))"

fun u32_of_command :: "Command \<Rightarrow> u32" where
  "u32_of_command Cnxn = A_CNXN"
| "u32_of_command Auth = A_AUTH"
| "u32_of_command Open = A_OPEN"
| "u32_of_command Okay = A_OKAY"
| "u32_of_command Clse = A_CLSE"
| "u32_of_command Wrte = A_WRTE"
| "u32_of_command Stls = A_STLS"

fun command_fmt :: "Command \<Rightarrow> rstr" where
  "command_fmt Cnxn = bytes_of ''CNXN''"
| "command_fmt Auth = bytes_of ''AUTH''"
| "command_fmt Open = bytes_of ''OPEN''"
| "command_fmt Okay = bytes_of ''OKAY''"
| "command_fmt Clse = bytes_of ''CLSE''"
| "command_fmt Wrte = bytes_of ''WRTE''"
| "command_fmt Stls = bytes_of ''STLS''"

lemma command_try_from_Inr_iff:
  "command_try_from v = Inr c \<longleftrightarrow> v = u32_of_command c"
  by (cases c) (auto simp: command_try_from_def command_words)

section \<open>Protocol versions\<close>

definition A_VERSION_V0 :: u32 where "A_VERSION_V0 = 0x01000000"
definition A_VERSION_V1 :: u32 where "A_VERSION_V1 = 0x01000001"

datatype ProtocolVersion = V0 | V1

datatype ProtocolVersionError = ProtocolVersionError u32

fun u32_of_version :: "ProtocolVersion \<Rightarrow> u32" where
  "u32_of_version V0 = A_VERSION_V0"
| "u32_of_version V1 = A_VERSION_V1"

definition version_try_from :: "u32 \<Rightarrow> ProtocolVersionError + ProtocolVersion" where
  "version_try_from v =
     (if v = A_VERSION_V0 then Inr V0
      else if v = A_VERSION_V1 then Inr V1
      else Inl (ProtocolVersionError v))"

fun max_payload :: "ProtocolVersion \<Rightarrow> u32" where
  "max_payload V0 = 4096"
| "max_payload V1 = 1024 * 1024"

definition requires_checksum :: "ProtocolVersion \<Rightarrow> bool" where
  "requires_checksum v \<longleftrightarrow> v = V0"

definition PROTOCOL_VERSION :: ProtocolVersion where
  "PROTOCOL_VERSION = V1"

lemma version_try_from_Inr_iff: "version_try_from v = Inr p \<longleftrightarrow> v = u32_of_version p"
  by (cases p) (auto simp: version_try_from_def A_VERSION_V0_def A_VERSION_V1_def)

section \<open>The header\<close>

record AdbHeader =
  command :: Command
  arg0 :: u32
  arg1 :: u32
  data_length :: u32
  data_check :: u32
  magic :: u32

definition as_le_bytes_header :: "AdbHeader \<Rightarrow> bytes" where
  "as_le_bytes_header h =
     le32 (u32_of_command (command h)) @ le32 (arg0 h) @ le32 (arg1 h)
       @ le32 (data_length h) @ le32 (data_check h) @ le32 (magic h)"

lemma length_as_le_bytes_header [simp]: "length (as_le_bytes_header h) = 24"
  by (simp add: as_le_bytes_header_def)

text \<open>The sum of the bytes as \<open>u32\<close>; \<open>Iterator::sum\<close> inherits the overflow checks.\<close>

fun checksum_from :: "bool \<Rightarrow> u32 \<Rightarrow> bytes \<Rightarrow> u32 rust" where
  "checksum_from oc acc [] = Inr acc"
| "checksum_from oc acc (b # bs) =
     rbind (add_u32 oc acc (ucast b)) (\<lambda>acc'. checksum_from oc acc' bs)"

definition checksum :: "bool \<Rightarrow> bytes \<Rightarrow> u32 rust" where
  "checksum oc data = checksum_from oc 0 data"

definition parse_command :: "winnow \<Rightarrow> Command parser" where
  "parse_command W = verify_map (le_u32 W) (\<lambda>v. result_ok (command_try_from v))"

definition parse_header :: "winnow \<Rightarrow> AdbHeader parser" where
  "parse_header W input = do {
     (c, input) \<leftarrow> parse_command W input;
     (a0, input) \<leftarrow> le_u32 W input;
     (a1, input) \<leftarrow> le_u32 W input;
     (len, input) \<leftarrow> le_u32 W input;
     (chk, input) \<leftarrow> le_u32 W input;
     (mag, input) \<leftarrow> le_u32 W input;
     if mag \<noteq> u32_of_command c XOR 0xffffffff then None
     else Some (\<lparr>command = c, arg0 = a0, arg1 = a1, data_length = len,
                 data_check = chk, magic = mag\<rparr>, input)
   }"

section \<open>Constructors\<close>

definition header_from_payload ::
  "bool \<Rightarrow> ProtocolVersion \<Rightarrow> Command \<Rightarrow> u32 \<Rightarrow> u32 \<Rightarrow> bytes \<Rightarrow> AdbHeader rust" where
  "header_from_payload oc host_version c a0 a1 payload =
     rbind (if requires_checksum host_version then checksum oc payload else Inr 0) (\<lambda>chk.
     rbind (expect ''The maximum payload that can be negotiated is 2^20 (1MB), way lower than u32::MAX''
              (try_u32 (length payload))) (\<lambda>len.
     Inr \<lparr>command = c, arg0 = a0, arg1 = a1, data_length = len, data_check = chk,
          magic = u32_of_command c XOR 0xffffffff\<rparr>))"

definition cnxn_header :: "bool \<Rightarrow> ProtocolVersion \<Rightarrow> bytes \<Rightarrow> AdbHeader rust" where
  "cnxn_header oc host_version payload =
     header_from_payload oc host_version Cnxn (u32_of_version PROTOCOL_VERSION)
       (max_payload PROTOCOL_VERSION) payload"

definition okay_header :: "bool \<Rightarrow> ProtocolVersion \<Rightarrow> u32 \<Rightarrow> u32 \<Rightarrow> AdbHeader rust" where
  "okay_header oc peer local_id remote_id =
     header_from_payload oc peer Okay local_id remote_id []"

definition wrte_header :: "bool \<Rightarrow> ProtocolVersion \<Rightarrow> u32 \<Rightarrow> u32 \<Rightarrow> bytes \<Rightarrow> AdbHeader rust" where
  "wrte_header oc peer local_id remote_id payload =
     header_from_payload oc peer Wrte local_id remote_id payload"

definition clse_header :: "bool \<Rightarrow> ProtocolVersion \<Rightarrow> u32 \<Rightarrow> u32 \<Rightarrow> AdbHeader rust" where
  "clse_header oc peer local_id remote_id =
     header_from_payload oc peer Clse local_id remote_id []"

definition cnxn_payload :: "DeviceInfo \<Rightarrow> bytes" where
  "cnxn_payload info =
     bytes_of ''device::ro.product.name='' @ name info
       @ bytes_of '';ro.product.model='' @ model info
       @ bytes_of '';ro.product.device='' @ device info
       @ bytes_of '';'' @ [0]"

definition cnxn_response :: "bool \<Rightarrow> ProtocolVersion \<Rightarrow> DeviceInfo \<Rightarrow> (AdbHeader \<times> bytes) rust" where
  "cnxn_response oc peer info =
     (let payload = cnxn_payload info in
      rbind (cnxn_header oc peer payload) (\<lambda>h. Inr (h, payload)))"

section \<open>Checksums\<close>

definition byte_sum :: "bytes \<Rightarrow> nat" where
  "byte_sum data = sum_list (map unat data)"

lemma byte_sum_le: "byte_sum data \<le> 255 * length data"
proof (induction data)
  case (Cons b bs)
  with unat_u8_le [of b] show ?case by (simp add: byte_sum_def)
qed (simp add: byte_sum_def)

lemma checksum_from_sum:
  "unat acc + byte_sum data < 2 ^ 32 \<Longrightarrow>
     checksum_from oc acc data = Inr (acc + of_nat (byte_sum data))"
proof (induction data arbitrary: acc)
  case (Cons b bs)
  from Cons.prems have lt: "unat acc + unat (ucast b :: u32) < 2 ^ 32"
    by (simp add: byte_sum_def)
  then have "unat (acc + ucast b) = unat acc + unat b"
    by (simp add: unat_word_ariths)
  with Cons.prems have "checksum_from oc (acc + ucast b) bs
      = Inr (acc + ucast b + of_nat (byte_sum bs))"
    by (intro Cons.IH) (simp add: byte_sum_def)
  with lt show ?case
    by (simp add: add_u32_no_overflow byte_sum_def add.assoc)
qed (simp add: byte_sum_def)

lemma checksum_sum:
  assumes "length data \<le> 2 ^ 24"
  shows "checksum oc data = Inr (of_nat (byte_sum data))"
proof -
  have "byte_sum data < 2 ^ 32"
    using byte_sum_le [of data] assms by simp
  then show ?thesis
    using checksum_from_sum [of 0 data oc] by (simp add: checksum_def)
qed

lemma checksum_from_overflow:
  "unat acc + byte_sum data \<ge> 2 ^ 32 \<Longrightarrow>
     checksum_from True acc data = Inl ''attempt to add with overflow''"
proof (induction data arbitrary: acc)
  case Nil
  then show ?case using unat_u32_less [of acc] by (simp add: byte_sum_def)
next
  case (Cons b bs)
  show ?case
  proof (cases "2 ^ 32 \<le> unat acc + unat b")
    case True
    then show ?thesis by (simp add: add_u32_def)
  next
    case False
    then have "unat (acc + ucast b) = unat acc + unat b"
      by (simp add: unat_word_ariths)
    with Cons.prems Cons.IH [of "acc + ucast b"] False show ?thesis
      by (simp add: add_u32_def byte_sum_def)
  qed
qed

lemma checksum_from_wraps:
  "checksum_from False acc data = Inr (acc + of_nat (byte_sum data))"
  by (induction data arbitrary: acc) (simp_all add: add_u32_def byte_sum_def)

section \<open>Headers and their wire image\<close>

definition magic_ok :: "AdbHeader \<Rightarrow> bool" where
  "magic_ok h \<longleftrightarrow> magic h = u32_of_command (command h) XOR 0xffffffff"

context winnow_spec
begin

lemma parse_command_Some_iff:
  "parse_command W i = Some (c, r) \<longleftrightarrow> i = le32 (u32_of_command c) @ r"
  by (auto simp: parse_command_def rust_simps le_u32_Some_iff command_try_from_Inr_iff)

lemma parse_header_Some_iff:
  "parse_header W i = Some (h, r) \<longleftrightarrow> i = as_le_bytes_header h @ r \<and> magic_ok h"
  by (cases h) (auto simp: parse_header_def bind_eq_Some_conv parse_command_Some_iff
      le_u32_Some_iff as_le_bytes_header_def magic_ok_def split: if_splits)

lemma parse_header_short: "length i < 24 \<Longrightarrow> parse_header W i = None"
proof (rule ccontr)
  assume "length i < 24" and "parse_header W i \<noteq> None"
  then obtain h r where "parse_header W i = Some (h, r)" by auto
  with \<open>length i < 24\<close> show False by (auto simp: parse_header_Some_iff)
qed

end

lemma header_from_payload_ok:
  assumes "length payload \<le> 2 ^ 24"
  shows "header_from_payload oc v c a0 a1 payload = Inr
    \<lparr>command = c, arg0 = a0, arg1 = a1, data_length = of_nat (length payload),
     data_check = (if requires_checksum v then of_nat (byte_sum payload) else 0),
     magic = u32_of_command c XOR 0xffffffff\<rparr>"
  using assms by (simp add: header_from_payload_def checksum_sum)

lemma header_from_payload_magic:
  "header_from_payload oc v c a0 a1 payload = Inr h \<Longrightarrow> magic_ok h"
  by (auto simp: header_from_payload_def magic_ok_def rust_simps split: if_splits)

lemma small_header_ok [simp]:
  "okay_header oc v l r = Inr
     \<lparr>command = Okay, arg0 = l, arg1 = r, data_length = 0, data_check = 0,
      magic = u32_of_command Okay XOR 0xffffffff\<rparr>"
  "clse_header oc v l r = Inr
     \<lparr>command = Clse, arg0 = l, arg1 = r, data_length = 0, data_check = 0,
      magic = u32_of_command Clse XOR 0xffffffff\<rparr>"
  by (simp_all add: okay_header_def clse_header_def header_from_payload_ok byte_sum_def)

section \<open>Properties\<close>

text \<open>
  (C22) The name and the number of a command agree, in both directions: the four letters \<open>Display\<close>
  prints are the little-endian bytes of the number on the wire, and \<open>try_from\<close> accepts exactly
  the numbers \<open>From\<close> produces.
\<close>

theorem command_code_name:
  "le32 (u32_of_command c) = command_fmt c
   \<and> (command_try_from v = Inr c \<longleftrightarrow> v = u32_of_command c)
   \<and> (version_try_from v = Inr p \<longleftrightarrow> v = u32_of_version p)"
proof -
  have "le32 (u32_of_command c) = command_fmt c"
    by (cases c) (simp_all add: command_words le32_def bytes_of_def drop_bit_eq_div)
  then show ?thesis
    by (simp add: command_try_from_Inr_iff version_try_from_Inr_iff)
qed

text \<open>
  (C21) The payload checksum is the sum of the bytes modulo \<open>2 ^ 32\<close>; with the compiler's overflow
  checks it panics instead exactly when the true sum does not fit. No payload of at most 16 MiB
  gets there, so none that the 1 MiB receive buffer can hold does.
\<close>

theorem checksum_exact:
  "checksum oc data =
     (if oc \<and> 2 ^ 32 \<le> byte_sum data then Inl ''attempt to add with overflow''
      else Inr (of_nat (byte_sum data)))"
proof (cases "byte_sum data < 2 ^ 32")
  case True
  then show ?thesis using checksum_from_sum [of 0 data oc] by (simp add: checksum_def)
next
  case False
  then show ?thesis
    using checksum_from_overflow [of 0 data] checksum_from_wraps [of 0 data]
    by (cases oc) (simp_all add: checksum_def)
qed

text \<open>
  (C19) The header parser accepts exactly the wire images of headers whose magic is the complement of
  the command, and returns that header and the bytes behind it: parsing inverts
  \<open>as_le_bytes\<close>, nothing else is accepted, and less than 24 bytes never are.
\<close>

theorem header_roundtrip:
  assumes "winnow_spec W"
  shows "parse_header W i = Some (h, r) \<longleftrightarrow>
    i = as_le_bytes_header h @ r \<and> magic h = u32_of_command (command h) XOR 0xffffffff"
  using winnow_spec.parse_header_Some_iff [OF assms, of i h r] by (simp add: magic_ok_def)

theorem header_roundtrip_witness:
  "\<exists>h. parse_header winnow_ref
     (bytes_of ''OKAY'' @ [1, 0, 0, 0, 7, 0, 0, 0, 0, 0, 0, 0, 0, 0, 0, 0, 0xb0, 0xb4, 0xbe, 0xa6]) = Some (h, [])
     \<and> command h = Okay \<and> arg0 h = 1 \<and> arg1 h = 7"
  using header_roundtrip [OF winnow_ref.winnow_spec_axioms,
      of "bytes_of ''OKAY'' @ [1, 0, 0, 0, 7, 0, 0, 0, 0, 0, 0, 0, 0, 0, 0, 0, 0xb0, 0xb4, 0xbe, 0xa6]"
        "\<lparr>command = Okay, arg0 = 1, arg1 = 7, data_length = 0, data_check = 0,
          magic = A_OKAY XOR 0xffffffff\<rparr>" "[]"]
  by (intro exI [of _ "\<lparr>command = Okay, arg0 = 1, arg1 = 7, data_length = 0, data_check = 0,
          magic = A_OKAY XOR 0xffffffff\<rparr>"])
    (simp add: as_le_bytes_header_def le32_def bytes_of_def A_OKAY_def drop_bit_eq_div)

text \<open>
  (C20) Every message the daemon builds is one it would accept: for a payload up to the 1 MiB the
  protocol allows, the constructor does not panic, its wire image followed by the payload parses
  back to the same header, the length field is the payload's, and under version 0 the payload
  passes the receiver's checksum test.
\<close>

theorem built_message_accepted:
  assumes "winnow_spec W" and "length payload \<le> unat (max_payload PROTOCOL_VERSION)"
  shows "\<exists>h. header_from_payload oc v c a0 a1 payload = Inr h
    \<and> parse_header W (as_le_bytes_header h @ payload) = Some (h, payload)
    \<and> command h = c \<and> arg0 h = a0 \<and> arg1 h = a1
    \<and> unat (data_length h) = length payload
    \<and> (if requires_checksum v then checksum oc payload = Inr (data_check h) else data_check h = 0)"
proof -
  from assms(2) have len: "length payload \<le> 2 ^ 24" "length payload < 2 ^ 32"
    by (simp_all add: PROTOCOL_VERSION_def)
  note ok = header_from_payload_ok [OF len(1), of oc v c a0 a1]
  show ?thesis
    using ok header_from_payload_magic [OF ok] len
    by (simp add: winnow_spec.parse_header_Some_iff [OF assms(1)] checksum_sum [OF len(1)])
qed

theorem built_message_accepted_witness:
  "\<exists>h. wrte_header True V0 1 2 [0xff, 0xff] = Inr h
     \<and> parse_header winnow_ref (as_le_bytes_header h @ [0xff, 0xff]) = Some (h, [0xff, 0xff])
     \<and> data_check h = 0x1fe"
  using built_message_accepted [OF winnow_ref.winnow_spec_axioms, of "[0xff, 0xff]" True V0 Wrte 1 2]
  by (auto simp: wrte_header_def PROTOCOL_VERSION_def requires_checksum_def checksum_def add_u32_def)

end
