(* ===== verification/Buffers.thy ===== *)
theory Buffers
  imports Prelude
begin

text \<open>
  \<open>src/buffers.rs\<close>: the pool of eight write buffers that in-flight \<open>io_uring\<close> writes read from.
  A slot holds the buffer's bytes while it is allocated. The locale \<open>slot_pool\<close> is the contract
  the connection relies on, over the abstract view \<open>held\<close>: the live slots, by their 1-based
  number, with their contents. The interpretation at the end shows that the pool keeps it.
\<close>

definition MAX_BUFFER_SLOTS :: nat where
  "MAX_BUFFER_SLOTS = 8"

record BufferManager =
  slots :: "bytes option list"

definition new_buffers :: BufferManager where
  "new_buffers = \<lparr>slots = replicate MAX_BUFFER_SLOTS None\<rparr>"

text \<open>\<open>Iterator::position\<close>.\<close>

fun position :: "('a \<Rightarrow> bool) \<Rightarrow> 'a list \<Rightarrow> nat option" where
  "position P [] = None"
| "position P (x # xs) = (if P x then Some 0 else map_option Suc (position P xs))"

text \<open>\<open>alloc\<close> returns the slot number; the caller fills the buffer through the returned reference,
  which is \<open>extend_slot\<close> here (\<open>extend_from_slice\<close>). The capacity only reserves memory.\<close>

definition alloc :: "nat \<Rightarrow> BufferManager \<Rightarrow> (u32 \<times> BufferManager) rust" where
  "alloc capacity m =
     rbind (expect ''all write slots in use'' (position (\<lambda>s. s = None) (slots m))) (\<lambda>slot.
       let m' = m\<lparr>slots := (slots m)[slot := Some []]\<rparr> in
       rbind (expect ''MAX_BUFFER_SLOTS fits in u32'' (try_u32 (slot + 1))) (\<lambda>slot_id.
         Inr (slot_id, m')))"

definition extend_slot :: "u32 \<Rightarrow> bytes \<Rightarrow> BufferManager \<Rightarrow> BufferManager" where
  "extend_slot slot_id data m =
     (let i = unat slot_id - 1 in
      m\<lparr>slots := (slots m)[i := map_option (\<lambda>buf. buf @ data) (slots m ! i)]\<rparr>)"

text \<open>\<open>slot - 1\<close> underflows at 0: a panic with overflow checks, the index \<open>u32::MAX\<close> without.
  An index past the array panics.\<close>

definition sub_u32 :: "bool \<Rightarrow> u32 \<Rightarrow> u32 \<Rightarrow> u32 rust" where
  "sub_u32 oc a b =
     (if oc \<and> unat a < unat b then Inl ''attempt to subtract with overflow'' else Inr (a - b))"

definition free :: "bool \<Rightarrow> u32 \<Rightarrow> BufferManager \<Rightarrow> BufferManager rust" where
  "free oc slot m =
     rbind (sub_u32 oc slot 1) (\<lambda>i.
       if unat i < length (slots m) then Inr (m\<lparr>slots := (slots m)[unat i := None]\<rparr>)
       else Inl ''index out of bounds'')"

section \<open>The pool contract\<close>

text \<open>
  A pool over an abstract state: \<open>held m s\<close> is the content of slot \<open>s\<close>, \<open>None\<close> when the slot is
  free. Allocation hands out a free, non-zero slot with an empty buffer and touches no other; it
  panics exactly when \<open>cap\<close> slots are live. Freeing a live slot succeeds and frees that one only.
\<close>

locale slot_pool =
  fixes invar :: "'m \<Rightarrow> bool"
    and held :: "'m \<Rightarrow> u32 \<Rightarrow> bytes option"
    and empty_pool :: "'m"
    and al :: "nat \<Rightarrow> 'm \<Rightarrow> (u32 \<times> 'm) rust"
    and ext :: "u32 \<Rightarrow> bytes \<Rightarrow> 'm \<Rightarrow> 'm"
    and fr :: "bool \<Rightarrow> u32 \<Rightarrow> 'm \<Rightarrow> 'm rust"
    and cap :: nat
  assumes invar_empty: "invar empty_pool"
    and held_empty: "held empty_pool = (\<lambda>_. None)"
    and held_finite: "invar m \<Longrightarrow> finite (dom (held m)) \<and> card (dom (held m)) \<le> cap"
    and held_nonzero: "invar m \<Longrightarrow> held m 0 = None"
    and alloc_ok: "invar m \<Longrightarrow> al c m = Inr (s, m') \<Longrightarrow>
      invar m' \<and> held m s = None \<and> s \<noteq> 0 \<and> held m' = (held m)(s \<mapsto> [])"
    and alloc_full: "invar m \<Longrightarrow> (\<exists>p. al c m = Inl p) \<longleftrightarrow> card (dom (held m)) = cap"
    and extend_ok: "invar m \<Longrightarrow> held m s = Some b \<Longrightarrow>
      invar (ext s d m) \<and> held (ext s d m) = (held m)(s \<mapsto> b @ d)"
    and free_ok: "invar m \<Longrightarrow> held m s \<noteq> None \<Longrightarrow>
      \<exists>m'. fr oc s m = Inr m' \<and> invar m' \<and> held m' = (held m)(s := None)"
begin

text \<open>What a client does with a buffer: allocate it and fill it.\<close>

lemma alloc_extend:
  assumes "invar m" and "al c m = Inr (s, m1)"
  shows "invar (ext s d m1)" and "held (ext s d m1) = (held m)(s \<mapsto> d)"
    and "held m s = None" and "s \<noteq> 0"
proof -
  from alloc_ok [OF assms] have inv: "invar m1" and h: "held m1 = (held m)(s \<mapsto> [])"
    and "held m s = None" and "s \<noteq> 0"
    by auto
  then show "held m s = None" and "s \<noteq> 0" by auto
  from h have "held m1 s = Some []" by simp
  from extend_ok [OF inv this, of d] h
  show "invar (ext s d m1)" and "held (ext s d m1) = (held m)(s \<mapsto> d)"
    by auto
qed

lemma alloc_succeeds:
  assumes "invar m" and "card (dom (held m)) < cap"
  obtains s m1 where "al c m = Inr (s, m1)"
  using alloc_full [OF assms(1), of c] assms(2) by (cases "al c m") auto

lemma alloc_card:
  assumes "invar m" and "al c m = Inr (s, m1)"
  shows "card (dom (held m1)) = Suc (card (dom (held m)))"
proof -
  from alloc_ok [OF assms] have "held m1 = (held m)(s \<mapsto> [])" and "s \<notin> dom (held m)"
    by auto
  with held_finite [OF assms(1)] show ?thesis by simp
qed

end

section \<open>The pool keeps its contract\<close>

definition buffers_ok :: "BufferManager \<Rightarrow> bool" where
  "buffers_ok m \<longleftrightarrow> length (slots m) = MAX_BUFFER_SLOTS"

definition slot_held :: "BufferManager \<Rightarrow> u32 \<Rightarrow> bytes option" where
  "slot_held m s =
     (if 0 < unat s \<and> unat s \<le> length (slots m) then slots m ! (unat s - 1) else None)"

lemma position_Some_iff:
  "position P xs = Some i \<longleftrightarrow> i < length xs \<and> P (xs ! i) \<and> (\<forall>j<i. \<not> P (xs ! j))"
proof (induction xs arbitrary: i)
  case (Cons x xs)
  then show ?case
    by (cases i) (auto simp: All_less_Suc2)
qed simp

lemma position_None_iff: "position P xs = None \<longleftrightarrow> (\<forall>x \<in> set xs. \<not> P x)"
  by (induction xs) auto

lemma slot_held_of_nat:
  "i < length (slots m) \<Longrightarrow> length (slots m) < 2 ^ 32 \<Longrightarrow>
     slot_held m (of_nat (Suc i)) = slots m ! i"
  by (simp add: slot_held_def unat_of_nat del: of_nat_Suc)

lemma dom_slot_held:
  assumes "length (slots m) < 2 ^ 32"
  shows "dom (slot_held m) =
    (\<lambda>i. of_nat (Suc i)) ` {i. i < length (slots m) \<and> slots m ! i \<noteq> None}"
proof (intro set_eqI iffI)
  fix s :: u32
  assume "s \<in> dom (slot_held m)"
  then have s: "0 < unat s" "unat s \<le> length (slots m)" "slots m ! (unat s - 1) \<noteq> None"
    by (auto simp: slot_held_def split: if_splits)
  then have "s = of_nat (Suc (unat s - 1))"
    by (simp del: of_nat_Suc)
  with s show "s \<in> (\<lambda>i. of_nat (Suc i)) ` {i. i < length (slots m) \<and> slots m ! i \<noteq> None}"
    by (auto intro!: image_eqI [of _ _ "unat s - 1"])
next
  fix s :: u32
  assume "s \<in> (\<lambda>i. of_nat (Suc i)) ` {i. i < length (slots m) \<and> slots m ! i \<noteq> None}"
  with assms show "s \<in> dom (slot_held m)"
    by (auto simp: slot_held_of_nat simp del: of_nat_Suc)
qed

lemma card_dom_slot_held:
  assumes "length (slots m) < 2 ^ 32"
  shows "card (dom (slot_held m)) = card {i. i < length (slots m) \<and> slots m ! i \<noteq> None}"
proof -
  have "inj_on (\<lambda>i. of_nat (Suc i) :: u32) {i. i < length (slots m) \<and> slots m ! i \<noteq> None}"
  proof (rule inj_onI)
    fix i j
    assume "i \<in> {i. i < length (slots m) \<and> slots m ! i \<noteq> None}"
      and "j \<in> {i. i < length (slots m) \<and> slots m ! i \<noteq> None}"
      and "(of_nat (Suc i) :: u32) = of_nat (Suc j)"
    then have "unat (of_nat (Suc i) :: u32) = unat (of_nat (Suc j) :: u32)"
      and "Suc i < 2 ^ 32" and "Suc j < 2 ^ 32"
      using assms by auto
    then show "i = j" by (simp del: of_nat_Suc)
  qed
  then show ?thesis
    unfolding dom_slot_held [OF assms] by (rule card_image)
qed

lemma slot_held_upd:
  assumes "0 < unat s" and "unat s \<le> length (slots m)"
  shows "slot_held (m\<lparr>slots := (slots m)[unat s - 1 := v]\<rparr>) = (slot_held m)(s := v)"
proof
  fix t
  show "slot_held (m\<lparr>slots := (slots m)[unat s - 1 := v]\<rparr>) t = ((slot_held m)(s := v)) t"
  proof (cases "t = s")
    case True
    with assms show ?thesis by (simp add: slot_held_def)
  next
    case False
    then have "unat t \<noteq> unat s" by (auto dest: unsigned_word_eqI)
    with assms False show ?thesis by (auto simp: slot_held_def nth_list_update)
  qed
qed

lemma buffers_ok_small: "buffers_ok m \<Longrightarrow> length (slots m) < 2 ^ 32"
  by (simp add: buffers_ok_def MAX_BUFFER_SLOTS_def)

lemma alloc_Inr_iff:
  assumes "buffers_ok m"
  shows "alloc c m = Inr (s, m') \<longleftrightarrow>
    (\<exists>i. position (\<lambda>b. b = None) (slots m) = Some i \<and> s = of_nat (Suc i)
       \<and> m' = m\<lparr>slots := (slots m)[i := Some []]\<rparr>)"
proof -
  have "Suc i < 2 ^ 32" if "position (\<lambda>b. b = None) (slots m) = Some i" for i
    using that assms by (auto simp: position_Some_iff buffers_ok_def MAX_BUFFER_SLOTS_def)
  then show ?thesis
    by (auto simp: alloc_def rust_simps Let_def simp del: of_nat_Suc)
qed

lemma alloc_Inl_iff:
  assumes "buffers_ok m"
  shows "(\<exists>p. alloc c m = Inl p) \<longleftrightarrow> None \<notin> set (slots m)"
proof -
  have "Suc i < 2 ^ 32" if "position (\<lambda>b. b = None) (slots m) = Some i" for i
    using that assms by (auto simp: position_Some_iff buffers_ok_def MAX_BUFFER_SLOTS_def)
  moreover have "None \<in> set (slots m)"
    if "position (\<lambda>b. b = None) (slots m) = Some i" for i
    using that nth_mem [of i "slots m"] by (auto simp: position_Some_iff)
  ultimately show ?thesis
    by (auto simp: alloc_def position_None_iff expect_def Let_def split: option.splits)
qed

lemma full_iff_card:
  fixes m :: BufferManager
  defines "A \<equiv> {i. i < length (slots m) \<and> slots m ! i \<noteq> None}"
  shows "None \<notin> set (slots m) \<longleftrightarrow> card A = length (slots m)"
proof
  assume "None \<notin> set (slots m)"
  then have "A = {..<length (slots m)}"
    unfolding A_def by (auto simp: in_set_conv_nth)
  then show "card A = length (slots m)" by simp
next
  assume "card A = length (slots m)"
  moreover have "A \<subseteq> {..<length (slots m)}" unfolding A_def by auto
  ultimately have "A = {..<length (slots m)}"
    by (intro card_subset_eq) auto
  then show "None \<notin> set (slots m)"
    unfolding A_def by (auto simp: in_set_conv_nth)
qed

interpretation bm: slot_pool buffers_ok slot_held new_buffers alloc extend_slot free MAX_BUFFER_SLOTS
proof
  show "buffers_ok new_buffers"
    by (simp add: buffers_ok_def new_buffers_def)
  show "slot_held new_buffers = (\<lambda>_. None)"
    by (auto simp: slot_held_def new_buffers_def fun_eq_iff)
next
  fix m :: BufferManager
  assume ok: "buffers_ok m"
  note small = buffers_ok_small [OF ok]
  have "card {i. i < length (slots m) \<and> slots m ! i \<noteq> None} \<le> card {..<length (slots m)}"
    by (intro card_mono) auto
  then show "finite (dom (slot_held m)) \<and> card (dom (slot_held m)) \<le> MAX_BUFFER_SLOTS"
    using ok by (simp add: dom_slot_held [OF small] card_dom_slot_held [OF small] buffers_ok_def
        flip: dom_slot_held [OF small])
  show "slot_held m 0 = None" by (simp add: slot_held_def)
  show "(\<exists>p. alloc c m = Inl p) \<longleftrightarrow> card (dom (slot_held m)) = MAX_BUFFER_SLOTS" for c
    using ok full_iff_card [of m]
    by (simp add: alloc_Inl_iff card_dom_slot_held [OF small] buffers_ok_def)
next
  fix m m' :: BufferManager and c s
  assume ok: "buffers_ok m" and "alloc c m = Inr (s, m')"
  then obtain i where i: "i < length (slots m)" "slots m ! i = None" "s = of_nat (Suc i)"
      "m' = m\<lparr>slots := (slots m)[i := Some []]\<rparr>"
    by (auto simp: alloc_Inr_iff position_Some_iff)
  moreover from i ok have u: "unat s = Suc i"
    by (simp add: buffers_ok_def MAX_BUFFER_SLOTS_def del: of_nat_Suc)
  moreover from i u have "slot_held m' = (slot_held m)(s \<mapsto> [])"
    using slot_held_upd [of s m "Some []"] by simp
  ultimately show "buffers_ok m' \<and> slot_held m s = None \<and> s \<noteq> 0
      \<and> slot_held m' = (slot_held m)(s \<mapsto> [])"
    using ok by (auto simp: buffers_ok_def slot_held_def)
next
  fix m :: BufferManager and s b d
  assume "buffers_ok m" and "slot_held m s = Some b"
  then show "buffers_ok (extend_slot s d m) \<and> slot_held (extend_slot s d m) = (slot_held m)(s \<mapsto> b @ d)"
    using slot_held_upd [of s m "Some (b @ d)"]
    by (auto simp: extend_slot_def Let_def buffers_ok_def slot_held_def split: if_splits)
next
  fix m :: BufferManager and s oc
  assume ok: "buffers_ok m" and "slot_held m s \<noteq> None"
  then have s: "0 < unat s" "unat s \<le> length (slots m)"
    by (auto simp: slot_held_def split: if_splits)
  then have "unat (s - 1) = unat s - 1"
    by (intro unat_minus_one) auto
  with s show "\<exists>m'. free oc s m = Inr m' \<and> buffers_ok m' \<and> slot_held m' = (slot_held m)(s := None)"
    using ok slot_held_upd [OF s, of None]
    by (auto simp: free_def sub_u32_def buffers_ok_def)
qed

end
