(* ===== verification/User_Data.thy ===== *)
theory User_Data
  imports Prelude
begin

text \<open>
  The tag of an \<open>io_uring\<close> operation (\<open>UserData\<close>, \<open>src/main.rs\<close>): an operation type and an
  optional non-zero \<open>u32\<close>, packed into the 64-bit user data of a submission and unpacked from
  its completion. \<open>NonZeroU32\<close> is a \<open>u32\<close> built by \<open>nonzero_new\<close>, which refuses 0.
\<close>

datatype UserDataOpType =
  Ep0Poll | BulkOutReadHeader | BulkOutReadPayload | BulkInWrite | PtyRead | SocketRead

datatype UserDataOpTypeError = UserDataOpTypeError u32

definition op_try_from :: "u32 \<Rightarrow> UserDataOpTypeError + UserDataOpType" where
  "op_try_from value =
     (if value = 1 then Inr Ep0Poll
      else if value = 2 then Inr BulkOutReadHeader
      else if value = 3 then Inr BulkOutReadPayload
      else if value = 4 then Inr BulkInWrite
      else if value = 5 then Inr PtyRead
      else if value = 6 then Inr SocketRead
      else Inl (UserDataOpTypeError value))"

fun u32_of_op :: "UserDataOpType \<Rightarrow> u32" where
  "u32_of_op Ep0Poll = 1"
| "u32_of_op BulkOutReadHeader = 2"
| "u32_of_op BulkOutReadPayload = 3"
| "u32_of_op BulkInWrite = 4"
| "u32_of_op PtyRead = 5"
| "u32_of_op SocketRead = 6"

definition nonzero_new :: "u32 \<Rightarrow> u32 option" where
  "nonzero_new n = (if n = 0 then None else Some n)"

record UserData =
  op_type :: UserDataOpType
  data :: "u32 option"

definition user_data_new :: "UserDataOpType \<Rightarrow> u32 option \<Rightarrow> UserData" where
  "user_data_new t d = \<lparr>op_type = t, data = d\<rparr>"

definition u64_of_user_data :: "UserData \<Rightarrow> u64" where
  "u64_of_user_data value =
     (let op = u32_of_op (op_type value) in
      push_bit 32 (ucast op) OR ucast (case data value of None \<Rightarrow> 0 | Some n \<Rightarrow> n))"

definition u32_try_from_u64 :: "u64 \<Rightarrow> u32 option" where
  "u32_try_from_u64 v = (if unat v < 2 ^ 32 then Some (ucast v) else None)"

definition user_data_try_from :: "u64 \<Rightarrow> (UserDataOpTypeError + UserData) rust" where
  "user_data_try_from value =
     (let op_u64 = drop_bit 32 (value AND 0xffffffff00000000) in
      rbind (expect ''We just made sure that the value wasn't larger than 32 bits.''
               (u32_try_from_u64 op_u64)) (\<lambda>op_u32.
      case op_try_from op_u32 of
        Inl e \<Rightarrow> Inr (Inl e)
      | Inr op \<Rightarrow>
          let data_u64 = value AND 0xffffffff in
          rbind (expect ''We just made sure that the value wasn't larger than 32 bits.''
                   (u32_try_from_u64 data_u64)) (\<lambda>d.
          Inr (Inr \<lparr>op_type = op, data = nonzero_new d\<rparr>))))"

section \<open>Packing\<close>

text \<open>A \<open>UserData\<close> whose number went through \<open>NonZeroU32\<close>.\<close>

definition user_data_ok :: "UserData \<Rightarrow> bool" where
  "user_data_ok u \<longleftrightarrow> data u \<noteq> Some 0"

lemma op_try_from_Inr_iff: "op_try_from v = Inr t \<longleftrightarrow> v = u32_of_op t"
  by (cases t) (auto simp: op_try_from_def)

lemma nonzero_new_simps [simp]:
  "nonzero_new 0 = None"
  "n \<noteq> 0 \<Longrightarrow> nonzero_new n = Some n"
  by (simp_all add: nonzero_new_def)

lemma nonzero_new_Some_iff [rust_simps]: "nonzero_new n = Some m \<longleftrightarrow> m = n \<and> n \<noteq> 0"
  by (auto simp: nonzero_new_def)

lemma mask_high: "drop_bit 32 (v AND 0xffffffff00000000) = drop_bit 32 (v :: u64)"
proof -
  have "(0xffffffff00000000 :: u64) = push_bit 32 (mask 32)"
    by (simp add: mask_eq_exp_minus_1 push_bit_eq_mult)
  then have "drop_bit 32 (v AND 0xffffffff00000000) = drop_bit 32 (v AND push_bit 32 (mask 32))"
    by simp
  also have "\<dots> = drop_bit 32 v"
    by (rule bit_word_eqI) (auto simp: bit_simps dest: bit_imp_le_length)
  finally show ?thesis .
qed

lemma mask_low: "v AND 0xffffffff = (take_bit 32 v :: u64)"
proof -
  have "(0xffffffff :: u64) = mask 32"
    by (simp add: mask_eq_exp_minus_1)
  then show ?thesis by (simp add: take_bit_eq_mask)
qed

lemma high_fits: "unat (drop_bit 32 (v :: u64)) < 2 ^ 32"
proof -
  have "unat (drop_bit 32 v) = drop_bit 32 (take_bit 64 (unat v))"
    by (simp only: unsigned_drop_bit_eq) simp
  also have "\<dots> = take_bit 32 (drop_bit 32 (unat v))"
    by (simp add: drop_bit_take_bit)
  finally show ?thesis by (simp only: take_bit_nat_less_exp)
qed

lemma low_fits: "unat (take_bit 32 (v :: u64)) < 2 ^ 32"
  by (simp only: unsigned_take_bit_eq take_bit_nat_less_exp)

text \<open>Unpacking never panics: both halves fit 32 bits.\<close>

lemma user_data_try_from_eq:
  "user_data_try_from v = Inr (case op_try_from (ucast (drop_bit 32 v)) of
       Inl e \<Rightarrow> Inl e
     | Inr t \<Rightarrow> Inr \<lparr>op_type = t, data = nonzero_new (ucast (take_bit 32 v))\<rparr>)"
  unfolding user_data_try_from_def Let_def mask_high mask_low u32_try_from_u64_def
  using high_fits [of v] low_fits [of v] by (simp split: sum.splits)

lemma high_of_packed:
  "ucast (drop_bit 32 (push_bit 32 (ucast (a :: u32)) OR ucast (b :: u32) :: u64)) = a"
  by (rule bit_word_eqI) (auto simp: bit_simps dest: bit_imp_le_length)

lemma low_of_packed:
  "ucast (take_bit 32 (push_bit 32 (ucast (a :: u32)) OR ucast (b :: u32) :: u64)) = b"
  by (rule bit_word_eqI) (auto simp: bit_simps dest: bit_imp_le_length)

lemma packed_halves:
  "push_bit 32 (ucast (ucast (drop_bit 32 v) :: u32)) OR ucast (ucast (take_bit 32 v) :: u32) = (v :: u64)"
proof (rule bit_word_eqI)
  fix n
  assume "n < LENGTH(64)"
  then show "bit (push_bit 32 (ucast (ucast (drop_bit 32 v) :: u32)) OR
      ucast (ucast (take_bit 32 v) :: u32) :: u64) n \<longleftrightarrow> bit v n"
    by (cases "n < 32") (auto simp: bit_simps)
qed

lemma user_data_try_from_packed:
  assumes "user_data_ok u"
  shows "user_data_try_from (u64_of_user_data u) = Inr (Inr u)"
proof -
  have t: "op_try_from (ucast (drop_bit 32 (u64_of_user_data u))) = Inr (op_type u)"
    by (simp only: u64_of_user_data_def Let_def high_of_packed op_try_from_Inr_iff)
  have d: "ucast (take_bit 32 (u64_of_user_data u)) = (case data u of None \<Rightarrow> 0 | Some n \<Rightarrow> n)"
    by (simp only: u64_of_user_data_def Let_def low_of_packed)
  from assms show ?thesis
    by (auto simp: user_data_try_from_eq t d user_data_ok_def split: option.splits
        intro!: UserData.equality)
qed

lemma user_data_try_from_Inr_iff:
  "user_data_try_from v = Inr (Inr u) \<longleftrightarrow> v = u64_of_user_data u \<and> user_data_ok u"
proof
  assume "user_data_try_from v = Inr (Inr u)"
  then have t: "ucast (drop_bit 32 v) = u32_of_op (op_type u)"
    and d: "data u = nonzero_new (ucast (take_bit 32 v))"
    by (auto simp: user_data_try_from_eq op_try_from_Inr_iff split: sum.splits)
  from d have "(case data u of None \<Rightarrow> 0 | Some n \<Rightarrow> n) = ucast (take_bit 32 v)"
    by (simp add: nonzero_new_def)
  then have "u64_of_user_data u = v"
    by (simp add: u64_of_user_data_def Let_def packed_halves flip: t)
  moreover from d have "user_data_ok u"
    by (simp add: user_data_ok_def nonzero_new_def)
  ultimately show "v = u64_of_user_data u \<and> user_data_ok u" by simp
qed (simp add: user_data_try_from_packed)

end
