(* ===== verification/Sync_Packet.thy ===== *)
theory Sync_Packet
  imports Winnow "HOL-Library.Monad_Syntax"
begin

text \<open>
  The packets of the sync sub-protocol (\<open>src/sync.rs\<close>, first half): request identifiers and their
  parsers, the frame headers of both directions with their wire image, and the four kinds of
  response frame.
\<close>

section \<open>Identifiers\<close>

definition PAYLOAD_SIZE_MAX_BYTES :: nat where
  "PAYLOAD_SIZE_MAX_BYTES = 64 * 1024"

definition ID_LSTAT_V1 :: u32 where "ID_LSTAT_V1 = from_le_bytes (bytes_of ''STAT'')"
definition ID_DATA :: u32 where "ID_DATA = from_le_bytes (bytes_of ''DATA'')"
definition ID_DONE :: u32 where "ID_DONE = from_le_bytes (bytes_of ''DONE'')"
definition ID_FAIL :: u32 where "ID_FAIL = from_le_bytes (bytes_of ''FAIL'')"
definition ID_OKAY :: u32 where "ID_OKAY = from_le_bytes (bytes_of ''OKAY'')"
definition ID_RECV_V1 :: u32 where "ID_RECV_V1 = from_le_bytes (bytes_of ''RECV'')"
definition ID_SEND_V1 :: u32 where "ID_SEND_V1 = from_le_bytes (bytes_of ''SEND'')"
definition ID_QUIT :: u32 where "ID_QUIT = from_le_bytes (bytes_of ''QUIT'')"

lemma sync_ids:
  "ID_LSTAT_V1 = 0x54415453" "ID_DATA = 0x41544144" "ID_DONE = 0x454e4f44"
  "ID_FAIL = 0x4c494146" "ID_OKAY = 0x59414b4f" "ID_RECV_V1 = 0x56434552"
  "ID_SEND_V1 = 0x444e4553" "ID_QUIT = 0x54495551"
  by (simp_all add: ID_LSTAT_V1_def ID_DATA_def ID_DONE_def ID_FAIL_def ID_OKAY_def
      ID_RECV_V1_def ID_SEND_V1_def ID_QUIT_def bytes_of_def of_le32_def)

datatype SyncCommandParsingError = SyncCommandParsingError u32

datatype SyncPacketId = IdLstatV1 | IdRecvV1 | IdSendV1 | IdQuit

definition packet_id_try_from :: "u32 \<Rightarrow> SyncCommandParsingError + SyncPacketId" where
  "packet_id_try_from value =
     (if value = ID_LSTAT_V1 then Inr IdLstatV1
      else if value = ID_RECV_V1 then Inr IdRecvV1
      else if value = ID_SEND_V1 then Inr IdSendV1
      else if value = ID_QUIT then Inr IdQuit
      else Inl (SyncCommandParsingError value))"

fun packet_id_u32 :: "SyncPacketId \<Rightarrow> u32" where
  "packet_id_u32 IdLstatV1 = ID_LSTAT_V1"
| "packet_id_u32 IdRecvV1 = ID_RECV_V1"
| "packet_id_u32 IdSendV1 = ID_SEND_V1"
| "packet_id_u32 IdQuit = ID_QUIT"

fun packet_id_fmt :: "SyncPacketId \<Rightarrow> rstr" where
  "packet_id_fmt IdLstatV1 = bytes_of ''STAT''"
| "packet_id_fmt IdRecvV1 = bytes_of ''RECV''"
| "packet_id_fmt IdSendV1 = bytes_of ''SEND''"
| "packet_id_fmt IdQuit = bytes_of ''QUIT''"

section \<open>Requests\<close>

definition parse_sync_packet_id :: "winnow \<Rightarrow> SyncPacketId parser" where
  "parse_sync_packet_id W = verify_map (le_u32 W) (\<lambda>v. result_ok (packet_id_try_from v))"

datatype SyncPacket = PkLStatV1 path | PkRecvV1 path | PkSendV1 path u32 | PkQuit

text \<open>The digits of the mode as a \<open>u32\<close>: \<open>to_str\<close>, then \<open>parse::<u32>\<close>.\<close>

definition parse_mode :: "bytes \<Rightarrow> u32 option" where
  "parse_mode b =
     (if utf8_valid b then map_option of_nat (result_ok (parse_unsigned 32 b)) else None)"

definition parse_path_mode :: "winnow \<Rightarrow> (path \<times> u32) parser" where
  "parse_path_mode W input = do {
     (p, input) \<leftarrow> take_until1 W (bytes_of '','') input;
     (_, input) \<leftarrow> literal W (bytes_of '','') input;
     (m, input) \<leftarrow> verify_map (digit1 W) parse_mode input;
     Some ((p, m), input)
   }"

definition parse_sync_packet :: "winnow \<Rightarrow> SyncPacket parser" where
  "parse_sync_packet W input = do {
     (i, input) \<leftarrow> parse_sync_packet_id W input;
     case i of
       IdLstatV1 \<Rightarrow> do {
         (p, input) \<leftarrow> length_take W (le_u32 W) input;
         Some (PkLStatV1 p, input)
       }
     | IdRecvV1 \<Rightarrow> do {
         (p, input) \<leftarrow> length_take W (le_u32 W) input;
         Some (PkRecvV1 p, input)
       }
     | IdSendV1 \<Rightarrow> do {
         (path_mode_bytes, input) \<leftarrow> length_take W (le_u32 W) input;
         ((p, m), _) \<leftarrow> parse_path_mode W path_mode_bytes;
         Some (PkSendV1 p m, input)
       }
     | IdQuit \<Rightarrow> Some (PkQuit, input)
   }"

section \<open>Frames from the host\<close>

datatype SyncFrameRequestId = ReqData | ReqDone

definition frame_id_try_from :: "u32 \<Rightarrow> SyncCommandParsingError + SyncFrameRequestId" where
  "frame_id_try_from value =
     (if value = ID_DATA then Inr ReqData
      else if value = ID_DONE then Inr ReqDone
      else Inl (SyncCommandParsingError value))"

fun frame_id_u32 :: "SyncFrameRequestId \<Rightarrow> u32" where
  "frame_id_u32 ReqData = ID_DATA"
| "frame_id_u32 ReqDone = ID_DONE"

definition parse_sync_frame_id :: "winnow \<Rightarrow> SyncFrameRequestId parser" where
  "parse_sync_frame_id W = verify_map (le_u32 W) (\<lambda>v. result_ok (frame_id_try_from v))"

fun frame_id_fmt :: "SyncFrameRequestId \<Rightarrow> rstr" where
  "frame_id_fmt ReqData = bytes_of ''DATA''"
| "frame_id_fmt ReqDone = bytes_of ''DONE''"

record SyncFrameRequestHeader =
  rq_id :: SyncFrameRequestId
  rq_len :: u32

definition FRAME_HEADER_SIZE :: nat where
  "FRAME_HEADER_SIZE = 8"

definition parse_sync_frame_header :: "winnow \<Rightarrow> SyncFrameRequestHeader parser" where
  "parse_sync_frame_header W input = do {
     (i, input) \<leftarrow> parse_sync_frame_id W input;
     (l, input) \<leftarrow> le_u32 W input;
     Some (\<lparr>rq_id = i, rq_len = l\<rparr>, input)
   }"

section \<open>Frames to the host\<close>

datatype SyncFrameResponseId = RspData | RspDone | RspOkay | RspFail

definition response_id_try_from :: "u32 \<Rightarrow> SyncCommandParsingError + SyncFrameResponseId" where
  "response_id_try_from value =
     (if value = ID_DATA then Inr RspData
      else if value = ID_DONE then Inr RspDone
      else Inl (SyncCommandParsingError value))"

fun response_id_u32 :: "SyncFrameResponseId \<Rightarrow> u32" where
  "response_id_u32 RspData = ID_DATA"
| "response_id_u32 RspDone = ID_DONE"
| "response_id_u32 RspOkay = ID_OKAY"
| "response_id_u32 RspFail = ID_FAIL"

fun response_id_fmt :: "SyncFrameResponseId \<Rightarrow> rstr" where
  "response_id_fmt RspData = bytes_of ''DATA''"
| "response_id_fmt RspDone = bytes_of ''DONE''"
| "response_id_fmt RspOkay = bytes_of ''OKAY''"
| "response_id_fmt RspFail = bytes_of ''FAIL''"

record SyncFrameResponseHeader =
  rsp_id :: SyncFrameResponseId
  rsp_len :: u32

definition as_le_bytes_response :: "SyncFrameResponseHeader \<Rightarrow> bytes" where
  "as_le_bytes_response h = le32 (response_id_u32 (rsp_id h)) @ le32 (rsp_len h)"

record SyncStat =
  st_id :: u32
  st_mode :: u32
  st_size :: u32
  st_mtime :: u32

definition as_le_bytes_stat :: "SyncStat \<Rightarrow> bytes" where
  "as_le_bytes_stat s = le32 (st_id s) @ le32 (st_mode s) @ le32 (st_size s) @ le32 (st_mtime s)"

type_synonym SyncResponse = "SyncFrameResponseHeader \<times> bytes"

definition data_response :: "bytes \<Rightarrow> SyncResponse rust" where
  "data_response d =
     rbind (expect ''DATA responses can fit at most 64kB, well below 2^32'' (try_u32 (length d)))
       (\<lambda>n. Inr (\<lparr>rsp_id = RspData, rsp_len = n\<rparr>, d))"

definition done_response :: SyncResponse where
  "done_response = (\<lparr>rsp_id = RspDone, rsp_len = 0\<rparr>, [])"

definition okay_response :: SyncResponse where
  "okay_response = (\<lparr>rsp_id = RspOkay, rsp_len = 0\<rparr>, [])"

definition fail_response :: "bytes \<Rightarrow> SyncResponse rust" where
  "fail_response msg =
     rbind (expect ''Our maximum data buffer size is 1MB, well below 2^32.'' (try_u32 (length msg)))
       (\<lambda>n. Inr (\<lparr>rsp_id = RspFail, rsp_len = n\<rparr>, msg))"

section \<open>Identifiers and names\<close>

lemma packet_id_try_from_Inr_iff: "packet_id_try_from v = Inr i \<longleftrightarrow> v = packet_id_u32 i"
  by (cases i) (auto simp: packet_id_try_from_def sync_ids)

lemma frame_id_try_from_Inr_iff: "frame_id_try_from v = Inr i \<longleftrightarrow> v = frame_id_u32 i"
  by (cases i) (auto simp: frame_id_try_from_def sync_ids)

lemma length_as_le_bytes_response [simp]: "length (as_le_bytes_response h) = 8"
  by (simp add: as_le_bytes_response_def)

lemma length_as_le_bytes_stat [simp]: "length (as_le_bytes_stat s) = 16"
  by (simp add: as_le_bytes_stat_def)

lemma fail_response_Inr_iff [rust_simps]:
  "fail_response msg = Inr resp \<longleftrightarrow>
     length msg < 2 ^ 32 \<and> resp = (\<lparr>rsp_id = RspFail, rsp_len = of_nat (length msg)\<rparr>, msg)"
  by (auto simp: fail_response_def rust_simps)

lemma fail_response_small:
  "length msg < 2 ^ 32 \<Longrightarrow>
     fail_response msg = Inr (\<lparr>rsp_id = RspFail, rsp_len = of_nat (length msg)\<rparr>, msg)"
  by (simp add: fail_response_def)

lemma data_response_Inr_iff [rust_simps]:
  "data_response d = Inr resp \<longleftrightarrow>
     length d < 2 ^ 32 \<and> resp = (\<lparr>rsp_id = RspData, rsp_len = of_nat (length d)\<rparr>, d)"
  by (auto simp: data_response_def rust_simps)

section \<open>What the parsers accept\<close>

definition mode_of :: "bytes \<Rightarrow> u32" where
  "mode_of ds = of_nat (decimal 0 ds)"

text \<open>A \<open>path,mode\<close> field as the parser reads it: the path ends at the first comma, the mode is
  the maximal run of digits behind it and must fit \<open>u32\<close>; what follows the digits is ignored.\<close>

definition path_mode_field :: "bytes \<Rightarrow> path \<Rightarrow> u32 \<Rightarrow> bool" where
  "path_mode_field b p m \<longleftrightarrow>
     (\<exists>ds junk. b = p @ 0x2C # ds @ junk \<and> p \<noteq> [] \<and> 0x2C \<notin> set p \<and> ds \<noteq> []
        \<and> list_all is_digit ds \<and> (junk = [] \<or> \<not> is_digit (hd junk))
        \<and> decimal 0 ds < 2 ^ 32 \<and> m = mode_of ds)"

text \<open>The byte strings that spell a request, with what follows them in the same payload.\<close>

fun request_bytes :: "SyncPacket \<Rightarrow> bytes \<Rightarrow> bytes \<Rightarrow> bool" where
  "request_bytes (PkLStatV1 p) i r \<longleftrightarrow>
     (\<exists>n. i = le32 ID_LSTAT_V1 @ le32 n @ p @ r \<and> length p = unat n)"
| "request_bytes (PkRecvV1 p) i r \<longleftrightarrow>
     (\<exists>n. i = le32 ID_RECV_V1 @ le32 n @ p @ r \<and> length p = unat n)"
| "request_bytes (PkSendV1 p m) i r \<longleftrightarrow>
     (\<exists>n b. i = le32 ID_SEND_V1 @ le32 n @ b @ r \<and> length b = unat n \<and> path_mode_field b p m)"
| "request_bytes PkQuit i r \<longleftrightarrow> i = le32 ID_QUIT @ r"

lemma bytes_of_comma: "bytes_of '','' = [0x2C]"
  by (simp add: bytes_of_def)

lemma digits_ascii: "list_all is_digit ds \<Longrightarrow> list_all (\<lambda>a. a < 0x80) ds"
proof (erule list.pred_mono_strong)
  fix a :: u8
  assume "is_digit a"
  then have "a \<le> 0x39" by (simp add: is_digit_def)
  also have "(0x39 :: u8) < 0x80" by simp
  finally show "a < 0x80" .
qed

lemma digit_not_sign: "is_digit c \<Longrightarrow> c \<noteq> 0x2B \<and> c \<noteq> 0x2D"
  by (auto simp: is_digit_def)

lemma parse_mode_digits:
  assumes "list_all is_digit ds" and "ds \<noteq> []"
  shows "parse_mode ds = Some m \<longleftrightarrow> decimal 0 ds < 2 ^ 32 \<and> m = mode_of ds"
proof -
  obtain c cs where ds: "ds = c # cs" using assms(2) by (cases ds) auto
  with assms(1) have "c \<noteq> 0x2B" and "c \<noteq> 0x2D" by (auto dest: digit_not_sign)
  then have pu: "parse_unsigned 32 ds = parse_digits 32 0 ds"
    by (auto simp: parse_unsigned_def ds)
  have "utf8_valid ds" by (rule utf8_valid_ascii [OF digits_ascii [OF assms(1)]])
  then have "parse_mode ds = Some m \<longleftrightarrow> (\<exists>n. parse_digits 32 0 ds = Inr n \<and> m = of_nat n)"
    by (auto simp: parse_mode_def pu rust_simps)
  also have "\<dots> \<longleftrightarrow> decimal 0 ds < 2 ^ 32 \<and> m = mode_of ds"
    using assms by (auto simp: parse_digits_Inr_iff mode_of_def)
  finally show ?thesis .
qed

lemma take_drop_digits:
  assumes "list_all is_digit ds" and "junk = [] \<or> \<not> is_digit (hd junk)"
  shows "takeWhile is_digit (ds @ junk) = ds" and "dropWhile is_digit (ds @ junk) = junk"
  using assms by (induction ds) (cases junk; auto)+

context winnow_spec
begin

lemma parse_sync_packet_id_Some_iff:
  "parse_sync_packet_id W i = Some (k, r) \<longleftrightarrow> i = le32 (packet_id_u32 k) @ r"
  by (auto simp: parse_sync_packet_id_def rust_simps le_u32_Some_iff packet_id_try_from_Inr_iff)

lemma parse_sync_frame_id_Some_iff:
  "parse_sync_frame_id W i = Some (k, r) \<longleftrightarrow> i = le32 (frame_id_u32 k) @ r"
  by (auto simp: parse_sync_frame_id_def rust_simps le_u32_Some_iff frame_id_try_from_Inr_iff)

lemma parse_sync_frame_header_Some_iff:
  "parse_sync_frame_header W i = Some (h, r) \<longleftrightarrow>
     i = le32 (frame_id_u32 (rq_id h)) @ le32 (rq_len h) @ r"
  by (cases h) (auto simp: parse_sync_frame_header_def bind_eq_Some_conv
      parse_sync_frame_id_Some_iff le_u32_Some_iff)

lemma take_until1_comma_Some_iff:
  "take_until1 W [c] i = Some (p, r) \<longleftrightarrow> (\<exists>r'. i = p @ r \<and> r = c # r' \<and> p \<noteq> [] \<and> c \<notin> set p)"
proof (cases "c \<in> set i")
  case True
  then obtain u v where i: "i = u @ c # v" and u: "c \<notin> set u"
    by (metis split_list_first)
  show ?thesis
  proof (cases "u = []")
    case True
    with i show ?thesis by (auto simp: take_until1_empty Cons_eq_append_conv)
  next
    case False
    with u show ?thesis
      unfolding i by (auto simp: take_until1_found first_occurrence_unique [OF u])
  qed
qed (auto simp: take_until1_missing)

lemma parse_path_mode_Some_iff:
  "(\<exists>r. parse_path_mode W b = Some ((p, m), r)) \<longleftrightarrow> path_mode_field b p m"
proof
  assume "\<exists>r. parse_path_mode W b = Some ((p, m), r)"
  then obtain s where b: "b = p @ 0x2C # s" and p: "p \<noteq> []" "0x2C \<notin> set p"
    and ds: "takeWhile is_digit s \<noteq> []" and m: "parse_mode (takeWhile is_digit s) = Some m"
    by (auto simp: parse_path_mode_def bind_eq_Some_conv bytes_of_comma
        take_until1_comma_Some_iff literal_eq rust_simps digit1_eq split: if_splits)
  have all: "list_all is_digit (takeWhile is_digit s)"
    by (auto simp: list_all_iff dest: set_takeWhileD)
  have junk: "dropWhile is_digit s = [] \<or> \<not> is_digit (hd (dropWhile is_digit s))"
    using hd_dropWhile by blast
  show "path_mode_field b p m"
    unfolding path_mode_field_def
    using b p ds all junk m parse_mode_digits [OF all ds]
    by (intro exI [of _ "takeWhile is_digit s"] exI [of _ "dropWhile is_digit s"]) auto
next
  assume "path_mode_field b p m"
  then obtain ds junk where b: "b = p @ 0x2C # ds @ junk" and p: "p \<noteq> []" "0x2C \<notin> set p"
    and ds: "ds \<noteq> []" "list_all is_digit ds" "junk = [] \<or> \<not> is_digit (hd junk)"
    and m: "decimal 0 ds < 2 ^ 32" "m = mode_of ds"
    unfolding path_mode_field_def by blast
  have "parse_mode ds = Some m"
    using m by (simp add: parse_mode_digits [OF ds(2,1)])
  with b p ds show "\<exists>r. parse_path_mode W b = Some ((p, m), r)"
    by (auto simp: parse_path_mode_def bytes_of_comma take_until1_found literal_eq
        verify_map_def digit1_eq take_drop_digits)
qed

lemma parse_sync_packet_Some_iff:
  "parse_sync_packet W i = Some (pk, r) \<longleftrightarrow> request_bytes pk i r"
  by (cases pk; auto simp: parse_sync_packet_def bind_eq_Some_conv parse_sync_packet_id_Some_iff
      length_take_Some_iff parse_path_mode_Some_iff [symmetric] split: SyncPacketId.splits;
      metis SyncPacketId.exhaust)

end

end
