(* ===== verification/Sync_Transfer.thy ===== *)
theory Sync_Transfer
  imports Sync_Packet Os
begin

text \<open>
  The two transfer engines of \<open>src/sync.rs\<close>: \<open>FileSender\<close>, which streams a file to the host as
  DATA frames, and \<open>FileReceiver\<close>, whose loop takes DATA and DONE frames out of WRTE payloads
  that may cut them anywhere. The receiver is compared with a byte-at-a-time machine \<open>frame_step\<close>
  that knows nothing of payload boundaries.
\<close>

section \<open>Sending a file\<close>

record FileSender =
  fs_file :: fd
  fs_done :: bool

definition next_frame ::
  "'w kernel \<Rightarrow> FileSender \<Rightarrow> 'w \<Rightarrow> (SyncResponse option \<times> FileSender \<times> 'w) rust" where
  "next_frame K s w =
     (if fs_done s then Inr (None, s, w)
      else
        (case k_read K (fs_file s) PAYLOAD_SIZE_MAX_BYTES w of
          (Inr buf, w') \<Rightarrow>
            if buf = [] then Inr (Some done_response, s\<lparr>fs_done := True\<rparr>, w')
            else if length buf \<le> PAYLOAD_SIZE_MAX_BYTES
            then rbind (data_response buf) (\<lambda>resp. Inr (Some resp, s, w'))
            else Inl ''range end index out of range for slice''
        | (Inl e, w') \<Rightarrow>
            rbind (fail_response (bytes_of ''read error: '' @ e))
              (\<lambda>resp. Inr (Some resp, s\<lparr>fs_done := True\<rparr>, w'))))"

section \<open>Receiving a file\<close>

datatype RecvState = Header | PartialHeader bytes nat | InData nat

record FileReceiver =
  fr_file :: fd
  fr_path :: path
  fr_mode :: u32
  fr_state :: RecvState

datatype 'a FileReceiverResult = FrDone 'a | FrContinue

definition abort :: "'w kernel \<Rightarrow> FileReceiver \<Rightarrow> 'w \<Rightarrow> 'w" where
  "abort K r w = snd (k_remove_file K (fr_path r) w)"

definition finalize ::
  "'w kernel \<Rightarrow> FileReceiver \<Rightarrow> u32 \<Rightarrow> 'w \<Rightarrow> (SyncResponse FileReceiverResult \<times> FileReceiver \<times> 'w) rust" where
  "finalize K r mtime w =
     (case k_set_permissions K (fr_file r) (fr_mode r) w of
       (Inl e, w1) \<Rightarrow>
         rbind (fail_response
                  (bytes_of ''cannot set permissions on '' @ lossy (fr_path r) @ bytes_of '': '' @ e))
           (\<lambda>resp. Inr (FrDone resp, r, abort K r w1))
     | (Inr _, w1) \<Rightarrow>
         Inr (FrDone okay_response, r, snd (k_set_mtime K (fr_file r) (ucast mtime) w1)))"

text \<open>
  The loop of \<open>receive\<close> at position \<open>pos\<close>. A header that the payload cuts is kept in
  \<open>PartialHeader\<close> with the number of bytes already seen; a payload of DATA is written as far as it
  goes. The subtraction in the \<open>PartialHeader\<close> arm panics when more than a header was kept.
\<close>

function receive_loop ::
  "'w kernel \<Rightarrow> winnow \<Rightarrow> bytes \<Rightarrow> nat \<Rightarrow> FileReceiver \<Rightarrow> 'w
     \<Rightarrow> (SyncResponse FileReceiverResult \<times> FileReceiver \<times> 'w) rust" where
  "receive_loop K W d pos r w =
     (if pos < length d then
       (case fr_state r of
         Header \<Rightarrow>
           (case slice_get pos (pos + FRAME_HEADER_SIZE) d of
             None \<Rightarrow>
               let rem = drop pos d;
                   buf = copy_at 0 rem (replicate FRAME_HEADER_SIZE 0)
               in Inr (FrContinue, r\<lparr>fr_state := PartialHeader buf (length rem)\<rparr>, w)
           | Some header_slice \<Rightarrow>
               (case parse_sync_frame_header W header_slice of
                 None \<Rightarrow>
                   rbind (fail_response (bytes_of ''invalid sync frame during send''))
                     (\<lambda>resp. Inr (FrDone resp, r, abort K r w))
               | Some (header, _) \<Rightarrow>
                   (case rq_id header of
                     ReqData \<Rightarrow>
                       receive_loop K W d (pos + FRAME_HEADER_SIZE)
                         (r\<lparr>fr_state := InData (unat (rq_len header))\<rparr>) w
                   | ReqDone \<Rightarrow> finalize K r (rq_len header) w)))
       | PartialHeader leftovers leftovers_len \<Rightarrow>
           if FRAME_HEADER_SIZE < leftovers_len then Inl ''attempt to subtract with overflow''
           else
             (let need = FRAME_HEADER_SIZE - leftovers_len in
              case slice_get pos (pos + need) d of
                None \<Rightarrow>
                  let more = min need (length d - pos);
                      kept = copy_at leftovers_len (take more (drop pos d)) leftovers
                  in Inr (FrContinue,
                          r\<lparr>fr_state := PartialHeader kept (leftovers_len + more)\<rparr>, w)
              | Some rem \<Rightarrow>
                  (case parse_sync_frame_header W (copy_at leftovers_len rem leftovers) of
                    None \<Rightarrow>
                      rbind (fail_response (bytes_of ''invalid sync frame during send''))
                        (\<lambda>resp. Inr (FrDone resp, r, abort K r w))
                  | Some (header, _) \<Rightarrow>
                      (case rq_id header of
                        ReqData \<Rightarrow>
                          receive_loop K W d (pos + length rem)
                            (r\<lparr>fr_state := InData (unat (rq_len header))\<rparr>) w
                      | ReqDone \<Rightarrow> finalize K r (rq_len header) w)))
       | InData remaining \<Rightarrow>
           (let to_write = min remaining (length d - pos) in
            case k_write_all K (fr_file r) (take to_write (drop pos d)) w of
              (Inl e, w') \<Rightarrow>
                rbind (fail_response
                         (bytes_of ''write error for '' @ lossy (fr_path r) @ bytes_of '': '' @ e))
                  (\<lambda>resp. Inr (FrDone resp, r, abort K r w'))
            | (Inr _, w') \<Rightarrow>
                receive_loop K W d (pos + to_write)
                  (r\<lparr>fr_state := (if 0 < remaining - to_write then InData (remaining - to_write)
                                  else Header)\<rparr>) w'))
      else Inr (FrContinue, r, w))"
  by pat_completeness auto

text \<open>The loop ends: a round consumes bytes, or turns a complete kept header into a data state, or
  an empty data state into the header state.\<close>

fun recv_rank :: "RecvState \<Rightarrow> nat" where
  "recv_rank Header = 0"
| "recv_rank (InData _) = 1"
| "recv_rank (PartialHeader _ _) = 2"

termination receive_loop
  by (relation "measures [\<lambda>(K, W, d, pos, r, w). length d - pos,
                          \<lambda>(K, W, d, pos, r, w). recv_rank (fr_state r)]")
    (auto simp: slice_get_def FRAME_HEADER_SIZE_def min_def split: if_splits)

declare receive_loop.simps [simp del]

definition receive ::
  "'w kernel \<Rightarrow> winnow \<Rightarrow> FileReceiver \<Rightarrow> bytes \<Rightarrow> 'w
     \<Rightarrow> (SyncResponse FileReceiverResult \<times> FileReceiver \<times> 'w) rust" where
  "receive K W r d w = receive_loop K W d 0 r w"

text \<open>A push session: the payloads of successive WRTE messages go to the same receiver until it
  answers.\<close>

fun receive_all ::
  "'w kernel \<Rightarrow> winnow \<Rightarrow> FileReceiver \<Rightarrow> bytes list \<Rightarrow> 'w
     \<Rightarrow> (SyncResponse FileReceiverResult \<times> FileReceiver \<times> 'w) rust" where
  "receive_all K W r [] w = Inr (FrContinue, r, w)"
| "receive_all K W r (p # ps) w =
     rbind (receive K W r p w) (\<lambda>(res, r', w').
       case res of
         FrContinue \<Rightarrow> receive_all K W r' ps w'
       | FrDone resp \<Rightarrow> Inr (FrDone resp, r', w'))"

section \<open>The frame machine\<close>

text \<open>
  What a stream of frames means, one byte at a time: the bytes of a header collect until there are
  eight; a DATA header opens a body of its length, a DONE header ends the transfer, anything else
  is bad. The output is the file content.
\<close>

datatype frame_state = InHeader bytes | InBody nat | Finished u32 | Bad

definition frame_decode :: "bytes \<Rightarrow> frame_state" where
  "frame_decode h =
     (let i = from_le_bytes h; n = from_le_bytes (drop 4 h) in
      if i = ID_DATA then (if n = 0 then InHeader [] else InBody (unat n))
      else if i = ID_DONE then Finished n else Bad)"

fun frame_step :: "frame_state \<Rightarrow> u8 \<Rightarrow> bytes \<times> frame_state" where
  "frame_step (InHeader h) b =
     ([], if length h + 1 < FRAME_HEADER_SIZE then InHeader (h @ [b]) else frame_decode (h @ [b]))"
| "frame_step (InBody n) b = ([b], if n \<le> 1 then InHeader [] else InBody (n - 1))"
| "frame_step s b = ([], s)"

fun frame_run :: "frame_state \<Rightarrow> bytes \<Rightarrow> bytes \<times> frame_state" where
  "frame_run s [] = ([], s)"
| "frame_run s (b # bs) =
     (let (o1, s1) = frame_step s b; (o2, s2) = frame_run s1 bs in (o1 @ o2, s2))"

lemma frame_run_append:
  "frame_run s (xs @ ys) =
     (let (o1, s1) = frame_run s xs; (o2, s2) = frame_run s1 ys in (o1 @ o2, s2))"
  by (induction xs arbitrary: s) (auto split: prod.splits)

lemma frame_run_stopped [simp]:
  "frame_run (Finished m) xs = ([], Finished m)"
  "frame_run Bad xs = ([], Bad)"
  by (induction xs) auto

lemma frame_run_header_part:
  "length h + length xs < FRAME_HEADER_SIZE \<Longrightarrow> frame_run (InHeader h) xs = ([], InHeader (h @ xs))"
  by (induction xs arbitrary: h) auto

lemma frame_run_header_full:
  "length h + length xs = FRAME_HEADER_SIZE \<Longrightarrow> xs \<noteq> [] \<Longrightarrow>
     frame_run (InHeader h) xs = ([], frame_decode (h @ xs))"
proof (induction xs rule: rev_induct)
  case (snoc x xs)
  then show ?case
    by (simp add: frame_run_append frame_run_header_part)
qed simp

lemma frame_run_header_then:
  "length h + length xs = FRAME_HEADER_SIZE \<Longrightarrow> xs \<noteq> [] \<Longrightarrow>
     frame_run (InHeader h) (xs @ ys) = frame_run (frame_decode (h @ xs)) ys"
  by (simp add: frame_run_append frame_run_header_full split: prod.splits)

lemma frame_run_body:
  "0 < n \<Longrightarrow> length xs \<le> n \<Longrightarrow>
     frame_run (InBody n) xs = (xs, if length xs = n then InHeader [] else InBody (n - length xs))"
proof (induction xs arbitrary: n)
  case (Cons x xs)
  show ?case
  proof (cases "n = 1")
    case True
    with Cons.prems show ?thesis by simp
  next
    case False
    with Cons.prems Cons.IH [of "n - 1"] show ?thesis by auto
  qed
qed simp

section \<open>Well-formed receiver states and their meaning\<close>

fun recv_ok :: "RecvState \<Rightarrow> bool" where
  "recv_ok Header \<longleftrightarrow> True"
| "recv_ok (PartialHeader buf n) \<longleftrightarrow> length buf = FRAME_HEADER_SIZE \<and> n < FRAME_HEADER_SIZE"
| "recv_ok (InData n) \<longleftrightarrow> True"

fun recv_abs :: "RecvState \<Rightarrow> frame_state" where
  "recv_abs Header = InHeader []"
| "recv_abs (PartialHeader buf n) = InHeader (take n buf)"
| "recv_abs (InData n) = (if n = 0 then InHeader [] else InBody n)"

text \<open>What the wire parser makes of eight header bytes, in the machine's terms.\<close>

lemma from_le_bytes_eq_iff:
  "length h = 8 \<Longrightarrow> h = le32 i @ le32 n \<longleftrightarrow> from_le_bytes h = i \<and> from_le_bytes (drop 4 h) = n"
proof -
  assume "length h = 8"
  then obtain a b c d a' b' c' d' where h: "h = [a, b, c, d, a', b', c', d']"
    by (auto simp: numeral_eq_Suc length_Suc_conv)
  have "h = le32 (of_le32 a b c d) @ le32 (of_le32 a' b' c' d')"
    by (simp add: h le32_of_le32)
  then show ?thesis
    by (auto simp: h append_eq_append_conv le32_eq_iff)
qed

context winnow_spec
begin

lemma parse_frame_header_cases:
  assumes "length h = FRAME_HEADER_SIZE"
  shows "parse_sync_frame_header W h =
    (if from_le_bytes h = ID_DATA then Some (\<lparr>rq_id = ReqData, rq_len = from_le_bytes (drop 4 h)\<rparr>, [])
     else if from_le_bytes h = ID_DONE
     then Some (\<lparr>rq_id = ReqDone, rq_len = from_le_bytes (drop 4 h)\<rparr>, [])
     else None)"
proof -
  have len: "length h = 8" using assms by (simp add: FRAME_HEADER_SIZE_def)
  have some: "parse_sync_frame_header W h = Some (hd', r) \<longleftrightarrow>
      r = [] \<and> from_le_bytes h = frame_id_u32 (rq_id hd') \<and> from_le_bytes (drop 4 h) = rq_len hd'"
    for hd' r
  proof -
    have "h = le32 i @ le32 n @ r \<longleftrightarrow> r = [] \<and> h = le32 i @ le32 n" for i n
      using len by auto
    then show ?thesis
      by (auto simp: parse_sync_frame_header_Some_iff from_le_bytes_eq_iff [OF len])
  qed
  show ?thesis
  proof (cases "parse_sync_frame_header W h")
    case None
    then show ?thesis
      using some [of "\<lparr>rq_id = ReqData, rq_len = from_le_bytes (drop 4 h)\<rparr>" "[]"]
        some [of "\<lparr>rq_id = ReqDone, rq_len = from_le_bytes (drop 4 h)\<rparr>" "[]"] by auto
  next
    case (Some x)
    obtain hd' r where x: "x = (hd', r)" by (cases x)
    from some [of hd' r] Some x show ?thesis
      by (cases "rq_id hd'") (auto simp: sync_ids)
  qed
qed

end

section \<open>The receiver follows the frame machine\<close>

definition write_error_msg :: "FileReceiver \<Rightarrow> io_error \<Rightarrow> bytes" where
  "write_error_msg r e = bytes_of ''write error for '' @ lossy (fr_path r) @ bytes_of '': '' @ e"

text \<open>
  How the receiver may answer when the machine, over the same bytes, put out \<open>fst m\<close> and reached
  \<open>snd m\<close>. Either a write failed: the file is removed and the answer is a FAIL. Or everything the
  machine put out has been appended to the file, and the answer is the one its last state calls for.
\<close>

definition recv_outcome ::
  "'w kernel \<Rightarrow> ('w \<Rightarrow> fd \<Rightarrow> bytes option) \<Rightarrow> FileReceiver \<Rightarrow> bytes \<Rightarrow> bytes \<times> frame_state
     \<Rightarrow> (SyncResponse FileReceiverResult \<times> FileReceiver \<times> 'w) rust \<Rightarrow> bool" where
  "recv_outcome K contents r c m res \<longleftrightarrow>
     (\<exists>xs w1 w2 e st. k_write_all K (fr_file r) xs w1 = (Inl e, w2)
        \<and> res = rbind (fail_response (write_error_msg r e))
                  (\<lambda>resp. Inr (FrDone resp, r\<lparr>fr_state := st\<rparr>, abort K r w2)))
   \<or> (\<exists>w1 st. contents w1 (fr_file r) = Some (c @ fst m)
        \<and> (case snd m of
             Finished t \<Rightarrow> res = finalize K (r\<lparr>fr_state := st\<rparr>) t w1
           | Bad \<Rightarrow> res = rbind (fail_response (bytes_of ''invalid sync frame during send''))
                       (\<lambda>resp. Inr (FrDone resp, r\<lparr>fr_state := st\<rparr>, abort K r w1))
           | s \<Rightarrow> res = Inr (FrContinue, r\<lparr>fr_state := st\<rparr>, w1) \<and> recv_ok st \<and> recv_abs st = s))"

lemma abort_state [simp]: "abort K (r\<lparr>fr_state := st\<rparr>) w = abort K r w"
  by (simp add: abort_def)

lemma write_error_msg_state [simp]: "write_error_msg (r\<lparr>fr_state := st\<rparr>) e = write_error_msg r e"
  by (simp add: write_error_msg_def)

lemma recv_outcome_cases:
  assumes "recv_outcome K contents r c (out, s) res"
  obtains (write_error) xs w1 w2 e st where "k_write_all K (fr_file r) xs w1 = (Inl e, w2)"
      "res = rbind (fail_response (write_error_msg r e))
               (\<lambda>resp. Inr (FrDone resp, r\<lparr>fr_state := st\<rparr>, abort K r w2))"
  | (finished) w1 st t where "contents w1 (fr_file r) = Some (c @ out)" "s = Finished t"
      "res = finalize K (r\<lparr>fr_state := st\<rparr>) t w1"
  | (bad) w1 st where "contents w1 (fr_file r) = Some (c @ out)" "s = Bad"
      "res = rbind (fail_response (bytes_of ''invalid sync frame during send''))
               (\<lambda>resp. Inr (FrDone resp, r\<lparr>fr_state := st\<rparr>, abort K r w1))"
  | (live) w1 st where "contents w1 (fr_file r) = Some (c @ out)"
      "res = Inr (FrContinue, r\<lparr>fr_state := st\<rparr>, w1)" "recv_ok st" "recv_abs st = s"
proof -
  from assms show ?thesis
    unfolding recv_outcome_def fst_conv snd_conv
  proof (elim disjE exE conjE)
    fix w1 st
    assume "contents w1 (fr_file r) = Some (c @ out)"
      and "case s of
             Finished t \<Rightarrow> res = finalize K (r\<lparr>fr_state := st\<rparr>) t w1
           | Bad \<Rightarrow> res = rbind (fail_response (bytes_of ''invalid sync frame during send''))
                       (\<lambda>resp. Inr (FrDone resp, r\<lparr>fr_state := st\<rparr>, abort K r w1))
           | s \<Rightarrow> res = Inr (FrContinue, r\<lparr>fr_state := st\<rparr>, w1) \<and> recv_ok st \<and> recv_abs st = s"
    then show thesis
      by (cases s) (use finished bad live in auto)
  qed (rule write_error)
qed

lemma recv_outcome_after:
  assumes "recv_outcome K contents (r\<lparr>fr_state := st\<rparr>) (c @ o1) m res"
  shows "recv_outcome K contents r c (o1 @ fst m, snd m) res"
  using assms unfolding recv_outcome_def
  by (cases "snd m") fastforce+

lemma recv_abs_live: "\<exists>h n. recv_abs st = InHeader h \<or> recv_abs st = InBody n"
  by (cases st) auto

lemma recv_outcome_continue:
  assumes "contents w1 (fr_file r) = Some (c @ out)" and "recv_ok st"
  shows "recv_outcome K contents r c (out, recv_abs st) (Inr (FrContinue, r\<lparr>fr_state := st\<rparr>, w1))"
proof -
  obtain h n where "recv_abs st = InHeader h \<or> recv_abs st = InBody n"
    using recv_abs_live [of st] by blast
  with assms show ?thesis
    unfolding recv_outcome_def by (intro disjI2 exI [of _ w1] exI [of _ st]) auto
qed

lemma recv_outcome_finished:
  "contents w1 (fr_file r) = Some (c @ out) \<Longrightarrow>
     recv_outcome K contents r c (out, Finished t) (finalize K r t w1)"
  unfolding recv_outcome_def
  by (intro disjI2 exI [of _ w1] exI [of _ "fr_state r"]) simp

lemma recv_outcome_bad:
  "contents w1 (fr_file r) = Some (c @ out) \<Longrightarrow>
     recv_outcome K contents r c (out, Bad)
       (rbind (fail_response (bytes_of ''invalid sync frame during send''))
         (\<lambda>resp. Inr (FrDone resp, r, abort K r w1)))"
  unfolding recv_outcome_def
  by (intro disjI2 exI [of _ w1] exI [of _ "fr_state r"]) simp

lemma recv_outcome_write_error:
  "k_write_all K (fr_file r) xs w1 = (Inl e, w2) \<Longrightarrow>
     recv_outcome K contents r c m
       (rbind (fail_response (write_error_msg r e)) (\<lambda>resp. Inr (FrDone resp, r, abort K r w2)))"
  unfolding recv_outcome_def
  by (intro disjI1 exI [of _ xs] exI [of _ w1] exI [of _ w2] exI [of _ e] exI [of _ "fr_state r"])
    simp

text \<open>An answer ends the session: nothing after it is fed to the receiver.\<close>

lemma finalize_done:
  "finalize K r t w = rbind (finalize K r t w) (\<lambda>(res, r', w').
     case res of FrContinue \<Rightarrow> g r' w' | FrDone resp \<Rightarrow> Inr (FrDone resp, r', w'))"
  by (auto simp: finalize_def rbind_assoc split: prod.splits sum.splits)

lemma recv_outcome_then:
  assumes res: "recv_outcome K contents r c (out, s) res"
    and g: "\<And>st w1. recv_ok st \<Longrightarrow> recv_abs st = s \<Longrightarrow> contents w1 (fr_file r) = Some (c @ out) \<Longrightarrow>
      recv_outcome K contents (r\<lparr>fr_state := st\<rparr>) (c @ out) (frame_run s q) (g (r\<lparr>fr_state := st\<rparr>) w1)"
  shows "recv_outcome K contents r c (out @ fst (frame_run s q), snd (frame_run s q))
    (rbind res (\<lambda>(res, r', w').
       case res of FrContinue \<Rightarrow> g r' w' | FrDone resp \<Rightarrow> Inr (FrDone resp, r', w')))"
    (is "recv_outcome _ _ _ _ _ (rbind res ?k)")
proof -
  from res show ?thesis
  proof (cases rule: recv_outcome_cases)
    case (write_error xs w1 w2 e st)
    have "rbind res ?k = res" unfolding write_error(2) by (simp add: rbind_assoc)
    moreover have "recv_outcome K contents (r\<lparr>fr_state := st\<rparr>) (c @ []) m res" for m
      unfolding write_error(2)
      using recv_outcome_write_error [of K "r\<lparr>fr_state := st\<rparr>" xs w1 e w2] write_error(1) by simp
    from recv_outcome_after [OF this]
    have "recv_outcome K contents r c m res" for m by (cases m) simp
    ultimately show ?thesis by simp
  next
    case (finished w1 st t)
    have "rbind res ?k = res"
      unfolding finished(3) by (rule finalize_done [symmetric])
    then show ?thesis
      unfolding finished(3)
      using recv_outcome_finished [of contents w1 "r\<lparr>fr_state := st\<rparr>" "c @ out" "[]" K t] finished(1,2)
        recv_outcome_after [where r = r and st = st and c = c and ?o1.0 = out and m = "([], Finished t)"]
      by simp
  next
    case (bad w1 st)
    have "rbind res ?k = res" unfolding bad(3) by (simp add: rbind_assoc)
    then show ?thesis
      unfolding bad(3)
      using recv_outcome_bad [of contents w1 "r\<lparr>fr_state := st\<rparr>" "c @ out" "[]" K] bad(1,2)
        recv_outcome_after [where r = r and st = st and c = c and ?o1.0 = out and m = "([], Bad)"]
      by simp
  next
    case (live w1 st)
    from recv_outcome_after [OF g [OF live(3,4,1)]] live(2) show ?thesis by simp
  qed
qed

text \<open>The receiver at one point of its loop agrees with the machine on the rest of the payload.\<close>

definition follows ::
  "'w kernel \<Rightarrow> winnow \<Rightarrow> ('w \<Rightarrow> fd \<Rightarrow> bytes option) \<Rightarrow> bytes \<Rightarrow> nat \<Rightarrow> FileReceiver \<Rightarrow> bytes \<Rightarrow> 'w \<Rightarrow> bool"
where
  "follows K W contents d pos r c w \<longleftrightarrow>
     recv_outcome K contents r c (frame_run (recv_abs (fr_state r)) (drop pos d))
       (receive_loop K W d pos r w)"

text \<open>The laws a push rests on: the parser library and the file calls.\<close>

locale push_env = winnow_spec W + file_writer K contents perm mtime
  for W and K :: "'w kernel" and contents perm mtime
begin

text \<open>After eight header bytes: the receiver's branch and the machine's state agree.\<close>

lemma header_branch:
  assumes "length h = FRAME_HEADER_SIZE" and c: "contents w (fr_file r) = Some c"
    and go: "\<And>n. follows K W contents d pos (r\<lparr>fr_state := InData n\<rparr>) c w"
  shows "recv_outcome K contents r c (frame_run (frame_decode h) (drop pos d))
    (case parse_sync_frame_header W h of
       None \<Rightarrow> rbind (fail_response (bytes_of ''invalid sync frame during send''))
                 (\<lambda>resp. Inr (FrDone resp, r, abort K r w))
     | Some (header, _) \<Rightarrow>
         (case rq_id header of
           ReqData \<Rightarrow> receive_loop K W d pos (r\<lparr>fr_state := InData (unat (rq_len header))\<rparr>) w
         | ReqDone \<Rightarrow> finalize K r (rq_len header) w))"
proof -
  let ?n = "from_le_bytes (drop 4 h)" and ?st = "InData (unat (from_le_bytes (drop 4 h)))"
  consider "from_le_bytes h = ID_DATA" | "from_le_bytes h = ID_DONE" "from_le_bytes h \<noteq> ID_DATA"
    | "from_le_bytes h \<noteq> ID_DATA" "from_le_bytes h \<noteq> ID_DONE"
    by blast
  then show ?thesis
  proof cases
    case 1
    then have "frame_decode h = recv_abs ?st"
      by (simp add: frame_decode_def Let_def unat_eq_zero)
    moreover have "recv_outcome K contents r c
        ([] @ fst (frame_run (recv_abs ?st) (drop pos d)), snd (frame_run (recv_abs ?st) (drop pos d)))
        (receive_loop K W d pos (r\<lparr>fr_state := ?st\<rparr>) w)"
      using go [of "unat ?n"] by (intro recv_outcome_after) (simp_all add: follows_def)
    ultimately show ?thesis
      using 1 by (simp add: parse_frame_header_cases [OF assms(1)])
  next
    case 2
    then show ?thesis
      using c by (simp add: parse_frame_header_cases [OF assms(1)] frame_decode_def Let_def
          recv_outcome_finished)
  next
    case 3
    then show ?thesis
      using c by (simp add: parse_frame_header_cases [OF assms(1)] frame_decode_def Let_def
          recv_outcome_bad)
  qed
qed

lemma follows_Header:
  assumes pos: "pos < length d" and st: "fr_state r = Header" and c: "contents w (fr_file r) = Some c"
    and go: "\<And>n. follows K W contents d (pos + FRAME_HEADER_SIZE) (r\<lparr>fr_state := InData n\<rparr>) c w"
  shows "follows K W contents d pos r c w"
proof (cases "pos + FRAME_HEADER_SIZE \<le> length d")
  case True
  let ?h = "take FRAME_HEADER_SIZE (drop pos d)"
  have h: "length ?h = FRAME_HEADER_SIZE" using True by simp
  then have "?h \<noteq> []" by (auto simp: FRAME_HEADER_SIZE_def)
  with h have "frame_run (InHeader []) (drop pos d)
      = frame_run (frame_decode ?h) (drop (pos + FRAME_HEADER_SIZE) d)"
    using frame_run_header_then [of "[]" ?h "drop (pos + FRAME_HEADER_SIZE) d"]
    by (simp only: take_drop_at) simp
  with header_branch [OF h c go] True pos st show ?thesis
    by (simp add: follows_def receive_loop.simps [of K W d pos r w] slice_get_from)
next
  case False
  let ?rem = "drop pos d"
  let ?st = "PartialHeader (copy_at 0 ?rem (replicate FRAME_HEADER_SIZE 0)) (length ?rem)"
  have short: "length ?rem < FRAME_HEADER_SIZE" using False pos by simp
  then have "recv_outcome K contents r c ([], recv_abs ?st)
      (Inr (FrContinue, r\<lparr>fr_state := ?st\<rparr>, w))"
    using c by (intro recv_outcome_continue) (simp_all add: length_copy_at)
  with False pos st short show ?thesis
    by (simp add: follows_def receive_loop.simps [of K W d pos r w] slice_get_from
        frame_run_header_part copy_at_0)
qed

lemma follows_PartialHeader:
  assumes pos: "pos < length d" and st: "fr_state r = PartialHeader buf n"
    and c: "contents w (fr_file r) = Some c"
    and buf: "length buf = FRAME_HEADER_SIZE" and n: "n < FRAME_HEADER_SIZE"
    and go: "\<And>k. follows K W contents d (pos + (FRAME_HEADER_SIZE - n))
               (r\<lparr>fr_state := InData k\<rparr>) c w"
  shows "follows K W contents d pos r c w"
proof (cases "pos + (FRAME_HEADER_SIZE - n) \<le> length d")
  case True
  let ?need = "FRAME_HEADER_SIZE - n"
  let ?rem = "take ?need (drop pos d)"
  have rem: "length ?rem = ?need" and "?rem \<noteq> []" using True n by auto
  have h: "copy_at n ?rem buf = take n buf @ ?rem"
    using buf n rem by (simp add: copy_at_def)
  have hlen: "length (copy_at n ?rem buf) = FRAME_HEADER_SIZE"
    using buf n rem by (simp add: length_copy_at)
  have "frame_run (InHeader (take n buf)) (drop pos d)
      = frame_run (frame_decode (copy_at n ?rem buf)) (drop (pos + ?need) d)"
    using frame_run_header_then [of "take n buf" ?rem "drop (pos + ?need) d", OF _ \<open>?rem \<noteq> []\<close>]
      buf n rem
    by (simp only: take_drop_at h) simp
  with header_branch [OF hlen c go] True pos st n rem show ?thesis
    by (simp add: follows_def receive_loop.simps [of K W d pos r w] slice_get_from Let_def
        cong: option.case_cong prod.case_cong SyncFrameRequestId.case_cong)
next
  case False
  let ?rem = "drop pos d"
  let ?st = "PartialHeader (copy_at n ?rem buf) (n + length ?rem)"
  have short: "n + length ?rem < FRAME_HEADER_SIZE" using False pos n by simp
  then have "recv_outcome K contents r c ([], recv_abs ?st)
      (Inr (FrContinue, r\<lparr>fr_state := ?st\<rparr>, w))"
    using buf c by (intro recv_outcome_continue) (simp_all add: length_copy_at)
  moreover have "take (n + length ?rem) (copy_at n ?rem buf) = take n buf @ ?rem"
    using n buf by (intro take_copy_at) simp
  moreover have "min (FRAME_HEADER_SIZE - n) (length d - pos) = length ?rem"
    using False n pos by simp
  ultimately show ?thesis
    using False pos st buf short
    by (auto simp: follows_def receive_loop.simps [of K W d pos r w] slice_get_from
        frame_run_header_part Let_def)
qed

lemma follows_InData:
  assumes pos: "pos < length d" and st: "fr_state r = InData n"
    and c: "contents w (fr_file r) = Some c"
    and go: "\<And>w' c'. contents w' (fr_file r) = Some c' \<Longrightarrow>
       follows K W contents d (pos + min n (length d - pos))
         (r\<lparr>fr_state := (if 0 < n - min n (length d - pos)
                       then InData (n - min n (length d - pos)) else Header)\<rparr>) c' w'"
  shows "follows K W contents d pos r c w"
proof -
  let ?k = "min n (length d - pos)"
  let ?xs = "take ?k (drop pos d)"
  let ?st = "if 0 < n - ?k then InData (n - ?k) else Header"
  have run: "frame_run (recv_abs (InData n)) (drop pos d)
      = (?xs @ fst (frame_run (recv_abs ?st) (drop (pos + ?k) d)),
         snd (frame_run (recv_abs ?st) (drop (pos + ?k) d)))"
  proof (cases "n = 0")
    case False
    have "frame_run (InBody n) ?xs = (?xs, recv_abs ?st)"
      using False pos by (subst frame_run_body) auto
    then have "frame_run (InBody n) (?xs @ drop (pos + ?k) d)
        = (?xs @ fst (frame_run (recv_abs ?st) (drop (pos + ?k) d)),
           snd (frame_run (recv_abs ?st) (drop (pos + ?k) d)))"
      by (simp add: frame_run_append split: prod.splits)
    with False show ?thesis
      by (simp only: take_drop_at) simp
  qed simp
  show ?thesis
  proof (cases "k_write_all K (fr_file r) ?xs w")
    case (Pair res w')
    show ?thesis
    proof (cases res)
      case (Inl e)
      with Pair recv_outcome_write_error [of K r ?xs w e w'] pos st show ?thesis
        by (simp add: follows_def receive_loop.simps [of K W d pos r w] write_error_msg_def Let_def)
    next
      case (Inr u)
      have "contents w' (fr_file r) = Some (c @ ?xs)"
        using Pair Inr by (intro write_all_ok [OF c, of ?xs u w']) simp
      from go [OF this] have "recv_outcome K contents r c (frame_run (recv_abs (InData n)) (drop pos d))
          (receive_loop K W d (pos + ?k) (r\<lparr>fr_state := ?st\<rparr>) w')"
        unfolding run by (intro recv_outcome_after) (simp_all add: follows_def)
      with Pair Inr pos st show ?thesis
        by (simp add: follows_def receive_loop.simps [of K W d pos r w] Let_def)
    qed
  qed
qed

lemma receive_follows:
  "recv_ok (fr_state r) \<Longrightarrow> contents w (fr_file r) = Some c \<Longrightarrow> follows K W contents d pos r c w"
proof (induction "3 * (length d - pos) + recv_rank (fr_state r)" arbitrary: pos r c w
    rule: less_induct)
  case (less pos r c w)
  note c = less.prems(2)
  note IH = less.hyps
  show ?case
  proof (cases "pos < length d")
    case False
    have "recv_outcome K contents r c ([], recv_abs (fr_state r))
        (Inr (FrContinue, r\<lparr>fr_state := fr_state r\<rparr>, w))"
      using less.prems by (intro recv_outcome_continue) simp_all
    with False show ?thesis
      by (simp add: follows_def receive_loop.simps [of K W d pos r w])
  next
    case pos: True
    show ?thesis
    proof (cases "fr_state r")
      case Header
      show ?thesis
        by (rule follows_Header [OF pos Header c], rule IH)
          (use pos Header c in \<open>auto simp: FRAME_HEADER_SIZE_def\<close>)
    next
      case (PartialHeader buf n)
      with less.prems have buf: "length buf = FRAME_HEADER_SIZE" "n < FRAME_HEADER_SIZE"
        by simp_all
      show ?thesis
        by (rule follows_PartialHeader [OF pos PartialHeader c buf], rule IH)
          (use pos PartialHeader buf c in auto)
    next
      case (InData n)
      show ?thesis
        by (rule follows_InData [OF pos InData c], rule IH)
          (use pos InData in \<open>auto simp: min_def\<close>)
    qed
  qed
qed

lemma receive_all_outcome:
  "recv_ok (fr_state r) \<Longrightarrow> contents w (fr_file r) = Some c \<Longrightarrow>
     recv_outcome K contents r c (frame_run (recv_abs (fr_state r)) (concat ps))
       (receive_all K W r ps w)"
proof (induction ps arbitrary: r c w)
  case Nil
  then have "recv_outcome K contents r c ([], recv_abs (fr_state r))
      (Inr (FrContinue, r\<lparr>fr_state := fr_state r\<rparr>, w))"
    by (intro recv_outcome_continue) simp_all
  then show ?case by simp
next
  case (Cons p ps)
  obtain out s where run: "frame_run (recv_abs (fr_state r)) p = (out, s)"
    by (cases "frame_run (recv_abs (fr_state r)) p")
  have "recv_outcome K contents r c (out, s) (receive K W r p w)"
    using receive_follows [OF Cons.prems, of p 0] run by (simp add: follows_def receive_def)
  moreover have "frame_run (recv_abs (fr_state r)) (concat (p # ps))
      = (out @ fst (frame_run s (concat ps)), snd (frame_run s (concat ps)))"
    by (simp add: frame_run_append run split: prod.splits)
  moreover have "recv_outcome K contents (r\<lparr>fr_state := st\<rparr>) (c @ out) (frame_run s (concat ps))
      (receive_all K W (r\<lparr>fr_state := st\<rparr>) ps w1)"
    if "recv_ok st" "recv_abs st = s" "contents w1 (fr_file r) = Some (c @ out)" for st w1
    using Cons.IH [of "r\<lparr>fr_state := st\<rparr>" w1 "c @ out"] that by simp
  ultimately show ?case
    using recv_outcome_then [of K contents r c out s "receive K W r p w" "concat ps"
        "\<lambda>r w. receive_all K W r ps w"] by simp
qed

end

end
