(* ===== verification/Ref_Os.thy ===== *)
theory Ref_Os
  imports Sync_Transfer
begin

text \<open>
  A small operating system that keeps the documented behaviour of theory \<open>Os\<close>: files with data,
  permissions and a modification time, a directory, a descriptor table with offsets, a bound on
  what one read or write transfers and a bound on the space left. It shows that the laws of the
  three system locales hold together, and it is the system on which concrete runs are evaluated.
\<close>

record ref_file =
  rf_data :: bytes
  rf_perm :: u32
  rf_mtime :: u64

record ref_world =
  rw_dir :: "path \<Rightarrow> nat option"
  rw_inodes :: "nat \<Rightarrow> ref_file"
  rw_next_ino :: nat
  rw_fds :: "fd \<Rightarrow> (nat \<times> nat) option"
  rw_next_fd :: fd
  rw_chunk :: nat
  rw_space :: nat
  rw_children :: "bytes list list"

definition ENOENT :: io_error where "ENOENT = bytes_of ''No such file or directory (os error 2)''"
definition EBADF :: io_error where "EBADF = bytes_of ''Bad file descriptor (os error 9)''"
definition EMFILE :: io_error where "EMFILE = bytes_of ''Too many open files (os error 24)''"
definition ENOSPC :: io_error where "ENOSPC = bytes_of ''No space left on device (os error 28)''"

definition empty_file :: ref_file where
  "empty_file = \<lparr>rf_data = [], rf_perm = 420, rf_mtime = 0\<rparr>"

definition ref_fresh_fd :: "nat \<Rightarrow> (ref_world, fd) io" where
  "ref_fresh_fd ino w =
     (let f = rw_next_fd w in
      if rw_fds w f \<noteq> None then (Inl EMFILE, w)
      else (Inr f, w\<lparr>rw_fds := (rw_fds w)(f \<mapsto> (ino, 0)), rw_next_fd := f + 1\<rparr>))"

definition ref_new_inode :: "bytes \<Rightarrow> ref_world \<Rightarrow> ref_world" where
  "ref_new_inode d w =
     w\<lparr>rw_inodes := (rw_inodes w)(rw_next_ino w := empty_file\<lparr>rf_data := d\<rparr>),
       rw_next_ino := rw_next_ino w + 1\<rparr>"

text \<open>A descriptor of a fresh anonymous object: a socket, a pseudo-terminal.\<close>

definition ref_anonymous :: "(ref_world, fd) io" where
  "ref_anonymous w = ref_fresh_fd (rw_next_ino w) (ref_new_inode [] w)"

definition ref_read_file :: "path \<Rightarrow> (ref_world, bytes) io" where
  "ref_read_file p w =
     (case rw_dir w p of None \<Rightarrow> (Inl ENOENT, w) | Some i \<Rightarrow> (Inr (rf_data (rw_inodes w i)), w))"

definition ref_write_file :: "path \<Rightarrow> bytes \<Rightarrow> (ref_world, unit) io" where
  "ref_write_file p d w =
     (Inr (), (ref_new_inode d w)\<lparr>rw_dir := (rw_dir w)(p \<mapsto> rw_next_ino w)\<rparr>)"

definition ref_open :: "path \<Rightarrow> (ref_world, fd) io" where
  "ref_open p w = (case rw_dir w p of None \<Rightarrow> (Inl ENOENT, w) | Some i \<Rightarrow> ref_fresh_fd i w)"

definition ref_create :: "path \<Rightarrow> (ref_world, fd) io" where
  "ref_create p w =
     (case rw_dir w p of
       Some i \<Rightarrow>
         ref_fresh_fd i (w\<lparr>rw_inodes := (rw_inodes w)(i := (rw_inodes w i)\<lparr>rf_data := []\<rparr>)\<rparr>)
     | None \<Rightarrow>
         ref_fresh_fd (rw_next_ino w)
           ((ref_new_inode [] w)\<lparr>rw_dir := (rw_dir w)(p \<mapsto> rw_next_ino w)\<rparr>))"

definition ref_read :: "fd \<Rightarrow> nat \<Rightarrow> (ref_world, bytes) io" where
  "ref_read f n w =
     (case rw_fds w f of
       None \<Rightarrow> (Inl EBADF, w)
     | Some (i, off) \<Rightarrow>
         let xs = take (min n (Suc (rw_chunk w))) (drop off (rf_data (rw_inodes w i))) in
         (Inr xs, w\<lparr>rw_fds := (rw_fds w)(f \<mapsto> (i, off + length xs))\<rparr>))"

definition ref_put :: "fd \<Rightarrow> bytes \<Rightarrow> ref_world \<Rightarrow> ref_world" where
  "ref_put f xs w =
     (case rw_fds w f of
       None \<Rightarrow> w
     | Some (i, off) \<Rightarrow>
         w\<lparr>rw_inodes := (rw_inodes w)(i := (rw_inodes w i)
             \<lparr>rf_data := copy_at off xs (rf_data (rw_inodes w i))\<rparr>),
           rw_fds := (rw_fds w)(f \<mapsto> (i, off + length xs)),
           rw_space := rw_space w - length xs\<rparr>)"

definition ref_write_all :: "fd \<Rightarrow> bytes \<Rightarrow> (ref_world, unit) io" where
  "ref_write_all f xs w =
     (if rw_fds w f = None then (Inl EBADF, w)
      else if rw_space w < length xs then (Inl ENOSPC, w)
      else (Inr (), ref_put f xs w))"

definition ref_write :: "fd \<Rightarrow> bytes \<Rightarrow> (ref_world, nat) io" where
  "ref_write f xs w =
     (let n = min (Suc (rw_chunk w)) (length xs) in
      if rw_fds w f = None then (Inl EBADF, w)
      else if rw_space w < n then (Inl ENOSPC, w)
      else (Inr n, ref_put f (take n xs) w))"

definition ref_fd_update :: "(ref_file \<Rightarrow> ref_file) \<Rightarrow> fd \<Rightarrow> (ref_world, unit) io" where
  "ref_fd_update g f w =
     (case rw_fds w f of
       None \<Rightarrow> (Inl EBADF, w)
     | Some (i, off) \<Rightarrow> (Inr (), w\<lparr>rw_inodes := (rw_inodes w)(i := g (rw_inodes w i))\<rparr>))"

definition ref_metadata :: "path \<Rightarrow> (ref_world, metadata) io" where
  "ref_metadata p w =
     (case rw_dir w p of
       None \<Rightarrow> (Inl ENOENT, w)
     | Some i \<Rightarrow>
         let f = rw_inodes w i in
         (Inr \<lparr>md_mode = 32768 + rf_perm f, md_size = of_nat (length (rf_data f)),
               md_mtime = uint (rf_mtime f)\<rparr>, w))"

definition ref_unlink :: "path \<Rightarrow> (ref_world, unit) io" where
  "ref_unlink p w =
     (if rw_dir w p = None then (Inl ENOENT, w) else (Inr (), w\<lparr>rw_dir := (rw_dir w)(p := None)\<rparr>))"

definition ref_close :: "fd \<Rightarrow> ref_world \<Rightarrow> ref_world" where
  "ref_close f w = w\<lparr>rw_fds := (rw_fds w)(f := None)\<rparr>"

definition ref_spawn :: "bytes \<Rightarrow> bytes list \<Rightarrow> (fd \<times> fd \<times> fd) option \<Rightarrow> (ref_world, pid) io" where
  "ref_spawn prog args stdio w =
     (Inr (int (length (rw_children w)) + 1), w\<lparr>rw_children := rw_children w @ [prog # args]\<rparr>)"

definition ref_link :: "path \<Rightarrow> path \<Rightarrow> (ref_world, unit) io" where
  "ref_link target link w =
     (case rw_dir w link of
       Some _ \<Rightarrow> (Inl (bytes_of ''File exists (os error 17)''), w)
     | None \<Rightarrow>
         (Inr (), (ref_new_inode target w)\<lparr>rw_dir := (rw_dir w)(link \<mapsto> rw_next_ino w)\<rparr>))"

definition ref_kernel :: "ref_world kernel" where
  "ref_kernel = \<lparr>
     k_read_file = ref_read_file,
     k_write_file = ref_write_file,
     k_create_dir_all = (\<lambda>p w. (Inr (), w)),
     k_exists = (\<lambda>p w. (Inr (rw_dir w p \<noteq> None), w)),
     k_symlink = ref_link,
     k_read_dir = (\<lambda>p w. (Inr [], w)),
     k_symlink_metadata = ref_metadata,
     k_open = ref_open,
     k_create = ref_create,
     k_read = ref_read,
     k_write = ref_write,
     k_write_all = ref_write_all,
     k_set_permissions = (\<lambda>f m. ref_fd_update (\<lambda>x. x\<lparr>rf_perm := m\<rparr>) f),
     k_set_mtime = (\<lambda>f t. ref_fd_update (\<lambda>x. x\<lparr>rf_mtime := t\<rparr>) f),
     k_remove_file = ref_unlink,
     k_close = ref_close,
     k_tcp_connect = (\<lambda>port. ref_anonymous),
     k_connect_abstract = (\<lambda>name. ref_anonymous),
     k_connect_path = (\<lambda>p. ref_anonymous),
     k_shutdown_write = (\<lambda>f w. (Inr (), w)),
     k_openpt = ref_anonymous,
     k_grantpt = (\<lambda>f w. (Inr (), w)),
     k_unlockpt = (\<lambda>f w. (Inr (), w)),
     k_tiocgptpeer = (\<lambda>f. ref_anonymous),
     k_dup = (\<lambda>f w. (case rw_fds w f of None \<Rightarrow> (Inl EBADF, w) | Some (i, _) \<Rightarrow> ref_fresh_fd i w)),
     k_spawn = ref_spawn,
     k_kill = (\<lambda>p w. (Inr (), w)),
     k_wait = (\<lambda>p w. (Inr (), w))\<rparr>"

lemma ref_kernel_simps [simp]:
  "k_read_file ref_kernel = ref_read_file"
  "k_write_file ref_kernel = ref_write_file"
  "k_symlink_metadata ref_kernel = ref_metadata"
  "k_open ref_kernel = ref_open"
  "k_create ref_kernel = ref_create"
  "k_read ref_kernel = ref_read"
  "k_write ref_kernel = ref_write"
  "k_write_all ref_kernel = ref_write_all"
  "k_set_permissions ref_kernel f m = ref_fd_update (\<lambda>x. x\<lparr>rf_perm := m\<rparr>) f"
  "k_set_mtime ref_kernel f t = ref_fd_update (\<lambda>x. x\<lparr>rf_mtime := t\<rparr>) f"
  "k_remove_file ref_kernel = ref_unlink"
  "k_close ref_kernel = ref_close"
  "k_tcp_connect ref_kernel port = ref_anonymous"
  "k_connect_abstract ref_kernel name = ref_anonymous"
  "k_connect_path ref_kernel name = ref_anonymous"
  "k_shutdown_write ref_kernel f w = (Inr (), w)"
  "k_openpt ref_kernel = ref_anonymous"
  "k_grantpt ref_kernel f w = (Inr (), w)"
  "k_unlockpt ref_kernel f w = (Inr (), w)"
  "k_tiocgptpeer ref_kernel f = ref_anonymous"
  "k_dup ref_kernel f w =
     (case rw_fds w f of None \<Rightarrow> (Inl EBADF, w) | Some (i, _) \<Rightarrow> ref_fresh_fd i w)"
  "k_spawn ref_kernel = ref_spawn"
  "k_kill ref_kernel pr w = (Inr (), w)"
  "k_wait ref_kernel pr w = (Inr (), w)"
  by (simp_all add: ref_kernel_def)

section \<open>The views of the locales\<close>

definition ref_contents :: "ref_world \<Rightarrow> fd \<Rightarrow> bytes option" where
  "ref_contents w f =
     (case rw_fds w f of
       None \<Rightarrow> None
     | Some (i, off) \<Rightarrow>
         let d = rf_data (rw_inodes w i) in if off = length d then Some d else None)"

definition ref_perm :: "ref_world \<Rightarrow> fd \<Rightarrow> u32" where
  "ref_perm w f = (case rw_fds w f of None \<Rightarrow> 0 | Some (i, _) \<Rightarrow> rf_perm (rw_inodes w i))"

definition ref_mtime :: "ref_world \<Rightarrow> fd \<Rightarrow> u64" where
  "ref_mtime w f = (case rw_fds w f of None \<Rightarrow> 0 | Some (i, _) \<Rightarrow> rf_mtime (rw_inodes w i))"

definition ref_unread :: "ref_world \<Rightarrow> fd \<Rightarrow> bytes option" where
  "ref_unread w f =
     map_option (\<lambda>(i, off). drop off (rf_data (rw_inodes w i))) (rw_fds w f)"

lemma ref_fresh_fd_Inr_iff:
  "ref_fresh_fd i w = (Inr f, w') \<longleftrightarrow>
     f = rw_next_fd w \<and> rw_fds w f = None
     \<and> w' = w\<lparr>rw_fds := (rw_fds w)(f \<mapsto> (i, 0)), rw_next_fd := f + 1\<rparr>"
  by (cases "rw_fds w (rw_next_fd w)") (auto simp: ref_fresh_fd_def Let_def)

lemma ref_fresh_fd_Inl: "ref_fresh_fd i w = (Inl e, w') \<Longrightarrow> w' = w"
  by (auto simp: ref_fresh_fd_def Let_def split: if_splits)

interpretation ref_writer: file_writer ref_kernel ref_contents ref_perm ref_mtime
  by unfold_locales
    (auto simp: ref_contents_def ref_perm_def ref_mtime_def ref_create_def ref_fresh_fd_Inr_iff
      ref_new_inode_def empty_file_def ref_write_all_def ref_put_def ref_fd_update_def copy_at_def
      Let_def split: option.splits prod.splits if_splits)

lemma ref_read_Inr:
  assumes "ref_unread w f = Some u" and "ref_read f n w = (Inr xs, w')"
  shows "xs = take (min n (Suc (rw_chunk w))) u" and "ref_unread w' f = Some (drop (length xs) u)"
  using assms by (auto simp: ref_unread_def ref_read_def Let_def add.commute)

interpretation ref_reader: file_reader ref_kernel ref_unread
proof
  fix w w' :: ref_world and f n u xs
  assume "ref_unread w f = Some u" and "k_read ref_kernel f n w = (Inr xs, w')"
  then have xs: "xs = take (min n (Suc (rw_chunk w))) u"
    and v: "ref_unread w' f = Some (drop (length xs) u)"
    using ref_read_Inr [of w f u n xs w'] by simp_all
  then have "u = xs @ drop (length xs) u"
    by (metis append_eq_conv_conj append_take_drop_id)
  with xs v show "length xs \<le> n \<and> (\<exists>v. u = xs @ v \<and> ref_unread w' f = Some v)"
    by auto
next
  fix w w' :: ref_world and f n u
  assume "ref_unread w f = Some u" and "k_read ref_kernel f n w = (Inr [], w')" and "0 < n"
  then show "u = []"
    using ref_read_Inr(1) [of w f u n "[]" w'] by (auto simp: min_def split: if_splits)
qed

lemma ref_fresh_after:
  assumes "\<And>w. call w = ref_fresh_fd (i w) (g w)" and "\<And>w. rw_fds (g w) = rw_fds w"
  shows "fresh_fd (\<lambda>w. dom (rw_fds w)) call"
  using assms by (auto simp: fresh_fd_def ref_fresh_fd_def Let_def)

interpretation ref_fds: fd_table ref_kernel "\<lambda>w. dom (rw_fds w)"
proof
  have anon: "fresh_fd (\<lambda>w. dom (rw_fds w)) ref_anonymous"
    by (rule ref_fresh_after [of _ rw_next_ino "ref_new_inode []"])
      (simp_all add: ref_anonymous_def ref_new_inode_def)
  then show "fresh_fd (\<lambda>w. dom (rw_fds w)) (k_tcp_connect ref_kernel port)"
    and "fresh_fd (\<lambda>w. dom (rw_fds w)) (k_connect_abstract ref_kernel nm)"
    and "fresh_fd (\<lambda>w. dom (rw_fds w)) (k_connect_path ref_kernel nm)"
    and "fresh_fd (\<lambda>w. dom (rw_fds w)) (k_openpt ref_kernel)"
    and "fresh_fd (\<lambda>w. dom (rw_fds w)) (k_tiocgptpeer ref_kernel f)" for port nm f
    by simp_all
qed (auto simp: fresh_fd_def keeps_fds_def ref_kernel_def ref_open_def ref_create_def
    ref_fresh_fd_def ref_new_inode_def ref_read_def ref_write_def ref_write_all_def ref_put_def
    ref_fd_update_def ref_unlink_def ref_metadata_def ref_spawn_def ref_close_def Let_def
    split: option.splits prod.splits if_splits)

interpretation ref_push: push_env winnow_ref ref_kernel ref_contents ref_perm ref_mtime
  by unfold_locales

section \<open>A concrete system\<close>

text \<open>An empty system whose reads and writes move at most \<open>Suc c\<close> bytes, with \<open>n\<close> bytes of
  space; and the same with one file.\<close>

definition ref_boot :: "nat \<Rightarrow> nat \<Rightarrow> ref_world" where
  "ref_boot c n = \<lparr>
     rw_dir = (\<lambda>_. None), rw_inodes = (\<lambda>_. empty_file), rw_next_ino = 0,
     rw_fds = (\<lambda>_. None), rw_next_fd = 6, rw_chunk = c, rw_space = n, rw_children = []\<rparr>"

definition ref_with_file :: "path \<Rightarrow> bytes \<Rightarrow> ref_world \<Rightarrow> ref_world" where
  "ref_with_file p d w = snd (ref_write_file p d w)"

lemmas ref_run = ref_boot_def ref_with_file_def ref_write_file_def ref_new_inode_def empty_file_def
  ref_create_def ref_open_def ref_fresh_fd_def ref_read_def ref_write_all_def ref_write_def
  ref_put_def ref_fd_update_def ref_close_def ref_unlink_def ref_anonymous_def ref_spawn_def
  ref_metadata_def ref_read_file_def copy_at_def ref_contents_def ref_perm_def ref_mtime_def
  ref_unread_def

end
