(* ===== verification/Sync_Session.thy ===== *)
theory Sync_Session
  imports Ref_Os
begin

text \<open>
  Whole transfers. A push is the stream of frames a host sends, cut into WRTE payloads at any
  place; a pull is the sequence of frames the daemon sends, one after each OKAY of the host. Both
  directions are measured against the same frame machine: a pushed file is what the machine reads
  from the host's stream, and the machine reads a pulled file back from the daemon's.
\<close>

section \<open>The host's side of a push\<close>

definition data_frame :: "bytes \<Rightarrow> bytes" where
  "data_frame d = le32 ID_DATA @ le32 (of_nat (length d)) @ d"

definition done_frame :: "u32 \<Rightarrow> bytes" where
  "done_frame t = le32 ID_DONE @ le32 t"

definition push_stream :: "bytes list \<Rightarrow> u32 \<Rightarrow> bytes" where
  "push_stream ds t = concat (map data_frame ds) @ done_frame t"

lemma ids_distinct [simp]: "ID_DONE \<noteq> ID_DATA" "ID_DATA \<noteq> ID_DONE"
  by (simp_all add: sync_ids)

lemma drop_le32 [simp]: "drop 4 (le32 i @ r) = r"
  by simp

lemma frame_run_le32_header:
  "frame_run (InHeader []) (le32 i @ le32 n @ r) = frame_run (frame_decode (le32 i @ le32 n)) r"
  using frame_run_header_then [of "[]" "le32 i @ le32 n" r]
  by (auto simp: FRAME_HEADER_SIZE_def le32_def)

lemma frame_run_data_frame:
  assumes "length d < 2 ^ 32"
  shows "frame_run (InHeader []) (data_frame d @ r) =
    (d @ fst (frame_run (InHeader []) r), snd (frame_run (InHeader []) r))"
proof (cases "d = []")
  case True
  then show ?thesis
    by (simp add: data_frame_def frame_run_le32_header frame_decode_def)
next
  case False
  have "(of_nat (length d) :: u32) \<noteq> 0"
    using False assms by (metis length_0_conv unat_0 unat_of_nat_u32)
  then have "frame_decode (le32 ID_DATA @ le32 (of_nat (length d))) = InBody (length d)"
    using assms by (simp add: frame_decode_def Let_def)
  moreover have "frame_run (InBody (length d)) (d @ r) =
      (d @ fst (frame_run (InHeader []) r), snd (frame_run (InHeader []) r))"
    using False by (simp add: frame_run_append frame_run_body split: prod.splits)
  ultimately show ?thesis
    by (simp add: data_frame_def frame_run_le32_header)
qed

lemma frame_run_done_frame:
  "frame_run (InHeader []) (done_frame t @ r) = ([], Finished t)"
  by (simp add: done_frame_def frame_run_le32_header frame_decode_def)

lemma frame_run_push_stream:
  "\<forall>d \<in> set ds. length d < 2 ^ 32 \<Longrightarrow>
     frame_run (InHeader []) (push_stream ds t @ r) = (concat ds, Finished t)"
  unfolding push_stream_def
  by (induction ds) (simp_all add: frame_run_done_frame frame_run_data_frame)

section \<open>What a push leaves behind\<close>

text \<open>A finished push: the answer is OKAY and the file holds the pushed bytes with the requested
  permissions; its time is the one of the DONE frame unless the system refused to set it.\<close>

definition push_done ::
  "'w kernel \<Rightarrow> ('w \<Rightarrow> fd \<Rightarrow> bytes option) \<Rightarrow> ('w \<Rightarrow> fd \<Rightarrow> u32) \<Rightarrow> ('w \<Rightarrow> fd \<Rightarrow> u64)
     \<Rightarrow> FileReceiver \<Rightarrow> bytes \<Rightarrow> u32 \<Rightarrow> (SyncResponse FileReceiverResult \<times> FileReceiver \<times> 'w) rust \<Rightarrow> bool"
where
  "push_done K contents perm mtime r c t res \<longleftrightarrow>
     (\<exists>r' w'. res = Inr (FrDone okay_response, r', w')
        \<and> contents w' (fr_file r) = Some c \<and> perm w' (fr_file r) = fr_mode r
        \<and> (mtime w' (fr_file r) = ucast t
           \<or> (\<exists>w1 e. k_set_mtime K (fr_file r) (ucast t) w1 = (Inl e, w'))))"

text \<open>A failed push: the system refused a write or the permissions, the file was removed and the
  answer is a FAIL with a message (which must be shorter than 4 GiB).\<close>

definition push_failed ::
  "'w kernel \<Rightarrow> FileReceiver \<Rightarrow> (SyncResponse FileReceiverResult \<times> FileReceiver \<times> 'w) rust \<Rightarrow> bool"
where
  "push_failed K r res \<longleftrightarrow>
     (\<exists>e w2 msg r'.
        ((\<exists>xs w1. k_write_all K (fr_file r) xs w1 = (Inl e, w2))
         \<or> (\<exists>w1. k_set_permissions K (fr_file r) (fr_mode r) w1 = (Inl e, w2)))
        \<and> res = rbind (fail_response msg) (\<lambda>resp. Inr (FrDone resp, r', abort K r w2)))"

context push_env
begin

lemma finalize_result:
  assumes "contents w (fr_file r) = Some c"
  shows "push_done K contents perm mtime r c t (finalize K (r\<lparr>fr_state := st\<rparr>) t w)
    \<or> push_failed K r (finalize K (r\<lparr>fr_state := st\<rparr>) t w)"
proof (cases "k_set_permissions K (fr_file r) (fr_mode r) w")
  case (Pair p w1)
  show ?thesis
  proof (cases p)
    case (Inl e)
    with Pair have "finalize K (r\<lparr>fr_state := st\<rparr>) t w =
        rbind (fail_response
                 (bytes_of ''cannot set permissions on '' @ lossy (fr_path r) @ bytes_of '': '' @ e))
          (\<lambda>resp. Inr (FrDone resp, r\<lparr>fr_state := st\<rparr>, abort K r w1))"
      by (simp add: finalize_def)
    with Pair Inl show ?thesis unfolding push_failed_def by blast
  next
    case (Inr u)
    from Pair Inr have p1: "perm w1 (fr_file r) = fr_mode r" "contents w1 (fr_file r) = Some c"
      using set_permissions_ok [OF assms] by auto
    obtain q w2 where st: "k_set_mtime K (fr_file r) (ucast t) w1 = (q, w2)"
      by (cases "k_set_mtime K (fr_file r) (ucast t) w1")
    have "mtime w2 (fr_file r) = ucast t \<or> (\<exists>w1 e. k_set_mtime K (fr_file r) (ucast t) w1 = (Inl e, w2))"
      using st set_mtime_ok [OF p1(2)] by (cases q) auto
    with Pair Inr st p1 set_mtime_frame [OF p1(2) st] show ?thesis
      by (auto simp: push_done_def finalize_def)
  qed
qed

lemma push_result:
  assumes fresh: "fr_state r = Header" "contents w (fr_file r) = Some []"
    and ds: "\<forall>d \<in> set ds. length d < 2 ^ 32"
    and ps: "concat ps = push_stream ds t @ rest"
  shows "push_done K contents perm mtime r (concat ds) t (receive_all K W r ps w)
    \<or> push_failed K r (receive_all K W r ps w)"
proof -
  have "recv_outcome K contents r [] (concat ds, Finished t) (receive_all K W r ps w)"
    using receive_all_outcome [of r w "[]" ps] fresh frame_run_push_stream [OF ds, of t rest]
    by (simp add: ps)
  then show ?thesis
  proof (cases rule: recv_outcome_cases)
    case (write_error xs w1 w2 e st)
    then show ?thesis unfolding push_failed_def by blast
  next
    case (finished w1 st t')
    with finalize_result [of w1 r "concat ds" t st] show ?thesis by simp
  next
    case (live w1 st)
    then show ?thesis by (cases st) (simp_all split: if_splits)
  qed simp
qed

end

section \<open>A pull\<close>

text \<open>The frames of a pull: \<open>next_frame\<close> is called again after each OKAY of the host, until it
  has nothing more. The first argument bounds the number of calls.\<close>

fun pull :: "nat \<Rightarrow> 'w kernel \<Rightarrow> FileSender \<Rightarrow> 'w \<Rightarrow> (SyncResponse list \<times> FileSender \<times> 'w) rust" where
  "pull 0 K s w = Inr ([], s, w)"
| "pull (Suc n) K s w =
     rbind (next_frame K s w) (\<lambda>(frame, s', w').
       case frame of
         None \<Rightarrow> Inr ([], s', w')
       | Some resp \<Rightarrow>
           rbind (pull n K s' w') (\<lambda>(frames, s2, w2). Inr (resp # frames, s2, w2)))"

definition data_answer :: "bytes \<Rightarrow> SyncResponse" where
  "data_answer d = (\<lparr>rsp_id = RspData, rsp_len = of_nat (length d)\<rparr>, d)"

definition frame_wire :: "SyncResponse \<Rightarrow> bytes" where
  "frame_wire resp = as_le_bytes_response (fst resp) @ snd resp"

definition chunk_ok :: "bytes \<Rightarrow> bool" where
  "chunk_ok d \<longleftrightarrow> d \<noteq> [] \<and> length d \<le> PAYLOAD_SIZE_MAX_BYTES"

lemma data_response_chunk: "chunk_ok d \<Longrightarrow> data_response d = Inr (data_answer d)"
  by (simp add: chunk_ok_def data_response_def data_answer_def PAYLOAD_SIZE_MAX_BYTES_def)

lemma pull_done: "fs_done s \<Longrightarrow> pull n K s w = Inr ([], s, w)"
  by (cases n) (simp_all add: next_frame_def)

text \<open>How a pull of \<open>u\<close> ends: all of \<open>u\<close> went out as DATA frames of at most 64 KiB and a DONE
  closed it, or a read failed and a FAIL follows the DATA frames of what was read before.\<close>

definition pull_complete ::
  "bytes \<Rightarrow> (SyncResponse list \<times> FileSender \<times> 'w) rust \<Rightarrow> bool" where
  "pull_complete u res \<longleftrightarrow>
     (\<exists>ds s' w'. res = Inr (map data_answer ds @ [done_response], s', w')
        \<and> list_all chunk_ok ds \<and> concat ds = u \<and> fs_done s')"

definition pull_broken ::
  "'w kernel \<Rightarrow> fd \<Rightarrow> bytes \<Rightarrow> (SyncResponse list \<times> FileSender \<times> 'w) rust \<Rightarrow> bool" where
  "pull_broken K f u res \<longleftrightarrow>
     (\<exists>ds rest e w1 w2 s'. k_read K f PAYLOAD_SIZE_MAX_BYTES w1 = (Inl e, w2)
        \<and> res = rbind (fail_response (bytes_of ''read error: '' @ e))
                  (\<lambda>resp. Inr (map data_answer ds @ [resp], s', w2))
        \<and> list_all chunk_ok ds \<and> concat ds @ rest = u \<and> fs_done s')"

lemma pull_complete_Cons:
  assumes "pull_complete v res" and "chunk_ok d"
  shows "pull_complete (d @ v) (rbind res (\<lambda>(frames, s2, w2). Inr (data_answer d # frames, s2, w2)))"
proof -
  obtain ds s' w' where "res = Inr (map data_answer ds @ [done_response], s', w')"
    "list_all chunk_ok ds" "concat ds = v" "fs_done s'"
    using assms(1) unfolding pull_complete_def by blast
  with assms(2) show ?thesis
    unfolding pull_complete_def by (intro exI [of _ "d # ds"] exI [of _ s'] exI [of _ w']) simp
qed

lemma pull_broken_Cons:
  assumes "pull_broken K f v res" and "chunk_ok d"
  shows "pull_broken K f (d @ v)
    (rbind res (\<lambda>(frames, s2, w2). Inr (data_answer d # frames, s2, w2)))"
proof -
  obtain ds rest e w1 w2 s' where "k_read K f PAYLOAD_SIZE_MAX_BYTES w1 = (Inl e, w2)"
    "res = rbind (fail_response (bytes_of ''read error: '' @ e))
             (\<lambda>resp. Inr (map data_answer ds @ [resp], s', w2))"
    "list_all chunk_ok ds" "concat ds @ rest = v" "fs_done s'"
    using assms(1) unfolding pull_broken_def by blast
  with assms(2) show ?thesis
    unfolding pull_broken_def
    by (intro exI [of _ "d # ds"] exI [of _ rest] exI [of _ e] exI [of _ w1] exI [of _ w2]
        exI [of _ s']) (auto simp: rbind_assoc)
qed

context file_reader
begin

lemma pull_result:
  assumes "unread w (fs_file s) = Some u" and "\<not> fs_done s" and "length u < n"
  shows "pull_complete u (pull n K s w) \<or> pull_broken K (fs_file s) u (pull n K s w)"
  using assms
proof (induction n arbitrary: u w)
  case (Suc n)
  obtain p w1 where rd: "k_read K (fs_file s) PAYLOAD_SIZE_MAX_BYTES w = (p, w1)"
    by (cases "k_read K (fs_file s) PAYLOAD_SIZE_MAX_BYTES w")
  have max: "0 < PAYLOAD_SIZE_MAX_BYTES" by (simp add: PAYLOAD_SIZE_MAX_BYTES_def)
  show ?case
  proof (cases p)
    case (Inl e)
    have "pull_broken K (fs_file s) u (pull (Suc n) K s w)"
      unfolding pull_broken_def
      by (rule exI [of _ "[]"], rule exI [of _ u], rule exI [of _ e], rule exI [of _ w],
          rule exI [of _ w1], rule exI [of _ "s\<lparr>fs_done := True\<rparr>"])
        (use Suc.prems rd Inl in \<open>simp add: next_frame_def pull_done rbind_assoc\<close>)
    then show ?thesis ..
  next
    case (Inr xs)
    note rd' = rd [unfolded Inr]
    show ?thesis
    proof (cases "xs = []")
      case True
      then have "u = []" using read_eof [OF Suc.prems(1)] rd' max by auto
      with Suc.prems rd' True show ?thesis
        by (intro disjI1) (simp add: pull_complete_def next_frame_def pull_done)
    next
      case False
      from read_ok [OF Suc.prems(1) rd'] obtain v where
        len: "length xs \<le> PAYLOAD_SIZE_MAX_BYTES" and u: "u = xs @ v"
        and v: "unread w1 (fs_file s) = Some v" by blast
      have ch: "chunk_ok xs" using False len by (simp add: chunk_ok_def)
      have "length v < n" using Suc.prems(3) u False by (cases xs) auto
      with Suc.IH [OF v Suc.prems(2)]
      have "pull_complete v (pull n K s w1) \<or> pull_broken K (fs_file s) v (pull n K s w1)" .
      moreover have "pull (Suc n) K s w =
          rbind (pull n K s w1) (\<lambda>(frames, s2, w2). Inr (data_answer xs # frames, s2, w2))"
        using Suc.prems(2) rd' False len by (simp add: next_frame_def data_response_chunk [OF ch])
      ultimately show ?thesis
        unfolding u by (metis pull_complete_Cons [OF _ ch] pull_broken_Cons [OF _ ch])
    qed
  qed
qed simp

end

lemma frame_wire_data: "chunk_ok d \<Longrightarrow> frame_wire (data_answer d) = data_frame d"
  by (simp add: frame_wire_def data_answer_def data_frame_def as_le_bytes_response_def)

lemma frames_wire:
  "list_all chunk_ok ds \<Longrightarrow>
     concat (map frame_wire (map data_answer ds @ [done_response])) = push_stream ds 0"
  (is "_ \<Longrightarrow> ?thesis")
proof -
  have "frame_wire done_response = done_frame 0"
    by (simp add: frame_wire_def done_response_def done_frame_def as_le_bytes_response_def)
  then show "list_all chunk_ok ds \<Longrightarrow> ?thesis"
    unfolding push_stream_def by (induction ds) (simp_all add: frame_wire_data)
qed

section \<open>Properties\<close>

text \<open>
  (C8) \<open>FileReceiver::receive\<close> refines the byte-at-a-time frame machine. However the host's bytes are
  cut into WRTE payloads (inside a header, inside a chunk, several frames in one payload), from any
  well-formed receiver state: either a write failed (the file is removed, the answer is FAIL), or
  the file has grown by exactly what the machine puts out for the concatenated payloads and the
  receiver's answer is the one of the machine's state: more data, a finished file, or a FAIL for a
  frame that is neither DATA nor DONE.
\<close>

theorem receive_refines_frames:
  assumes "push_env W K contents perm mtime"
    and "recv_ok (fr_state r)" and "contents w (fr_file r) = Some c"
  shows "recv_outcome K contents r c (frame_run (recv_abs (fr_state r)) (concat ps))
    (receive_all K W r ps w)"
  using push_env.receive_all_outcome [OF assms] .

theorem receive_refines_frames_witness:
  "recv_outcome ref_kernel ref_contents \<lparr>fr_file = 6, fr_path = [97], fr_mode = 420, fr_state = Header\<rparr> []
     (frame_run (InHeader []) ([68, 65] @ [84, 65, 1]))
     (receive_all ref_kernel winnow_ref \<lparr>fr_file = 6, fr_path = [97], fr_mode = 420, fr_state = Header\<rparr>
       [[68, 65], [84, 65, 1]] (snd (ref_create [97] (ref_boot 3 100))))"
  using receive_refines_frames [OF ref_push.push_env_axioms,
      of "\<lparr>fr_file = 6, fr_path = [97], fr_mode = 420, fr_state = Header\<rparr>"
        "snd (ref_create [97] (ref_boot 3 100))" "[]" "[[68, 65], [84, 65, 1]]"]
  by (simp add: ref_run)

text \<open>
  (C10) A push arrives intact. For every list of chunks and every way to cut the stream of their DATA
  frames and the closing DONE into payloads, the receiver answers OKAY and the file holds exactly
  the concatenation of the chunks, with the requested permissions and the DONE frame's time (unless
  the system refused the time); or the system refused a write or the permissions, and then the file
  has been removed and the answer is FAIL. There is no third case.
\<close>

theorem push_arrives:
  assumes "push_env W K contents perm mtime"
    and "fr_state r = Header" and "contents w (fr_file r) = Some []"
    and "\<forall>d \<in> set ds. length d < 2 ^ 32"
    and "concat ps = push_stream ds t"
  shows "push_done K contents perm mtime r (concat ds) t (receive_all K W r ps w)
    \<or> push_failed K r (receive_all K W r ps w)"
  using push_env.push_result [OF assms(1-4), of ps t "[]"] assms(5) by simp

theorem push_arrives_witness:
  "let r = \<lparr>fr_file = 6, fr_path = [97], fr_mode = 420, fr_state = Header\<rparr>;
       res = receive_all ref_kernel winnow_ref r
               [[68, 65, 84], [65, 2, 0, 0, 0, 7], [9, 68, 79, 78, 69, 5, 0, 0], [0]]
               (snd (ref_create [97] (ref_boot 3 100)))
   in push_done ref_kernel ref_contents ref_perm ref_mtime r [7, 9] 5 res
      \<or> push_failed ref_kernel r res"
  using push_arrives [OF ref_push.push_env_axioms,
      of "\<lparr>fr_file = 6, fr_path = [97], fr_mode = 420, fr_state = Header\<rparr>"
        "snd (ref_create [97] (ref_boot 3 100))" "[[7, 9]]"
        "[[68, 65, 84], [65, 2, 0, 0, 0, 7], [9, 68, 79, 78, 69, 5, 0, 0], [0]]" 5]
  by (simp add: ref_run push_stream_def data_frame_def done_frame_def sync_ids le32_def
      drop_bit_eq_div Let_def)

text \<open>
  (C9) A pull delivers the file. However short the system's reads are, calling \<open>next_frame\<close> after
  each OKAY ends after at most one call per byte and two more; the frames are DATA frames of 1 byte
  to 64 KiB that concatenate to the file and a closing DONE, and the frame machine reads them back to exactly
  the file. Only a failing read breaks this: then the frames so far are a prefix of the file and a FAIL ends
  them.
\<close>

theorem pull_delivers:
  assumes "file_reader K unread" and "unread w (fs_file s) = Some u"
    and "\<not> fs_done s" and "length u < n"
  shows "(\<exists>frames s' w'. pull n K s w = Inr (frames, s', w') \<and> fs_done s'
        \<and> frame_run (InHeader []) (concat (map frame_wire frames)) = (u, Finished 0)
        \<and> (\<exists>ds. frames = map data_answer ds @ [done_response] \<and> list_all chunk_ok ds))
    \<or> pull_broken K (fs_file s) u (pull n K s w)"
  using file_reader.pull_result [OF assms]
proof
  assume "pull_complete u (pull n K s w)"
  then obtain ds s' w' where
    res: "pull n K s w = Inr (map data_answer ds @ [done_response], s', w')" "fs_done s'"
    and ds: "list_all chunk_ok ds" "concat ds = u"
    unfolding pull_complete_def by blast
  have small: "\<forall>d \<in> set ds. length d < 2 ^ 32"
    using ds(1) by (auto simp: list_all_iff chunk_ok_def PAYLOAD_SIZE_MAX_BYTES_def dest!: bspec)
  have "frame_run (InHeader []) (concat (map frame_wire (map data_answer ds @ [done_response])))
      = (u, Finished 0)"
    using frame_run_push_stream [OF small, of 0 "[]"] ds by (simp only: frames_wire [OF ds(1)]) simp
  with res ds(1) show ?thesis by blast
qed (rule disjI2)

theorem pull_delivers_witness:
  "let w = snd (ref_open [97] (ref_with_file [97] [1, 2, 3] (ref_boot 1 0)));
       res = pull 4 ref_kernel \<lparr>fs_file = 6, fs_done = False\<rparr> w
   in (\<exists>frames s' w'. res = Inr (frames, s', w') \<and> fs_done s'
        \<and> frame_run (InHeader []) (concat (map frame_wire frames)) = ([1, 2, 3], Finished 0)
        \<and> (\<exists>ds. frames = map data_answer ds @ [done_response] \<and> list_all chunk_ok ds))
    \<or> pull_broken ref_kernel 6 [1, 2, 3] res"
  using pull_delivers [OF ref_reader.file_reader_axioms,
      of "snd (ref_open [97] (ref_with_file [97] [1, 2, 3] (ref_boot 1 0)))"
        "\<lparr>fs_file = 6, fs_done = False\<rparr>" "[1, 2, 3]" 4]
  by (simp add: ref_run Let_def)

end
