(* ===== verification/Sync_Service.thy ===== *)
theory Sync_Service
  imports Sync_Session
begin

text \<open>
  The sync service of a stream (\<open>SyncService\<close>, \<open>src/sync.rs\<close>): its state, the dispatch of a WRTE
  payload and the handlers of the requests. A \<open>File\<close> is closed when its owner is dropped: when the
  state is overwritten, and when a receiver that finished within its first payload goes out of
  scope.
\<close>

section \<open>State\<close>

datatype SyncState = Idle | Sending FileSender | Receiving FileReceiver

record SyncService =
  sync_state :: SyncState

datatype SyncResult = SrStat SyncStat | SrData SyncFrameResponseHeader bytes | SrContinue | SrQuit

definition new_sync :: SyncService where
  "new_sync = \<lparr>sync_state = Idle\<rparr>"

fun drop_sync_state :: "'w kernel \<Rightarrow> SyncState \<Rightarrow> 'w \<Rightarrow> 'w" where
  "drop_sync_state K Idle w = w"
| "drop_sync_state K (Sending s) w = k_close K (fs_file s) w"
| "drop_sync_state K (Receiving r) w = k_close K (fr_file r) w"

definition sr_data :: "SyncResponse \<Rightarrow> SyncResult" where
  "sr_data resp = SrData (fst resp) (snd resp)"

section \<open>Requests\<close>

definition try_u32_i64 :: "int \<Rightarrow> u32 option" where
  "try_u32_i64 t = (if 0 \<le> t \<and> t < 2 ^ 32 then Some (of_int t) else None)"

definition handle_lstat_v1 ::
  "'w kernel \<Rightarrow> SyncService \<Rightarrow> path \<Rightarrow> 'w \<Rightarrow> (SyncResult \<times> SyncService \<times> 'w) rust" where
  "handle_lstat_v1 K svc p w =
     (case k_symlink_metadata K p w of
       (Inr meta, w1) \<Rightarrow>
         rbind (expect ''File too large for 32-bits'' (try_u32 (unat (md_size meta)))) (\<lambda>size.
         rbind (expect ''File modified in 2038 or after'' (try_u32_i64 (md_mtime meta))) (\<lambda>mtime.
         Inr (SrStat \<lparr>st_id = ID_LSTAT_V1, st_mode = md_mode meta, st_size = size, st_mtime = mtime\<rparr>,
              svc, w1)))
     | (Inl _, w1) \<Rightarrow>
         Inr (SrStat \<lparr>st_id = ID_LSTAT_V1, st_mode = 0, st_size = 0, st_mtime = 0\<rparr>, svc, w1))"

definition handle_recv_v1 ::
  "'w kernel \<Rightarrow> SyncService \<Rightarrow> path \<Rightarrow> 'w \<Rightarrow> (SyncResult \<times> SyncService \<times> 'w) rust" where
  "handle_recv_v1 K svc p w =
     (case k_open K p w of
       (Inl e, w1) \<Rightarrow>
         rbind (fail_response (bytes_of ''cannot open '' @ lossy p @ bytes_of '': '' @ e))
           (\<lambda>resp. Inr (sr_data resp, svc, w1))
     | (Inr f, w1) \<Rightarrow>
         Inr (SrContinue, svc\<lparr>sync_state := Sending \<lparr>fs_file = f, fs_done = False\<rparr>\<rparr>,
              drop_sync_state K (sync_state svc) w1))"

definition handle_send_v1 ::
  "'w kernel \<Rightarrow> winnow \<Rightarrow> SyncService \<Rightarrow> path \<Rightarrow> u32 \<Rightarrow> bytes \<Rightarrow> 'w
     \<Rightarrow> (SyncResult \<times> SyncService \<times> 'w) rust" where
  "handle_send_v1 K W svc p mode leftover w =
     (case k_create K p w of
       (Inl e, w1) \<Rightarrow>
         rbind (fail_response (bytes_of ''cannot create '' @ lossy p @ bytes_of '': '' @ e))
           (\<lambda>resp. Inr (sr_data resp, svc, w1))
     | (Inr f, w1) \<Rightarrow>
         let receiver = \<lparr>fr_file = f, fr_path = p, fr_mode = mode, fr_state = Header\<rparr> in
         rbind (if leftover \<noteq> [] then receive K W receiver leftover w1
                else Inr (FrContinue, receiver, w1)) (\<lambda>(res, receiver, w2).
         case res of
           FrContinue \<Rightarrow>
             Inr (SrContinue, svc\<lparr>sync_state := Receiving receiver\<rparr>,
                  drop_sync_state K (sync_state svc) w2)
         | FrDone resp \<Rightarrow> Inr (sr_data resp, svc, k_close K (fr_file receiver) w2)))"

text \<open>A payload that is not for a running receive is one request; what follows a request other
  than SEND in the same payload is not looked at.\<close>

definition handle_request ::
  "'w kernel \<Rightarrow> winnow \<Rightarrow> SyncService \<Rightarrow> bytes \<Rightarrow> 'w \<Rightarrow> (SyncResult \<times> SyncService \<times> 'w) rust" where
  "handle_request K W svc d w =
     (case parse_sync_packet W d of
       None \<Rightarrow>
         rbind (fail_response (bytes_of ''invalid sync request'')) (\<lambda>resp. Inr (sr_data resp, svc, w))
     | Some (packet, d') \<Rightarrow>
         (case packet of
           PkLStatV1 p \<Rightarrow> handle_lstat_v1 K svc p w
         | PkRecvV1 p \<Rightarrow> handle_recv_v1 K svc p w
         | PkSendV1 p m \<Rightarrow> handle_send_v1 K W svc p m d' w
         | PkQuit \<Rightarrow> Inr (SrQuit, svc, w)))"

definition handle ::
  "'w kernel \<Rightarrow> winnow \<Rightarrow> SyncService \<Rightarrow> bytes \<Rightarrow> 'w \<Rightarrow> (SyncResult \<times> SyncService \<times> 'w) rust" where
  "handle K W svc d w =
     (case sync_state svc of
       Receiving receiver \<Rightarrow>
         rbind (receive K W receiver d w) (\<lambda>(res, receiver, w1).
         case res of
           FrContinue \<Rightarrow> Inr (SrContinue, svc\<lparr>sync_state := Receiving receiver\<rparr>, w1)
         | FrDone resp \<Rightarrow>
             Inr (sr_data resp, svc\<lparr>sync_state := Idle\<rparr>,
                  drop_sync_state K (Receiving receiver) w1))
     | _ \<Rightarrow> handle_request K W svc d w)"

section \<open>A push through the service\<close>

text \<open>The payloads of a stream go to its service until it answers.\<close>

fun sync_session ::
  "'w kernel \<Rightarrow> winnow \<Rightarrow> SyncService \<Rightarrow> bytes list \<Rightarrow> 'w \<Rightarrow> (SyncResult \<times> SyncService \<times> 'w) rust"
where
  "sync_session K W svc [] w = Inr (SrContinue, svc, w)"
| "sync_session K W svc (p # ps) w =
     rbind (handle K W svc p w) (\<lambda>(res, svc', w').
       if res = SrContinue then sync_session K W svc' ps w' else Inr (res, svc', w'))"

text \<open>How the receiver's answer becomes the service's.\<close>

definition receiver_answer ::
  "'w kernel \<Rightarrow> SyncResponse FileReceiverResult \<times> FileReceiver \<times> 'w
     \<Rightarrow> (SyncResult \<times> SyncService \<times> 'w) rust" where
  "receiver_answer K = (\<lambda>(res, r, w).
     case res of
       FrContinue \<Rightarrow> Inr (SrContinue, \<lparr>sync_state = Receiving r\<rparr>, w)
     | FrDone resp \<Rightarrow> Inr (sr_data resp, \<lparr>sync_state = Idle\<rparr>, k_close K (fr_file r) w))"

lemma sr_data_not_Continue [simp]: "sr_data resp \<noteq> SrContinue"
  by (simp add: sr_data_def)

lemma receive_Nil [simp]: "receive K W r [] w = Inr (FrContinue, r, w)"
  by (simp add: receive_def receive_loop.simps [of K W "[]" 0 r w])

lemma receiver_answer_simps [simp]:
  "receiver_answer K (FrContinue, r, w) = Inr (SrContinue, \<lparr>sync_state = Receiving r\<rparr>, w)"
  "receiver_answer K (FrDone resp, r, w) =
     Inr (sr_data resp, \<lparr>sync_state = Idle\<rparr>, k_close K (fr_file r) w)"
  by (simp_all add: receiver_answer_def)

lemma handle_receiving:
  "handle K W \<lparr>sync_state = Receiving r\<rparr> p w = rbind (receive K W r p w) (receiver_answer K)"
  unfolding handle_def receiver_answer_def
  by (simp add: case_prod_unfold cong: FileReceiverResult.case_cong)

lemma session_receiving:
  "sync_session K W \<lparr>sync_state = Receiving r\<rparr> ps w =
     rbind (receive_all K W r ps w) (receiver_answer K)"
proof (induction ps arbitrary: r w)
  case (Cons p ps)
  show ?case
  proof (cases "receive K W r p w")
    case (Inr a)
    obtain res r' w' where a: "a = (res, r', w')" by (cases a)
    with Inr Cons.IH show ?thesis by (cases res) (simp_all add: handle_receiving)
  qed (simp add: handle_receiving)
qed simp

lemma session_send:
  assumes "winnow_spec W" and "request_bytes (PkSendV1 p m) i q"
    and "k_create K p w = (Inr f, w1)"
  shows "sync_session K W new_sync (i # ps) w =
    rbind (receive_all K W \<lparr>fr_file = f, fr_path = p, fr_mode = m, fr_state = Header\<rparr> (q # ps) w1)
      (receiver_answer K)"
proof -
  let ?r = "\<lparr>fr_file = f, fr_path = p, fr_mode = m, fr_state = Header\<rparr>"
  have parse: "parse_sync_packet W i = Some (PkSendV1 p m, q)"
    using assms(2) by (simp only: winnow_spec.parse_sync_packet_Some_iff [OF assms(1)])
  have "(if q \<noteq> [] then receive K W ?r q w1 else Inr (FrContinue, ?r, w1)) = receive K W ?r q w1"
    by simp
  then have handle: "handle K W new_sync i w = rbind (receive K W ?r q w1) (receiver_answer K)"
    unfolding handle_def handle_request_def parse handle_send_v1_def new_sync_def receiver_answer_def
    using assms(3) by (simp add: Let_def cong: FileReceiverResult.case_cong)
  show ?thesis
  proof (cases "receive K W ?r q w1")
    case (Inr a)
    obtain res r' w' where a: "a = (res, r', w')" by (cases a)
    with Inr show ?thesis by (cases res) (simp_all add: handle session_receiving)
  qed (simp add: handle)
qed

section \<open>What a receive touches\<close>

text \<open>A property of the world that the four calls of a receiver keep: they are the only calls it
  makes.\<close>

definition receiver_keeps :: "'w kernel \<Rightarrow> ('w \<Rightarrow> bool) \<Rightarrow> bool" where
  "receiver_keeps K I \<longleftrightarrow>
     (\<forall>w. I w \<longrightarrow> (\<forall>f xs. I (snd (k_write_all K f xs w))) \<and> (\<forall>f m. I (snd (k_set_permissions K f m w)))
        \<and> (\<forall>f t. I (snd (k_set_mtime K f t w))) \<and> (\<forall>p. I (snd (k_remove_file K p w))))"

lemma receiver_keepsD:
  assumes "receiver_keeps K I" and "I w"
  shows "I (snd (k_write_all K f xs w))" and "I (snd (k_set_permissions K f m w))"
    and "I (snd (k_set_mtime K f t w))" and "I (snd (k_remove_file K p w))"
  using assms unfolding receiver_keeps_def by blast+

lemma receiver_keeps_after:
  assumes "receiver_keeps K I" and "I w"
  shows "k_write_all K f xs w = (q, w1) \<Longrightarrow> I w1" and "k_set_permissions K f m w = (q, w1) \<Longrightarrow> I w1"
  using receiver_keepsD(1) [OF assms, of f xs] receiver_keepsD(2) [OF assms, of f m] by auto

lemma finalize_keeps:
  assumes "receiver_keeps K I" and "I w" and "finalize K r t w = Inr (res, r', w')"
  shows "fr_file r' = fr_file r \<and> I w'"
proof (cases "k_set_permissions K (fr_file r) (fr_mode r) w")
  case (Pair q w1)
  then have "I w1" by (rule receiver_keeps_after [OF assms(1,2)])
  with assms(3) Pair receiver_keepsD [OF assms(1) this] show ?thesis
    by (auto simp: finalize_def abort_def rust_simps split: sum.splits)
qed

lemma receive_loop_keeps:
  assumes keeps: "receiver_keeps K I"
  shows "I w \<Longrightarrow> receive_loop K W d pos r w = Inr (res, r', w') \<Longrightarrow> fr_file r' = fr_file r \<and> I w'"
  using keeps
proof (induction K W d pos r w rule: receive_loop.induct)
  case (1 K W d pos r w)
  note loop = receive_loop.simps [of K W d pos r w]
  note step = finalize_keeps [OF 1(6,4)] receiver_keepsD [OF 1(6,4)]
  show ?case
  proof (cases "pos < length d")
    case pos: True
    show ?thesis
    proof (cases "fr_state r")
      case Header
      with 1 pos show ?thesis
        by (auto simp: loop Let_def rust_simps abort_def step(5) split: option.splits prod.splits
            SyncFrameRequestId.splits dest: step(1))
    next
      case (PartialHeader buf n)
      with 1 pos show ?thesis
        by (auto simp: loop Let_def rust_simps abort_def step(5) split: if_splits option.splits
            prod.splits SyncFrameRequestId.splits dest: step(1))
    next
      case (InData n)
      obtain q w1 where wr: "k_write_all K (fr_file r) (take (min n (length d - pos)) (drop pos d)) w = (q, w1)"
        by (cases "k_write_all K (fr_file r) (take (min n (length d - pos)) (drop pos d)) w")
      then have I1: "I w1" by (rule receiver_keeps_after [OF 1(6,4)])
      show ?thesis
      proof (cases q)
        case (Inl e)
        with 1(5) pos InData wr receiver_keepsD(4) [OF 1(6) I1] show ?thesis
          by (auto simp: loop Let_def rust_simps abort_def)
      next
        case (Inr u)
        with 1(5) pos InData wr show ?thesis
          using 1(3) [OF pos InData refl wr [symmetric] Inr I1 _ 1(6)] by (simp add: loop Let_def)
      qed
    qed
  next
    case False
    with 1(4,5) show ?thesis by (simp add: loop)
  qed
qed

lemma receive_keeps:
  "receiver_keeps K I \<Longrightarrow> I w \<Longrightarrow> receive K W r d w = Inr (res, r', w') \<Longrightarrow>
     fr_file r' = fr_file r \<and> I w'"
  unfolding receive_def by (rule receive_loop_keeps)

section \<open>Descriptors\<close>

text \<open>The descriptors a service owns.\<close>

fun sync_fds :: "SyncState \<Rightarrow> fd set" where
  "sync_fds Idle = {}"
| "sync_fds (Sending s) = {fs_file s}"
| "sync_fds (Receiving r) = {fr_file r}"

text \<open>A call that replaces the owned descriptors \<open>A\<close> by \<open>B\<close> and touches no other.\<close>

definition fds_exchanged :: "fd set \<Rightarrow> fd set \<Rightarrow> fd set \<Rightarrow> fd set \<Rightarrow> bool" where
  "fds_exchanged A before B after \<longleftrightarrow> B \<subseteq> after \<and> after - B = before - A"

context fd_table
begin

lemma receiver_keeps_fds: "receiver_keeps K (\<lambda>w. open_fds w = A)"
  by (simp add: receiver_keeps_def)

lemma receive_fds:
  assumes "receive K W r d w = Inr (res, r', w')"
  shows "fr_file r' = fr_file r" and "open_fds w' = open_fds w"
  using receive_keeps [OF receiver_keeps_fds refl assms] by auto

lemma drop_sync_state_fds: "open_fds (drop_sync_state K st w) = open_fds w - sync_fds st"
  by (cases st) (simp_all add: close_fds)

lemma next_frame_fds:
  assumes "next_frame K s w = Inr (frame, s', w')"
  shows "fs_file s' = fs_file s" and "open_fds w' = open_fds w"
  using assms read_keeps [THEN keeps_fdsD]
  by (auto simp: next_frame_def rust_simps split: if_splits prod.splits sum.splits)

lemma handle_send_fds:
  assumes own: "sync_fds (sync_state svc) \<subseteq> open_fds w"
    and res: "handle_send_v1 K W svc p m d w = Inr (out, svc', w')"
  shows "fds_exchanged (sync_fds (sync_state svc)) (open_fds w) (sync_fds (sync_state svc')) (open_fds w')"
proof -
  obtain q w1 where cr: "k_create K p w = (q, w1)" by (cases "k_create K p w")
  show ?thesis
  proof (cases q)
    case (Inl e)
    with res own cr fresh_fd_Inl [OF create_fresh, of p w e w1] show ?thesis
      by (auto simp: handle_send_v1_def rust_simps fds_exchanged_def)
  next
    case (Inr f)
    let ?r = "\<lparr>fr_file = f, fr_path = p, fr_mode = m, fr_state = Header\<rparr>"
    from cr Inr have f: "f \<notin> open_fds w" "open_fds w1 = insert f (open_fds w)"
      using fresh_fd_Inr [OF create_fresh, of p w f w1] by auto
    have "(if d \<noteq> [] then receive K W ?r d w1 else Inr (FrContinue, ?r, w1)) = receive K W ?r d w1"
      by simp
    with res cr Inr obtain fres r' w2 where rc: "receive K W ?r d w1 = Inr (fres, r', w2)"
      by (auto simp: handle_send_v1_def Let_def rust_simps)
    note r' = receive_fds [OF rc]
    show ?thesis
    proof (cases fres)
      case (FrDone resp)
      with res cr Inr rc have "svc' = svc" and "w' = k_close K (fr_file r') w2"
        by (cases "d = []"; simp add: handle_send_v1_def Let_def)+
      with own f r' show ?thesis by (simp add: fds_exchanged_def close_fds)
    next
      case FrContinue
      with res cr Inr rc have "svc' = svc\<lparr>sync_state := Receiving r'\<rparr>"
        and "w' = drop_sync_state K (sync_state svc) w2"
        by (cases "d = []"; simp add: handle_send_v1_def Let_def)+
      with own f r' show ?thesis by (auto simp: fds_exchanged_def drop_sync_state_fds)
    qed
  qed
qed

lemma handle_fds:
  assumes own: "sync_fds (sync_state svc) \<subseteq> open_fds w"
    and res: "handle K W svc d w = Inr (out, svc', w')"
  shows "fds_exchanged (sync_fds (sync_state svc)) (open_fds w) (sync_fds (sync_state svc')) (open_fds w')"
proof (cases "\<exists>r. sync_state svc = Receiving r")
  case True
  then obtain r where r: "sync_state svc = Receiving r" ..
  with res obtain fres r' w1 where rc: "receive K W r d w = Inr (fres, r', w1)"
    by (auto simp: handle_def rust_simps)
  note r' = receive_fds [OF rc]
  show ?thesis
  proof (cases fres)
    case (FrDone resp)
    with res r rc have "svc' = svc\<lparr>sync_state := Idle\<rparr>" and "w' = k_close K (fr_file r') w1"
      by (simp_all add: handle_def)
    with r r' show ?thesis by (simp add: fds_exchanged_def close_fds)
  next
    case FrContinue
    with res r rc have "svc' = svc\<lparr>sync_state := Receiving r'\<rparr>" and "w' = w1"
      by (simp_all add: handle_def)
    with r r' own show ?thesis by (simp add: fds_exchanged_def)
  qed
next
  case False
  then have req: "handle_request K W svc d w = Inr (out, svc', w')"
    using res by (cases "sync_state svc") (simp_all add: handle_def)
  show ?thesis
  proof (cases "parse_sync_packet W d")
    case None
    with req own show ?thesis by (auto simp: handle_request_def rust_simps fds_exchanged_def)
  next
    case (Some x)
    obtain pk d' where x: "x = (pk, d')" by (cases x)
    show ?thesis
    proof (cases pk)
      case (PkLStatV1 p)
      with req own Some x show ?thesis
        by (auto simp: handle_request_def handle_lstat_v1_def rust_simps fds_exchanged_def
            split: prod.splits sum.splits dest!: fds_after)
    next
      case (PkRecvV1 p)
      with req own Some x show ?thesis
        by (auto simp: handle_request_def handle_recv_v1_def rust_simps fds_exchanged_def
            drop_sync_state_fds split: prod.splits sum.splits dest!: open_fresh [THEN fresh_fd_Inr]
              open_fresh [THEN fresh_fd_Inl])
    next
      case (PkSendV1 p m)
      with req Some x have "handle_send_v1 K W svc p m d' w = Inr (out, svc', w')"
        by (simp add: handle_request_def)
      with own show ?thesis by (rule handle_send_fds)
    next
      case PkQuit
      with req own Some x show ?thesis by (auto simp: handle_request_def fds_exchanged_def)
    qed
  qed
qed

end

section \<open>Properties\<close>

text \<open>The service's answers to a push that ran to its end, and to one the system refused.\<close>

definition session_done ::
  "'w kernel \<Rightarrow> ('w \<Rightarrow> fd \<Rightarrow> bytes option) \<Rightarrow> ('w \<Rightarrow> fd \<Rightarrow> u32) \<Rightarrow> ('w \<Rightarrow> fd \<Rightarrow> u64)
     \<Rightarrow> fd \<Rightarrow> u32 \<Rightarrow> bytes \<Rightarrow> u32 \<Rightarrow> (SyncResult \<times> SyncService \<times> 'w) rust \<Rightarrow> bool"
where
  "session_done K contents perm mtime f m c t res \<longleftrightarrow>
     (\<exists>w'. res = Inr (SrData \<lparr>rsp_id = RspOkay, rsp_len = 0\<rparr> [], new_sync, k_close K f w')
        \<and> contents w' f = Some c \<and> perm w' f = m
        \<and> (mtime w' f = ucast t \<or> (\<exists>w1 e. k_set_mtime K f (ucast t) w1 = (Inl e, w'))))"

definition session_failed ::
  "'w kernel \<Rightarrow> fd \<Rightarrow> path \<Rightarrow> u32 \<Rightarrow> (SyncResult \<times> SyncService \<times> 'w) rust \<Rightarrow> bool"
where
  "session_failed K f p m res \<longleftrightarrow>
     (\<exists>e w2 msg.
        ((\<exists>xs w1. k_write_all K f xs w1 = (Inl e, w2))
         \<or> (\<exists>w1. k_set_permissions K f m w1 = (Inl e, w2)))
        \<and> res = rbind (fail_response msg) (\<lambda>resp.
                  Inr (sr_data resp, new_sync, k_close K f (snd (k_remove_file K p w2)))))"

lemma receive_all_keeps:
  assumes "receiver_keeps K I"
  shows "I w \<Longrightarrow> receive_all K W r ps w = Inr (res, r', w') \<Longrightarrow> fr_file r' = fr_file r \<and> I w'"
proof (induction ps arbitrary: r w)
  case (Cons p ps)
  then obtain a where a: "receive K W r p w = Inr a" by (auto simp: rust_simps)
  obtain res1 r1 w1 where a': "a = (res1, r1, w1)" by (cases a)
  with a have k: "fr_file r1 = fr_file r \<and> I w1" using receive_keeps [OF assms Cons.prems(1)] by blast
  with Cons a a' show ?case by (cases res1) auto
qed auto

lemma receive_all_file:
  "receive_all K W r ps w = Inr (res, r', w') \<Longrightarrow> fr_file r' = fr_file r"
  using receive_all_keeps [of K "\<lambda>_. True"] by (simp add: receiver_keeps_def)

lemma session_done_of_push:
  assumes "push_done K contents perm mtime r c t (receive_all K W r ps w)"
  shows "session_done K contents perm mtime (fr_file r) (fr_mode r) c t
    (rbind (receive_all K W r ps w) (receiver_answer K))"
proof -
  obtain r' w' where res: "receive_all K W r ps w = Inr (FrDone okay_response, r', w')"
    and w': "contents w' (fr_file r) = Some c" "perm w' (fr_file r) = fr_mode r"
      "mtime w' (fr_file r) = ucast t \<or> (\<exists>w1 e. k_set_mtime K (fr_file r) (ucast t) w1 = (Inl e, w'))"
    using assms unfolding push_done_def by blast
  from res receive_all_file [OF res] w' show ?thesis
    unfolding session_done_def
    by (intro exI [of _ w']) (simp add: sr_data_def okay_response_def new_sync_def)
qed

lemma session_failed_of_push:
  assumes "push_failed K r (receive_all K W r ps w)"
  shows "session_failed K (fr_file r) (fr_path r) (fr_mode r)
    (rbind (receive_all K W r ps w) (receiver_answer K))"
proof -
  obtain e w2 msg r' where
    call: "(\<exists>xs w1. k_write_all K (fr_file r) xs w1 = (Inl e, w2))
         \<or> (\<exists>w1. k_set_permissions K (fr_file r) (fr_mode r) w1 = (Inl e, w2))"
    and res: "receive_all K W r ps w = rbind (fail_response msg) (\<lambda>resp. Inr (FrDone resp, r', abort K r w2))"
    using assms unfolding push_failed_def by blast
  have "rbind (receive_all K W r ps w) (receiver_answer K)
      = rbind (fail_response msg) (\<lambda>resp.
          Inr (sr_data resp, new_sync, k_close K (fr_file r) (snd (k_remove_file K (fr_path r) w2))))"
  proof (cases "fail_response msg")
    case (Inr resp)
    with res receive_all_file [of K W r ps w "FrDone resp" r' "abort K r w2"] show ?thesis
      by (simp add: abort_def new_sync_def)
  qed (simp add: res)
  with call show ?thesis unfolding session_failed_def by blast
qed

context push_env
begin

lemma session_result:
  assumes req: "request_bytes (PkSendV1 p m) i q"
    and create: "k_create K p w = (Inr f, w1)"
    and small: "\<forall>d \<in> set ds. length d < 2 ^ 32"
    and stream: "q @ concat ps = push_stream ds t"
  shows "session_done K contents perm mtime f m (concat ds) t (sync_session K W new_sync (i # ps) w)
    \<or> session_failed K f p m (sync_session K W new_sync (i # ps) w)"
proof -
  let ?r = "\<lparr>fr_file = f, fr_path = p, fr_mode = m, fr_state = Header\<rparr>"
  note session = session_send [OF winnow_spec_axioms req create, of ps]
  have "push_done K contents perm mtime ?r (concat ds) t (receive_all K W ?r (q # ps) w1)
      \<or> push_failed K ?r (receive_all K W ?r (q # ps) w1)"
    using push_result [of ?r w1 ds "q # ps" t "[]"] create_ok [OF create] small stream by simp
  then show ?thesis
  proof
    assume "push_done K contents perm mtime ?r (concat ds) t (receive_all K W ?r (q # ps) w1)"
    from session_done_of_push [OF this] show ?thesis unfolding session by simp
  next
    assume "push_failed K ?r (receive_all K W ?r (q # ps) w1)"
    from session_failed_of_push [OF this] show ?thesis unfolding session by simp
  qed
qed

end


lemma send_request_example:
  "request_bytes (PkSendV1 [97] 420)
     (bytes_of ''SEND'' @ [5, 0, 0, 0] @ bytes_of ''a,420'' @ bytes_of ''DATA'' @ [1, 0, 0, 0])
     (bytes_of ''DATA'' @ [1, 0, 0, 0])"
proof -
  have "path_mode_field (bytes_of ''a,420'') [97] 420"
    unfolding path_mode_field_def
    by (intro exI [of _ "bytes_of ''420''"] exI [of _ "[]"])
      (simp add: bytes_of_def is_digit_def mode_of_def digit_val_def)
  then show ?thesis
    by (auto simp: sync_ids le32_def bytes_of_def drop_bit_eq_div intro!: exI [of _ 5])
qed


text \<open>
  (C14) The service leaks no file. Whatever a payload asks for and whatever fails, the descriptors it
  owned are exchanged for the ones it owns afterwards, and no other descriptor of the process is
  opened or closed.
\<close>

theorem sync_no_fd_leak:
  assumes "fd_table K open_fds"
    and "sync_fds (sync_state svc) \<subseteq> open_fds w"
    and "handle K W svc d w = Inr (out, svc', w')"
  shows "sync_fds (sync_state svc') \<subseteq> open_fds w'
    \<and> open_fds w' - sync_fds (sync_state svc') = open_fds w - sync_fds (sync_state svc)"
  using fd_table.handle_fds [OF assms] by (simp add: fds_exchanged_def)

theorem sync_no_fd_leak_witness:
  "let w = snd (ref_open [98] (ref_with_file [98] [1] (ref_boot 3 100)));
       svc = \<lparr>sync_state = Sending \<lparr>fs_file = 6, fs_done = False\<rparr>\<rparr>
   in \<exists>w'. handle ref_kernel winnow_ref svc (bytes_of ''RECV'' @ [1, 0, 0, 0, 98]) w
         = Inr (SrContinue, \<lparr>sync_state = Sending \<lparr>fs_file = 7, fs_done = False\<rparr>\<rparr>, w')
       \<and> dom (rw_fds w') - {7} = dom (rw_fds w) - {6}"
  using sync_no_fd_leak [OF ref_fds.fd_table_axioms,
      of "\<lparr>sync_state = Sending \<lparr>fs_file = 6, fs_done = False\<rparr>\<rparr>"
        "snd (ref_open [98] (ref_with_file [98] [1] (ref_boot 3 100)))" winnow_ref
        "bytes_of ''RECV'' @ [1, 0, 0, 0, 98]"]
  by (simp add: handle_def handle_request_def parse_sync_packet_def parse_sync_packet_id_def
      verify_map_def bytes_of_def of_le32_def packet_id_try_from_def sync_ids ref_length_take_def
      handle_recv_v1_def ref_run Let_def)





end
