(* ===== verification/Shell.thy ===== *)
theory Shell
  imports Ref_Os
begin

text \<open>
  \<open>src/shell.rs\<close>: a shell on a pseudo-terminal. \<open>spawn\<close> is written with the descriptors it owns:
  an early return through \<open>?\<close> drops, that is closes, what was opened before, and at the normal
  return the \<open>Command\<close> that owns the three copies of the slave is dropped. What the child does
  between fork and exec (\<open>setsid\<close>, \<open>TIOCSCTTY\<close>) is part of the \<open>spawn\<close> call of the system.
\<close>

definition PTY_READ_BUF_SIZE :: nat where
  "PTY_READ_BUF_SIZE = 4096"

text \<open>\<open>sh_read_buf\<close> is what completed reads have put into the buffer.\<close>

record ShellService =
  master :: fd
  child :: pid
  sh_read_buf :: bytes

text \<open>Run the drops of a scope, first the head, when leaving with an error.\<close>

fun close_all :: "'w kernel \<Rightarrow> fd list \<Rightarrow> 'w \<Rightarrow> 'w" where
  "close_all K [] w = w"
| "close_all K (f # fs) w = close_all K fs (k_close K f w)"

definition try_owning :: "'w kernel \<Rightarrow> fd list \<Rightarrow> ('w, 'a) io \<Rightarrow> ('a \<Rightarrow> ('w, 'b) io) \<Rightarrow> ('w, 'b) io" where
  "try_owning K owned m f w =
     (case m w of
       (Inl e, w') \<Rightarrow> (Inl e, close_all K owned w')
     | (Inr a, w') \<Rightarrow> f a w')"

definition spawn :: "'w kernel \<Rightarrow> rstr option \<Rightarrow> ('w, ShellService) io" where
  "spawn K command =
     try_owning K [] (k_openpt K) (\<lambda>master_fd.
     try_owning K [master_fd] (k_grantpt K master_fd) (\<lambda>_.
     try_owning K [master_fd] (k_unlockpt K master_fd) (\<lambda>_.
     try_owning K [master_fd] (k_tiocgptpeer K master_fd) (\<lambda>slave_fd.
     try_owning K [slave_fd, master_fd] (k_dup K slave_fd) (\<lambda>stdin.
     try_owning K [stdin, slave_fd, master_fd] (k_dup K slave_fd) (\<lambda>stdout.
     let args = (case command of None \<Rightarrow> [] | Some c \<Rightarrow> [bytes_of ''-c'', c]) in
     try_owning K [stdin, stdout, slave_fd, master_fd]
       (k_spawn K (bytes_of ''/bin/sh'') args (Some (stdin, stdout, slave_fd))) (\<lambda>pr w.
     (Inr \<lparr>master = master_fd, child = pr, sh_read_buf = []\<rparr>,
      close_all K [stdin, stdout, slave_fd] w))))))))"

definition master_raw_fd :: "ShellService \<Rightarrow> fd" where
  "master_raw_fd s = master s"

definition sh_read_buf_capacity :: "ShellService \<Rightarrow> u32 rust" where
  "sh_read_buf_capacity s = expect ''PTY read buffer fits in u32'' (try_u32 PTY_READ_BUF_SIZE)"

definition sh_read_buf_data :: "ShellService \<Rightarrow> nat \<Rightarrow> bytes" where
  "sh_read_buf_data s len = take len (sh_read_buf s)"

definition sh_write_input :: "'w kernel \<Rightarrow> ShellService \<Rightarrow> bytes \<Rightarrow> ('w, unit) io" where
  "sh_write_input K s d = k_write_all K (master s) d"

text \<open>\<open>Drop\<close>: the child is killed and reaped, then the fields go, the master among them.\<close>

definition drop_shell :: "'w kernel \<Rightarrow> ShellService \<Rightarrow> 'w \<Rightarrow> 'w" where
  "drop_shell K s w = k_close K (master s) (snd (k_wait K (child s) (snd (k_kill K (child s) w))))"

section \<open>Descriptors\<close>

context fd_table
begin

lemma close_all_fds: "open_fds (close_all K fs w) = open_fds w - set fs"
  by (induction fs arbitrary: w) (auto simp: close_fds)

text \<open>Inside the scope: the table is the outer one, \<open>B\<close>, and the descriptors \<open>A\<close> opened since. A
  shell-starting computation is \<open>tidy\<close> if it ends with \<open>B\<close> or with \<open>B\<close> and a new master.\<close>

definition scope_fds :: "fd set \<Rightarrow> fd set \<Rightarrow> 'w \<Rightarrow> bool" where
  "scope_fds B A w \<longleftrightarrow> open_fds w = B \<union> A \<and> B \<inter> A = {}"

definition tidy :: "fd set \<Rightarrow> (io_error + ShellService) \<times> 'w \<Rightarrow> bool" where
  "tidy B out \<longleftrightarrow>
     (case out of
       (Inl e, w) \<Rightarrow> open_fds w = B
     | (Inr s, w) \<Rightarrow> master s \<notin> B \<and> open_fds w = insert (master s) B)"

lemma try_keeps:
  assumes "keeps_fds open_fds m" and "scope_fds B (set owned) w"
    and "\<And>a w1. scope_fds B (set owned) w1 \<Longrightarrow> tidy B (f a w1)"
  shows "tidy B (try_owning K owned m f w)"
proof (cases "m w")
  case (Pair r w1)
  with assms(1,2) have "scope_fds B (set owned) w1"
    using keeps_fdsD [OF assms(1) Pair] by (simp add: scope_fds_def)
  with Pair assms(3) show ?thesis
    by (cases r) (auto simp: try_owning_def tidy_def close_all_fds scope_fds_def)
qed

lemma try_fresh:
  assumes "fresh_fd open_fds m" and "scope_fds B (set owned) w"
    and "\<And>a w1. a \<notin> set owned \<Longrightarrow> scope_fds B (insert a (set owned)) w1 \<Longrightarrow> tidy B (f a w1)"
  shows "tidy B (try_owning K owned m f w)"
proof (cases "m w")
  case (Pair r w1)
  show ?thesis
  proof (cases r)
    case (Inl e)
    with Pair assms(2) fresh_fd_Inl [OF assms(1), of w e w1] show ?thesis
      by (auto simp: try_owning_def tidy_def close_all_fds scope_fds_def)
  next
    case (Inr a)
    with Pair have "a \<notin> open_fds w \<and> open_fds w1 = insert a (open_fds w)"
      using fresh_fd_Inr [OF assms(1), of w a w1] by simp
    with assms(2) have "a \<notin> set owned" and "scope_fds B (insert a (set owned)) w1"
      by (auto simp: scope_fds_def)
    with Pair Inr assms(3) show ?thesis by (simp add: try_owning_def)
  qed
qed

lemma spawn_tail_tidy:
  assumes "scope_fds B {so, si, sl, ma} w" and "ma \<notin> {si, so, sl}"
  shows "tidy B (try_owning K [si, so, sl, ma] (k_spawn K prog args stdio)
    (\<lambda>pr w. (Inr \<lparr>master = ma, child = pr, sh_read_buf = []\<rparr>, close_all K [si, so, sl] w)) w)"
proof (rule try_keeps [OF spawn_keeps])
  show "scope_fds B (set [si, so, sl, ma]) w"
    using assms(1) by (simp add: insert_commute)
next
  fix pr w1
  assume "scope_fds B (set [si, so, sl, ma]) w1"
  then show "tidy B (Inr \<lparr>master = ma, child = pr, sh_read_buf = []\<rparr>, close_all K [si, so, sl] w1)"
    using assms(2) unfolding tidy_def scope_fds_def by (auto simp: close_fds)
qed

lemma spawn_tidy: "tidy (open_fds w) (spawn K command w)"
  unfolding spawn_def Let_def
proof (rule try_fresh [OF openpt_fresh])
  fix ma w1
  assume "scope_fds (open_fds w) (insert ma (set [])) w1"
  then have s1: "scope_fds (open_fds w) (set [ma]) w1" by simp
  let ?args = "case command of None \<Rightarrow> [] | Some c \<Rightarrow> [bytes_of ''-c'', c]"
  have tail: "tidy (open_fds w) (try_owning K [ma] (k_tiocgptpeer K ma) (\<lambda>sl.
      try_owning K [sl, ma] (k_dup K sl) (\<lambda>si.
      try_owning K [si, sl, ma] (k_dup K sl) (\<lambda>so.
      try_owning K [si, so, sl, ma] (k_spawn K (bytes_of ''/bin/sh'') ?args (Some (si, so, sl)))
      (\<lambda>pr w. (Inr \<lparr>master = ma, child = pr, sh_read_buf = []\<rparr>, close_all K [si, so, sl] w))))) w2)"
    if "scope_fds (open_fds w) (set [ma]) w2" for w2
    by (rule try_fresh [OF peer_fresh that], rule try_fresh [OF dup_fresh], simp,
        rule try_fresh [OF dup_fresh], simp, rule spawn_tail_tidy) auto
  show "tidy (open_fds w) (try_owning K [ma] (k_grantpt K ma) (\<lambda>_.
      try_owning K [ma] (k_unlockpt K ma) (\<lambda>_. try_owning K [ma] (k_tiocgptpeer K ma) (\<lambda>sl.
      try_owning K [sl, ma] (k_dup K sl) (\<lambda>si.
      try_owning K [si, sl, ma] (k_dup K sl) (\<lambda>so.
      try_owning K [si, so, sl, ma] (k_spawn K (bytes_of ''/bin/sh'') ?args (Some (si, so, sl)))
      (\<lambda>pr w. (Inr \<lparr>master = ma, child = pr, sh_read_buf = []\<rparr>, close_all K [si, so, sl] w))))))) w1)"
    by (rule try_keeps [OF grantpt_keeps s1], rule try_keeps [OF unlockpt_keeps], assumption,
        rule tail)
qed (simp add: scope_fds_def)

lemma drop_shell_fds: "open_fds (drop_shell K s w) = open_fds w - {master s}"
  by (simp add: drop_shell_def close_fds)

end

section \<open>Properties\<close>

text \<open>
  (C13) Starting a shell leaks no descriptor on any path. It allocates up to four; when it succeeds
  exactly the terminal's master stays open, when any of its seven system calls fails everything is
  closed again. Dropping the service closes the master and nothing else.
\<close>

theorem shell_no_fd_leak:
  assumes "fd_table K open_fds"
  shows "(\<forall>s w'. spawn K command w = (Inr s, w') \<longrightarrow>
           master s \<notin> open_fds w \<and> open_fds w' = insert (master s) (open_fds w)
           \<and> open_fds (drop_shell K s w') = open_fds w)
    \<and> (\<forall>e w'. spawn K command w = (Inl e, w') \<longrightarrow> open_fds w' = open_fds w)"
  using fd_table.spawn_tidy [OF assms, of w command] fd_table.drop_shell_fds [OF assms]
  by (auto simp: fd_table.tidy_def [OF assms])

theorem shell_no_fd_leak_witness:
  "\<exists>w'. spawn ref_kernel (Some (bytes_of ''ls'')) (ref_boot 3 100)
       = (Inr \<lparr>master = 6, child = 1, sh_read_buf = []\<rparr>, w')
     \<and> dom (rw_fds w') = {6}"
proof -
  have "\<exists>w'. spawn ref_kernel (Some (bytes_of ''ls'')) (ref_boot 3 100)
       = (Inr \<lparr>master = 6, child = 1, sh_read_buf = []\<rparr>, w')"
    by (simp add: spawn_def try_owning_def ref_run Let_def)
  then show ?thesis
    using shell_no_fd_leak [OF ref_fds.fd_table_axioms, of "Some (bytes_of ''ls'')" "ref_boot 3 100"]
    by (auto simp: ref_boot_def)
qed

end
