(* ===== verification/Forward.thy ===== *)
theory Forward
  imports Ref_Os
begin

text \<open>
  \<open>src/forward.rs\<close>: a socket to a local destination. The write loop of \<open>write_input\<close> has no
  bound in the code: it is a partial function, and a value of \<open>None\<close> is a run that does not
  return. The law of sockets it rests on (a write of something moves something) makes it total.
\<close>

definition SOCKET_READ_BUF_SIZE :: nat where
  "SOCKET_READ_BUF_SIZE = 4096"

record ForwardService =
  socket :: fd
  fw_read_buf :: bytes

text \<open>\<open>SocketAddr::from_abstract_name\<close> refuses a name that does not fit \<open>sun_path\<close>.\<close>

definition SUN_PATH_LEN :: nat where
  "SUN_PATH_LEN = 108"

definition connect_abstract :: "'w kernel \<Rightarrow> bytes \<Rightarrow> ('w, fd) io" where
  "connect_abstract K nm =
     (if SUN_PATH_LEN < length nm + 1
      then io_err (bytes_of ''abstract socket name must be shorter than SUN_LEN'')
      else k_connect_abstract K nm)"

definition connect :: "'w kernel \<Rightarrow> rstr \<Rightarrow> ('w, ForwardService) io" where
  "connect K destination =
     io_bind
       (case strip_prefix (bytes_of ''tcp:'') destination of
         Some port_str \<Rightarrow>
           (case parse_unsigned 16 port_str of
             Inl e \<Rightarrow> io_err (bytes_of ''invalid port: '' @ parse_int_msg e)
           | Inr port \<Rightarrow> k_tcp_connect K (of_nat port))
       | None \<Rightarrow>
           (case strip_prefix (bytes_of ''localabstract:'') destination of
             Some nm \<Rightarrow> connect_abstract K nm
           | None \<Rightarrow>
               (case strip_prefix (bytes_of ''localfilesystem:'') destination of
                 Some p \<Rightarrow> k_connect_path K p
               | None \<Rightarrow> io_err (bytes_of ''unsupported forward destination: '' @ destination))))
       (\<lambda>s. io_ok \<lparr>socket = s, fw_read_buf = []\<rparr>)"

definition fw_read_buf_capacity :: "ForwardService \<Rightarrow> u32 rust" where
  "fw_read_buf_capacity s = expect ''socket read buffer fits in u32'' (try_u32 SOCKET_READ_BUF_SIZE)"

definition fw_read_buf_data :: "ForwardService \<Rightarrow> nat \<Rightarrow> bytes" where
  "fw_read_buf_data s len = take len (fw_read_buf s)"

definition shutdown_write :: "'w kernel \<Rightarrow> ForwardService \<Rightarrow> ('w, unit) io" where
  "shutdown_write K s = k_shutdown_write K (socket s)"

partial_function (option) write_loop ::
  "'w kernel \<Rightarrow> fd \<Rightarrow> bytes \<Rightarrow> nat \<Rightarrow> 'w \<Rightarrow> ((io_error + unit) \<times> 'w) option" where
  "write_loop K f d written w =
     (if written < length d then
        (case k_write K f (drop written d) w of
          (Inl e, w') \<Rightarrow> Some (Inl e, w')
        | (Inr n, w') \<Rightarrow> write_loop K f d (written + n) w')
      else Some (Inr (), w))"

definition fw_write_input ::
  "'w kernel \<Rightarrow> ForwardService \<Rightarrow> bytes \<Rightarrow> 'w \<Rightarrow> ((io_error + unit) \<times> 'w) option" where
  "fw_write_input K s d w = write_loop K (socket s) d 0 w"

definition fw_as_raw_fd :: "ForwardService \<Rightarrow> fd" where
  "fw_as_raw_fd s = socket s"

definition drop_forward :: "'w kernel \<Rightarrow> ForwardService \<Rightarrow> 'w \<Rightarrow> 'w" where
  "drop_forward K s w = k_close K (socket s) w"

section \<open>Writing\<close>

text \<open>What a write of \<open>d\<close> after \<open>c\<close> comes to: all of \<open>d\<close> was accepted for the peer, or the socket
  failed behind a prefix of it. Either way the loop returned.\<close>

definition handed_over ::
  "'w kernel \<Rightarrow> ('w \<Rightarrow> fd \<Rightarrow> bytes option) \<Rightarrow> fd \<Rightarrow> bytes \<Rightarrow> bytes
     \<Rightarrow> ((io_error + unit) \<times> 'w) option \<Rightarrow> bool" where
  "handed_over K sent f c d res \<longleftrightarrow>
     (\<exists>w'. res = Some (Inr (), w') \<and> sent w' f = Some (c @ d))
   \<or> (\<exists>e w1 w' k. res = Some (Inl e, w') \<and> sent w1 f = Some (c @ take k d)
        \<and> k_write K f (drop k d) w1 = (Inl e, w'))"

lemma handed_over_after:
  assumes "handed_over K sent f (c @ take n d) (drop n d) res" and "n \<le> length d"
  shows "handed_over K sent f c d res"
proof -
  have "take n d @ take k (drop n d) = take (n + k) d" for k
    by (simp add: take_add)
  moreover have "drop k (drop n d) = drop (n + k) d" for k
    by (simp add: add.commute)
  ultimately show ?thesis
    using assms(1) unfolding handed_over_def by fastforce
qed

text \<open>A stream socket: \<open>sent w f\<close> is what has been accepted for the peer. A write that succeeds
  takes a non-empty prefix of a non-empty buffer.\<close>

locale socket_writer =
  fixes K :: "'w kernel"
    and sent :: "'w \<Rightarrow> fd \<Rightarrow> bytes option"
  assumes write_some: "sent w f = Some c \<Longrightarrow> xs \<noteq> [] \<Longrightarrow> k_write K f xs w = (Inr n, w') \<Longrightarrow>
      0 < n \<and> n \<le> length xs \<and> sent w' f = Some (c @ take n xs)"
begin

lemma write_loop_result:
  "sent w f = Some c \<Longrightarrow> handed_over K sent f c (drop written d) (write_loop K f d written w)"
proof (induction "length d - written" arbitrary: written w c rule: less_induct)
  case less
  note loop = write_loop.simps [of K f d written w]
  show ?case
  proof (cases "written < length d")
    case False
    with less.prems show ?thesis by (simp add: loop handed_over_def)
  next
    case True
    then have ne: "drop written d \<noteq> []" by simp
    obtain r w1 where wr: "k_write K f (drop written d) w = (r, w1)"
      by (cases "k_write K f (drop written d) w")
    show ?thesis
    proof (cases r)
      case (Inl e)
      with True wr less.prems show ?thesis
        unfolding handed_over_def by (intro disjI2 exI [of _ e] exI [of _ w] exI [of _ w1] exI [of _ 0])
          (simp add: loop)
    next
      case (Inr n)
      from write_some [OF less.prems ne wr [unfolded Inr]]
      have n: "0 < n" "n \<le> length (drop written d)" "sent w1 f = Some (c @ take n (drop written d))"
        by auto
      have "length d - (written + n) < length d - written" using n(1) True by simp
      from less.hyps [OF this n(3)]
      have "handed_over K sent f c (drop written d) (write_loop K f d (written + n) w1)"
        by (intro handed_over_after [OF _ n(2)]) (simp add: add.commute)
      with True wr Inr show ?thesis by (simp add: loop)
    qed
  qed
qed

end

interpretation ref_socket: socket_writer ref_kernel ref_contents
  by unfold_locales (auto simp: ref_contents_def ref_write_def ref_put_def copy_at_def Let_def
      split: option.splits prod.splits if_splits)

section \<open>Properties\<close>

text \<open>
  (C15) \<open>write_input\<close> of a forwarded socket always returns, however few bytes the socket takes at a
  time, and hands over the payload completely and in order; when the socket fails it has handed over
  a prefix and returns that error.
\<close>

theorem forward_write_complete:
  assumes "socket_writer K sent" and "sent w (socket s) = Some c"
  shows "handed_over K sent (socket s) c d (fw_write_input K s d w)"
  using socket_writer.write_loop_result [OF assms, of 0 d] by (simp add: fw_write_input_def)

theorem forward_write_complete_witness:
  "\<exists>w'. fw_write_input ref_kernel \<lparr>socket = 6, fw_read_buf = []\<rparr> [1, 2, 3, 4, 5]
        (snd (ref_anonymous (ref_boot 1 100))) = Some (Inr (), w')
     \<and> ref_contents w' 6 = Some [1, 2, 3, 4, 5]"
  using forward_write_complete [OF ref_socket.socket_writer_axioms,
      of "snd (ref_anonymous (ref_boot 1 100))" "\<lparr>socket = 6, fw_read_buf = []\<rparr>" "[]" "[1, 2, 3, 4, 5]"]
  by (simp add: fw_write_input_def write_loop.simps ref_run handed_over_def)



end
