(* ===== verification/Streams.thy ===== *)
theory Streams
  imports Sync_Service Shell Forward
begin

text \<open>
  \<open>src/stream.rs\<close>: the streams of a connection, keyed by the local id. \<open>open\<close> dispatches on the
  service string and allocates the next id; \<open>get\<close> hands out a mutable reference, which is a lookup
  and an update here; \<open>close\<close> removes the stream and drops its service. The locale \<open>stream_table\<close>
  is the contract of the table the connection relies on.
\<close>

section \<open>Services and streams\<close>

datatype Service = SvcSync SyncService | SvcShell ShellService | SvcReboot | SvcForward ForwardService

record Stream =
  remote_id :: u32
  service :: Service
  waiting_for_okay :: bool
  remote_closed :: bool

record StreamManager =
  streams :: "u32 \<Rightarrow> Stream option"
  next_id :: u32

definition new_streams :: StreamManager where
  "new_streams = \<lparr>streams = (\<lambda>_. None), next_id = 1\<rparr>"

fun drop_service :: "'w kernel \<Rightarrow> Service \<Rightarrow> 'w \<Rightarrow> 'w" where
  "drop_service K (SvcSync svc) w = drop_sync_state K (sync_state svc) w"
| "drop_service K (SvcShell s) w = drop_shell K s w"
| "drop_service K SvcReboot w = w"
| "drop_service K (SvcForward s) w = drop_forward K s w"

text \<open>The service a string asks for: \<open>None\<close> when it is unknown or cannot be started.\<close>

definition open_service :: "'w kernel \<Rightarrow> rstr \<Rightarrow> 'w \<Rightarrow> Service option \<times> 'w" where
  "open_service K svc w =
     (if svc = bytes_of ''sync:'' then (Some (SvcSync new_sync), w)
      else if starts_with (bytes_of ''shell:'') svc then
        (let cmd = the (strip_prefix (bytes_of ''shell:'') svc);
             cmd = (if cmd = [] then None else Some cmd) in
         case spawn K cmd w of
           (Inr s, w') \<Rightarrow> (Some (SvcShell s), w')
         | (Inl _, w') \<Rightarrow> (None, w'))
      else if starts_with (bytes_of ''reboot:'') svc then (Some SvcReboot, w)
      else if starts_with (bytes_of ''tcp:'') svc
           \<or> starts_with (bytes_of ''localabstract:'') svc
           \<or> starts_with (bytes_of ''localfilesystem:'') svc then
        (case connect K svc w of
           (Inr f, w') \<Rightarrow> (Some (SvcForward f), w')
         | (Inl _, w') \<Rightarrow> (None, w'))
      else (None, w))"

text \<open>The table's part of \<open>open\<close>: take the next id (\<open>next_id += 1\<close>, under either setting of the
  overflow checks) and insert. A stream that had the id already comes back, to be dropped.\<close>

definition insert_stream :: "bool \<Rightarrow> Stream \<Rightarrow> StreamManager \<Rightarrow> (u32 \<times> Stream option \<times> StreamManager) rust" where
  "insert_stream oc s m =
     (let local_id = next_id m in
      rbind (add_u32 oc local_id 1) (\<lambda>nid.
      Inr (local_id, streams m local_id,
           m\<lparr>streams := (streams m)(local_id \<mapsto> s), next_id := nid\<rparr>)))"

definition stream_open ::
  "bool \<Rightarrow> 'w kernel \<Rightarrow> u32 \<Rightarrow> rstr \<Rightarrow> StreamManager \<Rightarrow> 'w \<Rightarrow> (u32 option \<times> StreamManager \<times> 'w) rust"
where
  "stream_open oc K rid svc m w =
     (case open_service K svc w of
       (None, w') \<Rightarrow> Inr (None, m, w')
     | (Some sv, w') \<Rightarrow>
         rbind (insert_stream oc
                  \<lparr>remote_id = rid, service = sv, waiting_for_okay = False, remote_closed = False\<rparr> m)
           (\<lambda>(local_id, prev, m').
             Inr (Some local_id, m',
                  case prev of None \<Rightarrow> w' | Some s \<Rightarrow> drop_service K (service s) w')))"

definition get :: "StreamManager \<Rightarrow> u32 \<Rightarrow> Stream option" where
  "get m local_id = streams m local_id"

text \<open>A write through the reference \<open>get\<close> returned.\<close>

definition set_stream :: "u32 \<Rightarrow> Stream \<Rightarrow> StreamManager \<Rightarrow> StreamManager" where
  "set_stream local_id s m =
     (if streams m local_id = None then m
      else m\<lparr>streams := (streams m)(local_id \<mapsto> s)\<rparr>)"

definition remove_stream :: "u32 \<Rightarrow> StreamManager \<Rightarrow> StreamManager" where
  "remove_stream local_id m = m\<lparr>streams := (streams m)(local_id := None)\<rparr>"

definition stream_close :: "'w kernel \<Rightarrow> u32 \<Rightarrow> StreamManager \<Rightarrow> 'w \<Rightarrow> StreamManager \<times> 'w" where
  "stream_close K local_id m w =
     (remove_stream local_id m,
      case streams m local_id of None \<Rightarrow> w | Some s \<Rightarrow> drop_service K (service s) w)"

lemma stream_open_cases:
  assumes "stream_open oc K rid svc m w = Inr (res, m', w')"
  shows "case res of
      None \<Rightarrow> m' = m
    | Some i \<Rightarrow> \<exists>sv. streams m' i =
        Some \<lparr>remote_id = rid, service = sv, waiting_for_okay = False, remote_closed = False\<rparr>"
proof (cases "open_service K svc w")
  case (Pair r w1)
  show ?thesis
  proof (cases r)
    case None
    with assms Pair show ?thesis by (auto simp: stream_open_def)
  next
    case (Some sv)
    with assms Pair show ?thesis
      by (auto simp: stream_open_def insert_stream_def Let_def rust_simps)
  qed
qed

section \<open>The table contract\<close>

text \<open>
  A table of live entries under ids that are handed out once: an id given by \<open>add\<close> is not 0, was
  not in use and is not handed out again while ids are left; every other operation touches the
  entry it names and no other.
\<close>

locale stream_table =
  fixes invar :: "'m \<Rightarrow> bool"
    and look :: "'m \<Rightarrow> u32 \<Rightarrow> 's option"
    and fresh_from :: "'m \<Rightarrow> nat"
    and add :: "bool \<Rightarrow> 's \<Rightarrow> 'm \<Rightarrow> (u32 \<times> 's option \<times> 'm) rust"
    and put :: "u32 \<Rightarrow> 's \<Rightarrow> 'm \<Rightarrow> 'm"
    and del :: "u32 \<Rightarrow> 'm \<Rightarrow> 'm"
    and empty_table :: "'m"
  assumes empty_ok: "invar empty_table" and look_empty: "look empty_table = (\<lambda>_. None)"
    and ids: "invar m \<Longrightarrow> look m i \<noteq> None \<Longrightarrow> 0 < unat i \<and> unat i < fresh_from m"
    and add_ok: "invar m \<Longrightarrow> fresh_from m + 1 < 2 ^ 32 \<Longrightarrow>
      \<exists>i m'. add oc s m = Inr (i, None, m') \<and> unat i = fresh_from m \<and> i \<noteq> 0 \<and> invar m'
        \<and> fresh_from m' = fresh_from m + 1 \<and> look m' = (look m)(i \<mapsto> s)"
    and put_ok: "invar m \<Longrightarrow> look m i \<noteq> None \<Longrightarrow>
      invar (put i s m) \<and> look (put i s m) = (look m)(i \<mapsto> s) \<and> fresh_from (put i s m) = fresh_from m"
    and del_ok: "invar m \<Longrightarrow>
      invar (del i m) \<and> look (del i m) = (look m)(i := None) \<and> fresh_from (del i m) = fresh_from m"
begin

text \<open>The id of a new entry was free.\<close>

lemma add_fresh:
  assumes "invar m" and "fresh_from m + 1 < 2 ^ 32" and "add oc s m = Inr (i, prev, m')"
  shows "look m i = None" and "prev = None" and "i \<noteq> 0" and "invar m'"
    and "look m' = (look m)(i \<mapsto> s)" and "fresh_from m' = fresh_from m + 1"
  using add_ok [OF assms(1,2), of oc s] ids [OF assms(1), of i] assms(3)
  by (cases "look m i"; auto)+

text \<open>An id that was closed is not given out again.\<close>

lemma closed_not_reused:
  assumes "invar m" and "look m j \<noteq> None" and "fresh_from m + 1 < 2 ^ 32"
    and "add oc s (del j m) = Inr (i, prev, m')"
  shows "i \<noteq> j"
  using add_ok [of "del j m" oc s] del_ok [OF assms(1), of j] ids [OF assms(1,2)] assms(3,4) by auto

end

definition streams_ok :: "StreamManager \<Rightarrow> bool" where
  "streams_ok m \<longleftrightarrow> next_id m \<noteq> 0 \<and> (\<forall>i. streams m i \<noteq> None \<longrightarrow> 0 < unat i \<and> unat i < unat (next_id m))"

lemma streams_ok_empty: "streams_ok new_streams"
  by (simp add: streams_ok_def new_streams_def)

lemma insert_stream_ok:
  assumes "streams_ok m" and "unat (next_id m) + 1 < 2 ^ 32"
  shows "insert_stream oc s m = Inr (next_id m, None,
      m\<lparr>streams := (streams m)(next_id m \<mapsto> s), next_id := next_id m + 1\<rparr>)"
    and "unat (next_id m + 1) = unat (next_id m) + 1"
proof -
  show "unat (next_id m + 1) = unat (next_id m) + 1"
    using assms(2) by (simp add: unat_word_ariths)
  have "streams m (next_id m) = None"
    using assms(1) by (auto simp: streams_ok_def)
  then show "insert_stream oc s m = Inr (next_id m, None,
      m\<lparr>streams := (streams m)(next_id m \<mapsto> s), next_id := next_id m + 1\<rparr>)"
    using assms(2) by (simp add: insert_stream_def Let_def add_u32_no_overflow)
qed

interpretation sm: stream_table streams_ok streams "\<lambda>m. unat (next_id m)" insert_stream set_stream
  remove_stream new_streams
proof
  fix m :: StreamManager and oc s
  assume ok: "streams_ok m" and room: "unat (next_id m) + 1 < 2 ^ 32"
  note ins = insert_stream_ok [OF ok room]
  have "next_id m + 1 \<noteq> 0" using ins(2) by (metis Suc_eq_plus1 nat.distinct(1) unat_0)
  with ok ins(2) have "streams_ok (m\<lparr>streams := (streams m)(next_id m \<mapsto> s), next_id := next_id m + 1\<rparr>)"
    unfolding streams_ok_def by (auto simp: unat_gt_0 intro: less_SucI)
  with ok ins show "\<exists>i m'. insert_stream oc s m = Inr (i, None, m') \<and> unat i = unat (next_id m)
      \<and> i \<noteq> 0 \<and> streams_ok m' \<and> unat (next_id m') = unat (next_id m) + 1
      \<and> streams m' = (streams m)(i \<mapsto> s)"
    by (simp add: streams_ok_def)
qed (auto simp: streams_ok_def new_streams_def set_stream_def remove_stream_def)

section \<open>Descriptors of the streams\<close>

fun service_fds :: "Service \<Rightarrow> fd set" where
  "service_fds (SvcSync svc) = sync_fds (sync_state svc)"
| "service_fds (SvcShell s) = {master s}"
| "service_fds SvcReboot = {}"
| "service_fds (SvcForward s) = {socket s}"

definition stream_fds :: "StreamManager \<Rightarrow> fd set" where
  "stream_fds m = {f. \<exists>i s. streams m i = Some s \<and> f \<in> service_fds (service s)}"

text \<open>Every descriptor of a stream is open and belongs to one stream only.\<close>

definition streams_own :: "StreamManager \<Rightarrow> fd set \<Rightarrow> bool" where
  "streams_own m A \<longleftrightarrow> stream_fds m \<subseteq> A
     \<and> (\<forall>i j s t. i \<noteq> j \<longrightarrow> streams m i = Some s \<longrightarrow> streams m j = Some t \<longrightarrow>
          service_fds (service s) \<inter> service_fds (service t) = {})"

lemma stream_fds_Some: "streams m i = Some s \<Longrightarrow> service_fds (service s) \<subseteq> stream_fds m"
  by (auto simp: stream_fds_def)

lemma streams_own_insert:
  assumes "streams m' = (streams m)(i \<mapsto> s)" and "streams m i = None" and "streams_own m A"
    and "service_fds (service s) \<inter> A = {}"
  shows "streams_own m' (A \<union> service_fds (service s))"
    and "(A \<union> service_fds (service s)) - stream_fds m' = A - stream_fds m"
proof -
  have fds: "stream_fds m' = stream_fds m \<union> service_fds (service s)"
  proof (intro set_eqI iffI)
    fix f assume "f \<in> stream_fds m'"
    then obtain j t where "streams m' j = Some t" "f \<in> service_fds (service t)"
      unfolding stream_fds_def by blast
    then show "f \<in> stream_fds m \<union> service_fds (service s)"
      using assms(1) by (cases "j = i") (auto simp: stream_fds_def)
  next
    fix f assume "f \<in> stream_fds m \<union> service_fds (service s)"
    then consider (new) "f \<in> service_fds (service s)"
      | (old) j t where "streams m j = Some t" "f \<in> service_fds (service t)"
      unfolding stream_fds_def by blast
    then show "f \<in> stream_fds m'"
    proof cases
      case new
      with stream_fds_Some [of m' i s] assms(1) show ?thesis by auto
    next
      case (old j t)
      with assms(2) have "j \<noteq> i" by auto
      with old stream_fds_Some [of m' j t] assms(1) show ?thesis by auto
    qed
  qed
  have old: "service_fds (service t) \<subseteq> A" if "streams m j = Some t" for j t
    using stream_fds_Some [OF that] assms(3) by (auto simp: streams_own_def)
  show "streams_own m' (A \<union> service_fds (service s))"
    using assms fds old unfolding streams_own_def by (fastforce split: if_splits)
  show "(A \<union> service_fds (service s)) - stream_fds m' = A - stream_fds m"
    using fds assms(4) by blast
qed

lemma streams_own_delete:
  assumes "streams m' = (streams m)(i := None)" and "streams m i = Some s" and "streams_own m A"
  shows "streams_own m' (A - service_fds (service s))"
    and "(A - service_fds (service s)) - stream_fds m' = A - stream_fds m"
proof -
  have other: "service_fds (service t) \<inter> service_fds (service s) = {}"
    if "streams m j = Some t" "j \<noteq> i" for j t
    using assms(2,3) that unfolding streams_own_def by blast
  have fds: "stream_fds m' = stream_fds m - service_fds (service s)"
  proof (intro set_eqI iffI)
    fix f assume "f \<in> stream_fds m'"
    then obtain j t where t: "streams m' j = Some t" "f \<in> service_fds (service t)"
      unfolding stream_fds_def by blast
    with assms(1) have "j \<noteq> i" "streams m j = Some t" by (auto split: if_splits)
    with t(2) other stream_fds_Some show "f \<in> stream_fds m - service_fds (service s)" by blast
  next
    fix f assume "f \<in> stream_fds m - service_fds (service s)"
    then obtain j t where t: "streams m j = Some t" "f \<in> service_fds (service t)"
        and "f \<notin> service_fds (service s)"
      unfolding stream_fds_def by blast
    with assms(2) have "j \<noteq> i" by auto
    with t assms(1) stream_fds_Some [of m' j t] show "f \<in> stream_fds m'" by auto
  qed
  show "streams_own m' (A - service_fds (service s))"
    using assms fds unfolding streams_own_def by (auto split: if_splits)
  show "(A - service_fds (service s)) - stream_fds m' = A - stream_fds m"
    using fds stream_fds_Some [OF assms(2)] by blast
qed

context fd_table
begin

lemma drop_service_fds: "open_fds (drop_service K sv w) = open_fds w - service_fds sv"
  by (cases sv) (simp_all add: drop_sync_state_fds drop_shell_fds drop_forward_def close_fds)

lemma connect_fds:
  "connect K dest w = (Inr s, w') \<Longrightarrow> socket s \<notin> open_fds w \<and> open_fds w' = insert (socket s) (open_fds w)"
  "connect K dest w = (Inl e, w') \<Longrightarrow> open_fds w' = open_fds w"
  by (auto simp: connect_def connect_abstract_def rust_simps
      split: option.splits sum.splits if_splits
      dest: tcp_fresh [THEN fresh_fd_Inr] abstract_fresh [THEN fresh_fd_Inr] path_fresh [THEN fresh_fd_Inr]
        tcp_fresh [THEN fresh_fd_Inl] abstract_fresh [THEN fresh_fd_Inl] path_fresh [THEN fresh_fd_Inl])

lemma spawn_fds:
  "spawn K cmd w = (Inr s, w') \<Longrightarrow> master s \<notin> open_fds w \<and> open_fds w' = insert (master s) (open_fds w)"
  "spawn K cmd w = (Inl e, w') \<Longrightarrow> open_fds w' = open_fds w"
  using spawn_tidy [of w cmd] by (auto simp: tidy_def)

lemma open_service_fds:
  assumes "open_service K svc w = (res, w')"
  shows "case res of
      None \<Rightarrow> open_fds w' = open_fds w
    | Some sv \<Rightarrow> service_fds sv \<inter> open_fds w = {} \<and> open_fds w' = open_fds w \<union> service_fds sv"
  using assms
  by (auto simp: open_service_def Let_def new_sync_def split: if_splits prod.splits sum.splits
      dest!: spawn_fds connect_fds)

end

lemma open_service_kind:
  assumes "open_service K svc w = (Some sv, w')"
  shows "case sv of
      SvcSync s \<Rightarrow> svc = bytes_of ''sync:'' \<and> s = new_sync
    | SvcShell s \<Rightarrow> starts_with (bytes_of ''shell:'') svc
    | SvcReboot \<Rightarrow> starts_with (bytes_of ''reboot:'') svc
    | SvcForward f \<Rightarrow> connect K svc w = (Inr f, w')"
  using assms by (auto simp: open_service_def Let_def split: if_splits prod.splits sum.splits)

section \<open>Properties\<close>

text \<open>
  (C12) OPEN in the stream table. While ids are left, opening never panics: an unknown or unstartable
  service leaves the table and the descriptors as they were; a started one is entered, under an id
  that is not 0, was not in use and is larger than every id in use, with the host's id and both flags
  clear, next to the untouched other streams; and the descriptors the process gained are exactly
  those of the new service.
\<close>

theorem stream_open_exact:
  assumes "fd_table K open_fds" and "streams_ok m" and "unat (next_id m) + 1 < 2 ^ 32"
  shows "\<exists>res m' w'. stream_open oc K rid svc m w = Inr (res, m', w') \<and> streams_ok m'
    \<and> (case res of
        None \<Rightarrow> m' = m \<and> open_fds w' = open_fds w
      | Some i \<Rightarrow> i \<noteq> 0 \<and> (\<forall>j. streams m j \<noteq> None \<longrightarrow> j < i)
          \<and> (\<exists>sv. streams m' = (streams m)(i \<mapsto>
                \<lparr>remote_id = rid, service = sv, waiting_for_okay = False, remote_closed = False\<rparr>)
              \<and> service_fds sv \<inter> open_fds w = {} \<and> open_fds w' = open_fds w \<union> service_fds sv))"
proof -
  obtain r w1 where os: "open_service K svc w = (r, w1)" by (cases "open_service K svc w")
  note fds = fd_table.open_service_fds [OF assms(1) os]
  show ?thesis
  proof (cases r)
    case None
    with os fds assms(2) show ?thesis by (simp add: stream_open_def)
  next
    case (Some sv)
    let ?s = "\<lparr>remote_id = rid, service = sv, waiting_for_okay = False, remote_closed = False\<rparr>"
    obtain i m' where ins: "insert_stream oc ?s m = Inr (i, None, m')" "unat i = unat (next_id m)"
        "i \<noteq> 0" "streams_ok m'" "streams m' = (streams m)(i \<mapsto> ?s)"
      using sm.add_ok [OF assms(2,3), of oc ?s] by blast
    have "\<forall>j. streams m j \<noteq> None \<longrightarrow> j < i"
      using sm.ids [OF assms(2)] ins(2) by (auto simp: word_less_nat_alt)
    with Some os fds ins show ?thesis by (simp add: stream_open_def) blast
  qed
qed

theorem stream_open_exact_witness:
  "\<exists>m' w'. stream_open True ref_kernel 5 (bytes_of ''sync:'') new_streams (ref_boot 3 100)
       = Inr (Some 1, m', w') \<and> streams_ok m' \<and> dom (rw_fds w') = {}"
proof -
  have "stream_open True ref_kernel 5 (bytes_of ''sync:'') new_streams (ref_boot 3 100)
      = Inr (Some 1, \<lparr>streams = [1 \<mapsto> \<lparr>remote_id = 5, service = SvcSync new_sync,
           waiting_for_okay = False, remote_closed = False\<rparr>], next_id = 2\<rparr>, ref_boot 3 100)"
    by (simp add: stream_open_def open_service_def insert_stream_def new_streams_def add_u32_def)
  then show ?thesis
    using stream_open_exact [OF ref_fds.fd_table_axioms streams_ok_empty, of True 5 "bytes_of ''sync:''" "ref_boot 3 100"]
    by (simp add: new_streams_def ref_boot_def)
qed

text \<open>
  (C11) Streams and descriptors stay in step. Opening and closing keep: every descriptor of a stream is
  open and belongs to that stream alone; and neither touches a descriptor that is not a stream's.
  Closing a stream closes exactly its descriptors; closing an unknown id does nothing.
\<close>

theorem stream_fds_in_step:
  assumes "fd_table K open_fds" and "streams_ok m" and "unat (next_id m) + 1 < 2 ^ 32"
    and "streams_own m (open_fds w)"
  shows "(\<forall>res m' w'. stream_open oc K rid svc m w = Inr (res, m', w') \<longrightarrow>
           streams_own m' (open_fds w') \<and> open_fds w' - stream_fds m' = open_fds w - stream_fds m)
    \<and> (\<forall>m' w'. stream_close K i m w = (m', w') \<longrightarrow>
           streams_ok m' \<and> streams_own m' (open_fds w')
           \<and> open_fds w' - stream_fds m' = open_fds w - stream_fds m)"
proof (intro conjI allI impI)
  fix res m' w'
  assume op: "stream_open oc K rid svc m w = Inr (res, m', w')"
  obtain r w1 where os: "open_service K svc w = (r, w1)" by (cases "open_service K svc w")
  note fds = fd_table.open_service_fds [OF assms(1) os]
  show "streams_own m' (open_fds w')" and "open_fds w' - stream_fds m' = open_fds w - stream_fds m"
  proof (atomize (full), cases r)
    case None
    with os fds op assms(4) show "streams_own m' (open_fds w') \<and>
        open_fds w' - stream_fds m' = open_fds w - stream_fds m"
      by (simp add: stream_open_def)
  next
    case (Some sv)
    let ?s = "\<lparr>remote_id = rid, service = sv, waiting_for_okay = False, remote_closed = False\<rparr>"
    obtain j m2 where ins: "insert_stream oc ?s m = Inr (j, None, m2)"
        and m2: "streams m2 = (streams m)(j \<mapsto> ?s)"
      using sm.add_ok [OF assms(2,3), of oc ?s] by blast
    have j: "streams m j = None" by (rule sm.add_fresh(1) [OF assms(2,3) ins])
    from op os Some ins have "m' = m2" "w' = w1" by (auto simp: stream_open_def)
    with streams_own_insert [OF m2 j assms(4)] fds Some
    show "streams_own m' (open_fds w') \<and> open_fds w' - stream_fds m' = open_fds w - stream_fds m"
      by simp
  qed
next
  fix m' w'
  assume cl: "stream_close K i m w = (m', w')"
  then have m': "m' = remove_stream i m" by (simp add: stream_close_def)
  with sm.del_ok [OF assms(2)] show "streams_ok m'" by simp
  have sm': "streams m' = (streams m)(i := None)" using m' by (simp add: remove_stream_def)
  show "streams_own m' (open_fds w')" and "open_fds w' - stream_fds m' = open_fds w - stream_fds m"
  proof (atomize (full), cases "streams m i")
    case None
    then have "streams m' = streams m" using sm' by auto
    with None cl assms(4) show "streams_own m' (open_fds w') \<and>
        open_fds w' - stream_fds m' = open_fds w - stream_fds m"
      by (simp add: stream_close_def streams_own_def stream_fds_def)
  next
    case (Some s)
    then have w': "open_fds w' = open_fds w - service_fds (service s)"
      using cl fd_table.drop_service_fds [OF assms(1)] by (auto simp: stream_close_def)
    from streams_own_delete [OF sm' Some assms(4)] w'
    show "streams_own m' (open_fds w') \<and> open_fds w' - stream_fds m' = open_fds w - stream_fds m"
      by simp
  qed
qed

theorem stream_fds_in_step_witness:
  "let w = snd (ref_open [98] (ref_with_file [98] [1] (ref_boot 3 100)));
       m = \<lparr>streams = [1 \<mapsto> \<lparr>remote_id = 9,
              service = SvcSync \<lparr>sync_state = Sending \<lparr>fs_file = 6, fs_done = False\<rparr>\<rparr>,
              waiting_for_okay = False, remote_closed = False\<rparr>], next_id = 2\<rparr>;
       (m', w') = stream_close ref_kernel 1 m w
   in streams_own m' (dom (rw_fds w')) \<and> dom (rw_fds w') = {}"
proof -
  let ?w = "snd (ref_open [98] (ref_with_file [98] [1] (ref_boot 3 100)))"
  let ?m = "\<lparr>streams = [1 \<mapsto> \<lparr>remote_id = 9,
              service = SvcSync \<lparr>sync_state = Sending \<lparr>fs_file = 6, fs_done = False\<rparr>\<rparr>,
              waiting_for_okay = False, remote_closed = False\<rparr>], next_id = 2\<rparr>"
  have ok: "streams_ok ?m" and own: "streams_own ?m (dom (rw_fds ?w))"
    by (auto simp: streams_ok_def streams_own_def stream_fds_def ref_run split: if_splits)
  show ?thesis
    using stream_fds_in_step [OF ref_fds.fd_table_axioms ok _ own, of True 0 "[]" 1]
    by (simp add: stream_close_def remove_stream_def ref_run)
qed

end
