(* ===== verification/Ffs.thy ===== *)
theory Ffs
  imports Device_Info Ref_Os
begin

text \<open>
  \<open>src/ffs.rs\<close> with the constants of \<open>src/usb.rs\<close>: the events of the FunctionFS control endpoint,
  the gadget directory in ConfigFS, and binding the gadget to a USB device controller.
\<close>

section \<open>Constants\<close>

definition ADB_MANUFACTURER_EN :: rstr where "ADB_MANUFACTURER_EN = bytes_of ''Android''"
definition ADB_PRODUCT_EN :: rstr where "ADB_PRODUCT_EN = bytes_of ''Android Debug Bridge''"
definition USB_CLASS_ADB :: u8 where "USB_CLASS_ADB = 0xff"
definition USB_SUBCLASS_ADB :: u8 where "USB_SUBCLASS_ADB = 0x42"
definition USB_PROTOCOL_ADB :: u8 where "USB_PROTOCOL_ADB = 0x01"
definition USB_VENDOR_ID_GOOGLE :: u16 where "USB_VENDOR_ID_GOOGLE = 0x18d1"
definition USB_PRODUCT_ID_ADB :: u16 where "USB_PRODUCT_ID_ADB = 0x4ee7"
definition USB_LANG_EN_US :: u16 where "USB_LANG_EN_US = 0x409"

definition FFS_PATH :: path where "FFS_PATH = bytes_of ''/run/adibi/ffs''"
definition GADGET_PATH :: path where "GADGET_PATH = bytes_of ''/sys/kernel/config/usb_gadget/adibi''"

definition FUNCTIONFS_BIND :: u8 where "FUNCTIONFS_BIND = 0"
definition FUNCTIONFS_UNBIND :: u8 where "FUNCTIONFS_UNBIND = 1"
definition FUNCTIONFS_ENABLE :: u8 where "FUNCTIONFS_ENABLE = 2"
definition FUNCTIONFS_DISABLE :: u8 where "FUNCTIONFS_DISABLE = 3"
definition FUNCTIONFS_SETUP :: u8 where "FUNCTIONFS_SETUP = 4"
definition FUNCTIONFS_SUSPEND :: u8 where "FUNCTIONFS_SUSPEND = 5"
definition FUNCTIONFS_RESUME :: u8 where "FUNCTIONFS_RESUME = 6"

lemmas functionfs_codes = FUNCTIONFS_BIND_def FUNCTIONFS_UNBIND_def FUNCTIONFS_ENABLE_def
  FUNCTIONFS_DISABLE_def FUNCTIONFS_SETUP_def FUNCTIONFS_SUSPEND_def FUNCTIONFS_RESUME_def

section \<open>Events\<close>

datatype UsbFunctionFsEventType = EvBind | EvUnbind | EvEnable | EvDisable | EvSetup | EvSuspend | EvResume

datatype UsbFunctionFsEventTypeError = UsbFunctionFsEventTypeError u8

definition event_type_try_from :: "u8 \<Rightarrow> UsbFunctionFsEventTypeError + UsbFunctionFsEventType" where
  "event_type_try_from value =
     (if value = FUNCTIONFS_BIND then Inr EvBind
      else if value = FUNCTIONFS_UNBIND then Inr EvUnbind
      else if value = FUNCTIONFS_ENABLE then Inr EvEnable
      else if value = FUNCTIONFS_DISABLE then Inr EvDisable
      else if value = FUNCTIONFS_SETUP then Inr EvSetup
      else if value = FUNCTIONFS_SUSPEND then Inr EvSuspend
      else if value = FUNCTIONFS_RESUME then Inr EvResume
      else Inl (UsbFunctionFsEventTypeError value))"

fun u8_of_event_type :: "UsbFunctionFsEventType \<Rightarrow> u8" where
  "u8_of_event_type EvBind = FUNCTIONFS_BIND"
| "u8_of_event_type EvUnbind = FUNCTIONFS_UNBIND"
| "u8_of_event_type EvEnable = FUNCTIONFS_ENABLE"
| "u8_of_event_type EvDisable = FUNCTIONFS_DISABLE"
| "u8_of_event_type EvSetup = FUNCTIONFS_SETUP"
| "u8_of_event_type EvSuspend = FUNCTIONFS_SUSPEND"
| "u8_of_event_type EvResume = FUNCTIONFS_RESUME"

text \<open>The packed event: eight bytes of control request, the type, three bytes of padding.\<close>

definition FFS_EVENT_SIZE :: nat where "FFS_EVENT_SIZE = 12"
definition FFS_EVENT_TYPE_OFFSET :: nat where "FFS_EVENT_TYPE_OFFSET = 8"

text \<open>The decimal digits of a number, as \<open>Display\<close> prints it.\<close>

fun dec_digits :: "nat \<Rightarrow> bytes" where
  "dec_digits n = (if n < 10 then [of_nat n + 0x30] else dec_digits (n div 10) @ [of_nat (n mod 10) + 0x30])"

declare dec_digits.simps [simp del]

definition event_type_error_msg :: "UsbFunctionFsEventTypeError \<Rightarrow> bytes" where
  "event_type_error_msg e =
     (case e of UsbFunctionFsEventTypeError v \<Rightarrow>
        bytes_of ''Unknown FunctionFs Event Type: '' @ dec_digits (unat v))"

definition read_next_ffs_event_type :: "'w kernel \<Rightarrow> fd \<Rightarrow> ('w, UsbFunctionFsEventType) io" where
  "read_next_ffs_event_type K ep0 =
     io_bind (k_read K ep0 FFS_EVENT_SIZE) (\<lambda>buf.
       if length buf < FFS_EVENT_SIZE then io_err (bytes_of ''short ep0 event read'')
       else
         (case event_type_try_from (buf ! FFS_EVENT_TYPE_OFFSET) of
           Inr t \<Rightarrow> io_ok t
         | Inl e \<Rightarrow> io_err (event_type_error_msg e)))"

section \<open>The gadget\<close>

text \<open>\<open>format!("{:#06x}")\<close> and \<open>format!("{:#x}")\<close>: lower-case hexadecimal with the prefix, padded
  with zeros to a total width.\<close>

definition hex_digit :: "nat \<Rightarrow> u8" where
  "hex_digit d = (if d < 10 then of_nat d + 0x30 else of_nat (d - 10) + 0x61)"

fun hex_digits :: "nat \<Rightarrow> bytes" where
  "hex_digits n = (if n < 16 then [hex_digit n] else hex_digits (n div 16) @ [hex_digit (n mod 16)])"

declare hex_digits.simps [simp del]

definition format_hex :: "nat \<Rightarrow> u16 \<Rightarrow> bytes" where
  "format_hex width v =
     (let ds = hex_digits (unat v) in
      bytes_of ''0x'' @ replicate (width - 2 - length ds) 0x30 @ ds)"

text \<open>\<open>Path::join\<close> with a relative path.\<close>

definition path_join :: "path \<Rightarrow> path \<Rightarrow> path" where
  "path_join a b =
     (if b \<noteq> [] \<and> hd b = 0x2F then b
      else if a = [] \<or> last a = 0x2F then a @ b
      else a @ [0x2F] @ b)"

definition setup_gadget :: "'e dmidecode \<Rightarrow> 'w kernel \<Rightarrow> ('w, unit) io" where
  "setup_gadget D K =
     (let gadget_path = GADGET_PATH;
          strings_path = path_join gadget_path (bytes_of ''strings'');
          strings_en_path = path_join strings_path (format_hex 0 USB_LANG_EN_US);
          config_path = path_join gadget_path (bytes_of ''configs/c.1'');
          config_strings_path = path_join config_path (bytes_of ''strings'');
          config_strings_en_path = path_join config_strings_path (format_hex 0 USB_LANG_EN_US);
          function_path = path_join gadget_path (bytes_of ''functions/ffs.adb'');
          link = path_join config_path (bytes_of ''ffs.adb'')
      in
      io_bind (k_create_dir_all K FFS_PATH) (\<lambda>_.
      io_bind (k_create_dir_all K gadget_path) (\<lambda>_.
      io_bind (k_write_file K (path_join gadget_path (bytes_of ''idVendor''))
                 (format_hex 6 USB_VENDOR_ID_GOOGLE)) (\<lambda>_.
      io_bind (k_write_file K (path_join gadget_path (bytes_of ''idProduct''))
                 (format_hex 6 USB_PRODUCT_ID_ADB)) (\<lambda>_.
      io_bind (k_create_dir_all K strings_en_path) (\<lambda>_.
      io_bind (k_write_file K (path_join strings_en_path (bytes_of ''manufacturer'')) ADB_MANUFACTURER_EN) (\<lambda>_.
      io_bind (k_write_file K (path_join strings_en_path (bytes_of ''product'')) ADB_PRODUCT_EN) (\<lambda>_.
      io_bind (\<lambda>w. case from_system D K w of (info, w') \<Rightarrow> (Inr info, w')) (\<lambda>info.
      io_bind (k_write_file K (path_join strings_en_path (bytes_of ''serialnumber'')) (serial info)) (\<lambda>_.
      io_bind (k_create_dir_all K config_path) (\<lambda>_.
      io_bind (k_create_dir_all K config_strings_en_path) (\<lambda>_.
      io_bind (k_write_file K (path_join config_strings_en_path (bytes_of ''configuration'')) (bytes_of ''adb'')) (\<lambda>_.
      io_bind (k_create_dir_all K function_path) (\<lambda>_.
      io_bind (k_exists K link) (\<lambda>there.
      if \<not> there then k_symlink K function_path link else io_ok ())))))))))))))))"

definition find_udc :: "'w kernel \<Rightarrow> ('w, bytes) io" where
  "find_udc K =
     io_bind (k_read_dir K (bytes_of ''/sys/class/udc'')) (\<lambda>entries.
       case entries of
         [] \<Rightarrow> io_err (bytes_of ''no UDC found'')
       | Inl e # _ \<Rightarrow> io_err e
       | Inr n # _ \<Rightarrow> io_ok n)"

definition bind_udc :: "'w kernel \<Rightarrow> ('w, unit) io" where
  "bind_udc K =
     io_bind (find_udc K) (\<lambda>udc. k_write_file K (path_join GADGET_PATH (bytes_of ''UDC'')) udc)"

definition unbind_udc :: "'w kernel \<Rightarrow> ('w, unit) io" where
  "unbind_udc K = k_write_file K (path_join GADGET_PATH (bytes_of ''UDC'')) []"

section \<open>Reading an event\<close>

lemma event_type_try_from_Inr_iff:
  "event_type_try_from v = Inr t \<longleftrightarrow> v = u8_of_event_type t"
  by (cases t) (auto simp: event_type_try_from_def functionfs_codes)

lemma read_event_Inr_iff:
  "read_next_ffs_event_type K ep0 w = (Inr t, w') \<longleftrightarrow>
     (\<exists>buf. k_read K ep0 FFS_EVENT_SIZE w = (Inr buf, w') \<and> FFS_EVENT_SIZE \<le> length buf
        \<and> buf ! FFS_EVENT_TYPE_OFFSET = u8_of_event_type t)"
proof -
  have "(if length buf < FFS_EVENT_SIZE then io_err msg
      else case event_type_try_from (buf ! FFS_EVENT_TYPE_OFFSET) of
             Inr t \<Rightarrow> io_ok t | Inl e \<Rightarrow> io_err (event_type_error_msg e)) w1 = (Inr t, w')
    \<longleftrightarrow> w1 = w' \<and> FFS_EVENT_SIZE \<le> length buf \<and> buf ! FFS_EVENT_TYPE_OFFSET = u8_of_event_type t"
    for buf msg and w1 :: 'a
    by (cases "event_type_try_from (buf ! FFS_EVENT_TYPE_OFFSET)")
      (auto simp: io_err_def io_ok_def simp flip: event_type_try_from_Inr_iff)
  then show ?thesis
    by (auto simp: read_next_ffs_event_type_def io_bind_Inr_iff)
qed

end
