(* ===== verification/Connection.thy ===== *)
theory Connection
  imports Message Buffers User_Data Streams Ffs
begin

text \<open>
  The handlers of an ADB session (\<open>AdbConnection\<close>, \<open>src/main.rs\<close>). A handler takes the
  connection, the submission queue of the ring and the world, and returns them changed, or panics.
  The \<open>io_uring\<close> crate is not part of the repository: the queue is of an arbitrary type,
  \<open>sq_push\<close> (a push, refused when the queue is full) and \<open>sq_submit\<close> (the queue after the kernel
  took its entries) are parameters, and so is the text of a system error number. A submission names its buffer: a slot of the write pool, the bulk-out
  buffer, or the read buffer of a stream's service.
\<close>

section \<open>Submissions\<close>

datatype buf_ref = WriteSlot u32 | BulkOutBuf | StreamBuf u32

datatype opcode = OpRead fd buf_ref u32 | OpWrite fd buf_ref u32 | OpPollAdd fd u32

record sqe =
  sqe_op :: opcode
  sqe_user_data :: u64
  sqe_link :: bool

text \<open>The code outside the repository and the build profile.\<close>

record ('w, 'q) ext =
  parsers :: winnow
  sys :: "'w kernel"
  sq_push :: "sqe \<Rightarrow> 'q \<Rightarrow> 'q option"
  sq_submit :: "'q \<Rightarrow> 'q"
  os_error_msg :: "int \<Rightarrow> io_error"
  overflow_checks :: bool

record AdbConnection =
  ep0 :: fd
  bulk_in :: fd
  bulk_out :: fd
  info :: DeviceInfo
  buffers :: BufferManager
  conn_streams :: StreamManager
  version :: ProtocolVersion

text \<open>What a handler works on.\<close>

record ('w, 'q) session =
  conn :: AdbConnection
  sq :: 'q
  world :: 'w

type_synonym ('w, 'q) handler = "('w, 'q) session \<Rightarrow> ('w, 'q) session rust"

definition new_connection :: "fd \<Rightarrow> fd \<Rightarrow> fd \<Rightarrow> DeviceInfo \<Rightarrow> AdbConnection" where
  "new_connection ep0_fd bulk_out_fd bulk_in_fd dev_info =
     \<lparr>ep0 = ep0_fd, bulk_in = bulk_in_fd, bulk_out = bulk_out_fd, info = dev_info,
      buffers = new_buffers, conn_streams = new_streams, version = V0\<rparr>"

section \<open>Submitting\<close>

definition push :: "('w, 'q) ext \<Rightarrow> sqe \<Rightarrow> ('w, 'q) handler" where
  "push X e st = rbind (expect ''SQ full'' (sq_push X e (sq st))) (\<lambda>q. Inr (st\<lparr>sq := q\<rparr>))"

definition submit_ep0_poll :: "('w, 'q) ext \<Rightarrow> ('w, 'q) handler" where
  "submit_ep0_poll X st =
     push X \<lparr>sqe_op = OpPollAdd (ep0 (conn st)) 1,
             sqe_user_data = u64_of_user_data (user_data_new Ep0Poll None), sqe_link = False\<rparr> st"

definition submit_bulk_out_read :: "('w, 'q) ext \<Rightarrow> nat \<Rightarrow> UserData \<Rightarrow> ('w, 'q) handler" where
  "submit_bulk_out_read X buf_len ud st =
     rbind (expect ''The buffer is at most 1MB and will fit in a u32'' (try_u32 buf_len)) (\<lambda>len.
     push X \<lparr>sqe_op = OpRead (bulk_out (conn st)) BulkOutBuf len,
             sqe_user_data = u64_of_user_data ud, sqe_link = False\<rparr> st)"

text \<open>One buffer of a message: take a slot, fill it, queue its write under a tag that names the slot.\<close>

definition submit_buffer :: "('w, 'q) ext \<Rightarrow> bytes \<Rightarrow> bool \<Rightarrow> ('w, 'q) handler" where
  "submit_buffer X d link st =
     rbind (alloc (length d) (buffers (conn st))) (\<lambda>(slot, pool).
     rbind (expect ''buffer length fits in u32'' (try_u32 (length d))) (\<lambda>len.
     rbind (expect ''Buffer slot 0 cannot exist'' (nonzero_new slot)) (\<lambda>nz.
     push X \<lparr>sqe_op = OpWrite (bulk_in (conn st)) (WriteSlot slot) len,
             sqe_user_data = u64_of_user_data (user_data_new BulkInWrite (Some nz)),
             sqe_link = link\<rparr>
       (st\<lparr>conn := (conn st)\<lparr>buffers := extend_slot slot d pool\<rparr>\<rparr>))))"

definition submit_message :: "('w, 'q) ext \<Rightarrow> AdbHeader \<Rightarrow> bytes option \<Rightarrow> ('w, 'q) handler" where
  "submit_message X header payload st =
     (let payload = (case payload of Some (b # bs) \<Rightarrow> Some (b # bs) | _ \<Rightarrow> None) in
      rbind (submit_buffer X (as_le_bytes_header header) (payload \<noteq> None) st) (\<lambda>st.
      case payload of
        None \<Rightarrow> Inr st
      | Some p \<Rightarrow> submit_buffer X p False st))"

text \<open>Build a header and submit it.\<close>

definition send_okay :: "('w, 'q) ext \<Rightarrow> u32 \<Rightarrow> u32 \<Rightarrow> ('w, 'q) handler" where
  "send_okay X local rid st =
     rbind (okay_header (overflow_checks X) (version (conn st)) local rid) (\<lambda>h.
     submit_message X h None st)"

definition send_clse :: "('w, 'q) ext \<Rightarrow> u32 \<Rightarrow> u32 \<Rightarrow> ('w, 'q) handler" where
  "send_clse X local rid st =
     rbind (clse_header (overflow_checks X) (version (conn st)) local rid) (\<lambda>h.
     submit_message X h None st)"

definition send_wrte :: "('w, 'q) ext \<Rightarrow> u32 \<Rightarrow> u32 \<Rightarrow> bytes \<Rightarrow> ('w, 'q) handler" where
  "send_wrte X local rid d st =
     rbind (wrte_header (overflow_checks X) (version (conn st)) local rid d) (\<lambda>h.
     submit_message X h (Some d) st)"

section \<open>Streams of the connection\<close>

definition get_stream :: "('w, 'q) session \<Rightarrow> u32 \<Rightarrow> Stream option" where
  "get_stream st i = get (conn_streams (conn st)) i"

definition put_stream :: "u32 \<Rightarrow> Stream \<Rightarrow> ('w, 'q) session \<Rightarrow> ('w, 'q) session" where
  "put_stream i s st =
     st\<lparr>conn := (conn st)\<lparr>conn_streams := set_stream i s (conn_streams (conn st))\<rparr>\<rparr>"

definition close_stream :: "('w, 'q) ext \<Rightarrow> u32 \<Rightarrow> ('w, 'q) session \<Rightarrow> ('w, 'q) session" where
  "close_stream X i st =
     (case stream_close (sys X) i (conn_streams (conn st)) (world st) of
       (m, w) \<Rightarrow> st\<lparr>conn := (conn st)\<lparr>conn_streams := m\<rparr>, world := w\<rparr>)"

definition submit_wrte_sync ::
  "('w, 'q) ext \<Rightarrow> u32 \<Rightarrow> u32 \<Rightarrow> SyncFrameResponseHeader \<Rightarrow> bytes \<Rightarrow> ('w, 'q) handler" where
  "submit_wrte_sync X local rid hdr payload st =
     (let sync_payload = as_le_bytes_response hdr @ payload in
      send_wrte X local rid sync_payload st)"

definition maybe_submit_wrte_sync :: "('w, 'q) ext \<Rightarrow> u32 \<Rightarrow> ('w, 'q) handler" where
  "maybe_submit_wrte_sync X local st =
     (case get_stream st local of
       None \<Rightarrow> Inr st
     | Some s \<Rightarrow>
         if waiting_for_okay s then Inr st
         else
           (case service s of
             SvcSync svc \<Rightarrow>
               (case sync_state svc of
                 Sending sender \<Rightarrow>
                   rbind (next_frame (sys X) sender (world st)) (\<lambda>(frame, sender', w).
                   case frame of
                     Some (hdr, d) \<Rightarrow>
                       submit_wrte_sync X local (remote_id s) hdr d
                         (put_stream local
                            (s\<lparr>service := SvcSync (svc\<lparr>sync_state := Sending sender'\<rparr>),
                               waiting_for_okay := True\<rparr>) (st\<lparr>world := w\<rparr>))
                   | None \<Rightarrow>
                       Inr (put_stream local (s\<lparr>service := SvcSync (svc\<lparr>sync_state := Idle\<rparr>)\<rparr>)
                              (st\<lparr>world := drop_sync_state (sys X) (Sending sender') w\<rparr>)))
               | _ \<Rightarrow> Inr st)
           | _ \<Rightarrow> Inr st))"

definition maybe_submit_pty_read :: "('w, 'q) ext \<Rightarrow> u32 \<Rightarrow> ('w, 'q) handler" where
  "maybe_submit_pty_read X local st =
     (case get_stream st local of
       None \<Rightarrow> Inr st
     | Some s \<Rightarrow>
         if waiting_for_okay s then Inr st
         else
           (case service s of
             SvcShell shell \<Rightarrow>
               rbind (sh_read_buf_capacity shell) (\<lambda>cap.
               rbind (expect ''Service ID 0 cannot exist'' (nonzero_new local)) (\<lambda>nz.
               push X \<lparr>sqe_op = OpRead (master_raw_fd shell) (StreamBuf local) cap,
                       sqe_user_data = u64_of_user_data (user_data_new PtyRead (Some nz)),
                       sqe_link = False\<rparr> st))
           | _ \<Rightarrow> Inr st))"

definition maybe_submit_socket_read :: "('w, 'q) ext \<Rightarrow> u32 \<Rightarrow> ('w, 'q) handler" where
  "maybe_submit_socket_read X local st =
     (case get_stream st local of
       None \<Rightarrow> Inr st
     | Some s \<Rightarrow>
         if waiting_for_okay s then Inr st
         else
           (case service s of
             SvcForward fwd \<Rightarrow>
               rbind (fw_read_buf_capacity fwd) (\<lambda>cap.
               rbind (expect ''Service ID 0 cannot exist'' (nonzero_new local)) (\<lambda>nz.
               push X \<lparr>sqe_op = OpRead (fw_as_raw_fd fwd) (StreamBuf local) cap,
                       sqe_user_data = u64_of_user_data (user_data_new SocketRead (Some nz)),
                       sqe_link = False\<rparr> st))
           | _ \<Rightarrow> Inr st))"

definition maybe_continue_stream :: "('w, 'q) ext \<Rightarrow> u32 \<Rightarrow> ('w, 'q) handler" where
  "maybe_continue_stream X local st =
     (case get_stream st local of
       None \<Rightarrow> Inr st
     | Some s \<Rightarrow>
         (case service s of
           SvcSync _ \<Rightarrow> maybe_submit_wrte_sync X local st
         | SvcShell _ \<Rightarrow> maybe_submit_pty_read X local st
         | SvcForward _ \<Rightarrow> maybe_submit_socket_read X local st
         | SvcReboot \<Rightarrow> Inl ''internal error: entered unreachable code''))"

section \<open>Commands\<close>

definition handle_command_clse :: "('w, 'q) ext \<Rightarrow> AdbHeader \<Rightarrow> ('w, 'q) handler" where
  "handle_command_clse X header st =
     (let local = arg1 header in
      case get_stream st local of
        None \<Rightarrow> Inr st
      | Some s \<Rightarrow>
          rbind (assert_that ''CLSE remote_id mismatch'' (remote_id s = arg0 header)) (\<lambda>_.
          case service s of
            SvcForward fwd \<Rightarrow>
              let w = snd (shutdown_write (sys X) fwd (world st)) in
              Inr (put_stream local (s\<lparr>remote_closed := True\<rparr>) (st\<lparr>world := w\<rparr>))
          | _ \<Rightarrow>
              rbind (send_clse X local (remote_id s) st) (\<lambda>st. Inr (close_stream X local st))))"

definition handle_command_cnxn :: "('w, 'q) ext \<Rightarrow> AdbHeader \<Rightarrow> bytes \<Rightarrow> ('w, 'q) handler" where
  "handle_command_cnxn X header payload st =
     (let recv_version = (case version_try_from (arg0 header) of Inr v \<Rightarrow> v | Inl _ \<Rightarrow> V0);
          st = st\<lparr>conn := (conn st)\<lparr>version := recv_version\<rparr>\<rparr>
      in
      rbind (cnxn_response (overflow_checks X) recv_version (info (conn st))) (\<lambda>(h, p).
      submit_message X h (Some p) st))"

definition handle_command_okay :: "('w, 'q) ext \<Rightarrow> AdbHeader \<Rightarrow> ('w, 'q) handler" where
  "handle_command_okay X header st =
     (let local = arg1 header;
          st = (case get_stream st local of
                  None \<Rightarrow> st
                | Some s \<Rightarrow> put_stream local (s\<lparr>waiting_for_okay := False\<rparr>) st)
      in maybe_continue_stream X local st)"

definition handle_command_open :: "('w, 'q) ext \<Rightarrow> AdbHeader \<Rightarrow> bytes \<Rightarrow> ('w, 'q) handler" where
  "handle_command_open X header payload st =
     (let rid = arg0 header in
      case from_bytes_until_nul payload of
        None \<Rightarrow> send_clse X 0 rid st
      | Some svc \<Rightarrow>
          if \<not> utf8_valid svc then send_clse X 0 rid st
          else
            rbind (stream_open (overflow_checks X) (sys X) rid svc (conn_streams (conn st)) (world st))
              (\<lambda>(opened, m, w).
              let st = st\<lparr>conn := (conn st)\<lparr>conn_streams := m\<rparr>, world := w\<rparr> in
              case opened of
                None \<Rightarrow> send_clse X 0 rid st
              | Some local \<Rightarrow>
                  rbind (send_okay X local rid st) (\<lambda>st.
                  rbind (expect ''We just opened our stream successfully.'' (get_stream st local)) (\<lambda>s.
                  case service s of
                    SvcShell _ \<Rightarrow> maybe_submit_pty_read X local st
                  | SvcForward _ \<Rightarrow> maybe_submit_socket_read X local st
                  | SvcSync _ \<Rightarrow> Inr st
                  | SvcReboot \<Rightarrow>
                      Inr (st\<lparr>world := snd (k_spawn (sys X) (bytes_of ''reboot'') [] None (world st))\<rparr>)))))"

definition close_with_clse :: "('w, 'q) ext \<Rightarrow> u32 \<Rightarrow> u32 \<Rightarrow> ('w, 'q) handler" where
  "close_with_clse X local rid st =
     rbind (send_clse X local rid st) (\<lambda>st. Inr (close_stream X local st))"

text \<open>The sync arm of WRTE, by the service's answer.\<close>

definition wrte_sync :: "('w, 'q) ext \<Rightarrow> u32 \<Rightarrow> Stream \<Rightarrow> SyncService \<Rightarrow> bytes \<Rightarrow> ('w, 'q) handler" where
  "wrte_sync X local s svc payload st =
     rbind (handle (sys X) (parsers X) svc payload (world st)) (\<lambda>(res, svc', w).
     let st = put_stream local (s\<lparr>service := SvcSync svc'\<rparr>) (st\<lparr>world := w\<rparr>) in
     case res of
       SrStat stat \<Rightarrow> send_wrte X local (remote_id s) (as_le_bytes_stat stat) st
     | SrData hdr d \<Rightarrow> submit_wrte_sync X local (remote_id s) hdr d st
     | SrContinue \<Rightarrow> maybe_submit_wrte_sync X local st
     | SrQuit \<Rightarrow> close_with_clse X local (remote_id s) st)"

definition handle_command_wrte :: "('w, 'q) ext \<Rightarrow> AdbHeader \<Rightarrow> bytes \<Rightarrow> ('w, 'q) handler" where
  "handle_command_wrte X header payload st =
     (let rid = arg0 header; local = arg1 header in
      rbind (send_okay X local rid st) (\<lambda>st.
      case get_stream st local of
        None \<Rightarrow> Inr st
      | Some s \<Rightarrow>
          (case service s of
            SvcSync svc \<Rightarrow> wrte_sync X local s svc payload st
          | SvcShell shell \<Rightarrow>
              (case sh_write_input (sys X) shell payload (world st) of
                (Inr _, w) \<Rightarrow> Inr (st\<lparr>world := w\<rparr>)
              | (Inl _, w) \<Rightarrow> close_with_clse X local (remote_id s) (st\<lparr>world := w\<rparr>))
          | SvcForward fwd \<Rightarrow>
              (case fw_write_input (sys X) fwd payload (world st) of
                None \<Rightarrow> Inl ''write_input does not return''
              | Some (Inr _, w) \<Rightarrow> Inr (st\<lparr>world := w\<rparr>)
              | Some (Inl _, w) \<Rightarrow> close_with_clse X local (remote_id s) (st\<lparr>world := w\<rparr>))
          | SvcReboot \<Rightarrow> Inl ''internal error: entered unreachable code'')))"

definition handle_command :: "('w, 'q) ext \<Rightarrow> AdbHeader \<Rightarrow> bytes option \<Rightarrow> ('w, 'q) handler" where
  "handle_command X header payload st =
     (case command header of
       Cnxn \<Rightarrow> rbind (expect ''CNXN requires a payload'' payload) (\<lambda>p. handle_command_cnxn X header p st)
     | Open \<Rightarrow> rbind (expect ''OPEN requires a payload'' payload) (\<lambda>p. handle_command_open X header p st)
     | Wrte \<Rightarrow> rbind (expect ''WRTE requires a payload'' payload) (\<lambda>p. handle_command_wrte X header p st)
     | Okay \<Rightarrow>
         rbind (assert_that ''OKAY must not carry a payload'' (payload = None)) (\<lambda>_.
         handle_command_okay X header st)
     | Clse \<Rightarrow> handle_command_clse X header st
     | _ \<Rightarrow> Inr st)"

definition handle_ep0_event :: "('w, 'q) ext \<Rightarrow> ('w, 'q) session \<Rightarrow> bool \<times> ('w, 'q) session" where
  "handle_ep0_event X st =
     (case read_next_ffs_event_type (sys X) (ep0 (conn st)) (world st) of
       (Inr ev, w) \<Rightarrow> (ev = EvDisable \<or> ev = EvUnbind, st\<lparr>world := w\<rparr>)
     | (Inl _, w) \<Rightarrow> (True, st\<lparr>world := w\<rparr>))"

end
