(* ===== verification/Event_Loop.thy ===== *)
theory Event_Loop
  imports Connection "HOL-Library.Multiset"
begin

text \<open>
  The event loop of a session (\<open>AdbConnection::run\<close>, \<open>src/main.rs\<close>): the dispatch of a completion,
  the batches of completions between two waits, and the ring around it as a step relation. A
  completion carries the tag of its submission, the result, and the bytes the kernel put into the
  buffer of a read; \<open>deliver\<close> is that write to memory, which happens before the loop sees the
  completion.
\<close>

section \<open>Completions\<close>

record cqe =
  cq_user_data :: u64
  cq_result :: int
  cq_bytes :: bytes

record ('w, 'q) loop_state =
  sess :: "('w, 'q) session"
  pending_header :: "AdbHeader option"
  bulk_out_buf :: bytes

text \<open>The loop goes on, or \<open>run\<close> returns.\<close>

datatype 's flow = Go 's | Return "io_error + unit"

fun op_debug :: "UserDataOpType \<Rightarrow> rstr" where
  "op_debug Ep0Poll = bytes_of ''Ep0Poll''"
| "op_debug BulkOutReadHeader = bytes_of ''BulkOutReadHeader''"
| "op_debug BulkOutReadPayload = bytes_of ''BulkOutReadPayload''"
| "op_debug BulkInWrite = bytes_of ''BulkInWrite''"
| "op_debug PtyRead = bytes_of ''PtyRead''"
| "op_debug SocketRead = bytes_of ''SocketRead''"

definition go_session ::
  "('w, 'q) loop_state \<Rightarrow> ('w, 'q) session rust \<Rightarrow> ('w, 'q) loop_state flow rust" where
  "go_session ls r = rbind r (\<lambda>st. Inr (Go (ls\<lparr>sess := st\<rparr>)))"

text \<open>A read of a stream's descriptor ended the stream: CLSE if it still exists, then close it.\<close>

definition stream_ended :: "('w, 'q) ext \<Rightarrow> u32 \<Rightarrow> ('w, 'q) handler" where
  "stream_ended X local st =
     (case get_stream st local of
       None \<Rightarrow> Inr (close_stream X local st)
     | Some s \<Rightarrow> rbind (send_clse X local (remote_id s) st) (\<lambda>st. Inr (close_stream X local st)))"

definition pty_data :: "('w, 'q) ext \<Rightarrow> u32 \<Rightarrow> nat \<Rightarrow> ('w, 'q) handler" where
  "pty_data X local len st =
     (case get_stream st local of
       None \<Rightarrow> Inr st
     | Some s \<Rightarrow>
         (case service s of
           SvcShell shell \<Rightarrow>
             send_wrte X local (remote_id s) (sh_read_buf_data shell len)
               (put_stream local (s\<lparr>waiting_for_okay := True\<rparr>) st)
         | _ \<Rightarrow> Inr st))"

definition socket_data :: "('w, 'q) ext \<Rightarrow> u32 \<Rightarrow> nat \<Rightarrow> ('w, 'q) handler" where
  "socket_data X local len st =
     (case get_stream st local of
       None \<Rightarrow> Inr st
     | Some s \<Rightarrow>
         (case service s of
           SvcForward fwd \<Rightarrow>
             send_wrte X local (remote_id s) (fw_read_buf_data fwd len)
               (put_stream local (s\<lparr>waiting_for_okay := True\<rparr>) st)
         | _ \<Rightarrow> Inr st))"

definition free_slot :: "('w, 'q) ext \<Rightarrow> u32 \<Rightarrow> ('w, 'q) handler" where
  "free_slot X slot st =
     rbind (free (overflow_checks X) slot (buffers (conn st))) (\<lambda>b.
     Inr (st\<lparr>conn := (conn st)\<lparr>buffers := b\<rparr>\<rparr>))"

text \<open>\<open>&bulk_out_buf[..len]\<close>.\<close>

definition bulk_slice :: "nat \<Rightarrow> bytes \<Rightarrow> bytes rust" where
  "bulk_slice len buf =
     (if len \<le> length buf then Inr (take len buf) else Inl ''range end index out of range for slice'')"

definition read_again :: "('w, 'q) ext \<Rightarrow> UserDataOpType \<Rightarrow> ('w, 'q) loop_state \<Rightarrow> ('w, 'q) loop_state flow rust" where
  "read_again X op ls =
     go_session ls (submit_bulk_out_read X (length (bulk_out_buf ls)) (user_data_new op None) (sess ls))"

definition header_read :: "('w, 'q) ext \<Rightarrow> nat \<Rightarrow> ('w, 'q) loop_state \<Rightarrow> ('w, 'q) loop_state flow rust" where
  "header_read X len ls =
     rbind (bulk_slice len (bulk_out_buf ls)) (\<lambda>d.
     case parse_header (parsers X) d of
       Some (header, _) \<Rightarrow>
         if 0 < data_length header
         then read_again X BulkOutReadPayload (ls\<lparr>pending_header := Some header\<rparr>)
         else
           rbind (handle_command X header None (sess ls)) (\<lambda>st.
           read_again X BulkOutReadHeader (ls\<lparr>sess := st\<rparr>))
     | None \<Rightarrow> read_again X BulkOutReadHeader ls)"

definition payload_command :: "('w, 'q) ext \<Rightarrow> nat \<Rightarrow> ('w, 'q) loop_state \<Rightarrow> ('w, 'q) loop_state rust" where
  "payload_command X len ls =
     (case pending_header ls of
       Some header \<Rightarrow>
         let ls = ls\<lparr>pending_header := None\<rparr> in
         rbind (bulk_slice len (bulk_out_buf ls)) (\<lambda>d.
         rbind (if requires_checksum (version (conn (sess ls)))
                then rbind (checksum (overflow_checks X) d) (\<lambda>c. Inr (c \<noteq> data_check header))
                else Inr False) (\<lambda>mismatch.
         if mismatch then Inr ls
         else
           rbind (handle_command X header (Some d) (sess ls)) (\<lambda>st.
           Inr (ls\<lparr>sess := st\<rparr>))))
     | None \<Rightarrow> Inr ls)"

definition payload_read :: "('w, 'q) ext \<Rightarrow> nat \<Rightarrow> ('w, 'q) loop_state \<Rightarrow> ('w, 'q) loop_state flow rust" where
  "payload_read X len ls = rbind (payload_command X len ls) (read_again X BulkOutReadHeader)"

definition op_error :: "('w, 'q) ext \<Rightarrow> UserDataOpType \<Rightarrow> int \<Rightarrow> io_error" where
  "op_error X op res = op_debug op @ bytes_of '' error: '' @ os_error_msg X (- res)"

definition process_cqe :: "('w, 'q) ext \<Rightarrow> cqe \<Rightarrow> ('w, 'q) loop_state \<Rightarrow> ('w, 'q) loop_state flow rust" where
  "process_cqe X c ls =
     rbind (user_data_try_from (cq_user_data c)) (\<lambda>decoded.
     case decoded of
       Inl _ \<Rightarrow> Inr (Go ls)
     | Inr ud \<Rightarrow>
         let res = cq_result c in
         (case op_type ud of
           PtyRead \<Rightarrow>
             (case data ud of
               Some local \<Rightarrow>
                 go_session ls
                   (if res \<le> 0 then stream_ended X local (sess ls) else pty_data X local (nat res) (sess ls))
             | None \<Rightarrow> Inl ''internal error: entered unreachable code'')
         | SocketRead \<Rightarrow>
             (case data ud of
               Some local \<Rightarrow>
                 go_session ls
                   (if res \<le> 0 then stream_ended X local (sess ls) else socket_data X local (nat res) (sess ls))
             | None \<Rightarrow> Inl ''internal error: entered unreachable code'')
         | BulkInWrite \<Rightarrow>
             (case data ud of
               Some slot \<Rightarrow> go_session ls (free_slot X slot (sess ls))
             | None \<Rightarrow>
                 if res < 0 then Inr (Return (Inl (op_error X BulkInWrite res)))
                 else Inl ''internal error: entered unreachable code'')
         | Ep0Poll \<Rightarrow>
             if res < 0 then Inr (Return (Inl (op_error X Ep0Poll res)))
             else
               (case handle_ep0_event X (sess ls) of
                 (True, st) \<Rightarrow> Inr (Return (Inr ()))
               | (False, st) \<Rightarrow> go_session ls (submit_ep0_poll X st))
         | BulkOutReadHeader \<Rightarrow>
             if res < 0 then Inr (Return (Inl (op_error X BulkOutReadHeader res)))
             else header_read X (nat res) ls
         | BulkOutReadPayload \<Rightarrow>
             if res < 0 then Inr (Return (Inl (op_error X BulkOutReadPayload res)))
             else payload_read X (nat res) ls))"

section \<open>The loop\<close>

text \<open>What the kernel has written to memory by the time a completion is seen.\<close>

definition deliver :: "cqe \<Rightarrow> ('w, 'q) loop_state \<Rightarrow> ('w, 'q) loop_state" where
  "deliver c ls =
     (case user_data_try_from (cq_user_data c) of
       Inr (Inr ud) \<Rightarrow>
         (case (op_type ud, data ud) of
           (BulkOutReadHeader, _) \<Rightarrow> ls\<lparr>bulk_out_buf := copy_at 0 (cq_bytes c) (bulk_out_buf ls)\<rparr>
         | (BulkOutReadPayload, _) \<Rightarrow> ls\<lparr>bulk_out_buf := copy_at 0 (cq_bytes c) (bulk_out_buf ls)\<rparr>
         | (PtyRead, Some i) \<Rightarrow>
             (case get_stream (sess ls) i of
               Some s \<Rightarrow>
                 (case service s of
                   SvcShell sh \<Rightarrow>
                     ls\<lparr>sess := put_stream i (s\<lparr>service := SvcShell (sh\<lparr>sh_read_buf := cq_bytes c\<rparr>)\<rparr>) (sess ls)\<rparr>
                 | _ \<Rightarrow> ls)
             | None \<Rightarrow> ls)
         | (SocketRead, Some i) \<Rightarrow>
             (case get_stream (sess ls) i of
               Some s \<Rightarrow>
                 (case service s of
                   SvcForward fw \<Rightarrow>
                     ls\<lparr>sess := put_stream i (s\<lparr>service := SvcForward (fw\<lparr>fw_read_buf := cq_bytes c\<rparr>)\<rparr>) (sess ls)\<rparr>
                 | _ \<Rightarrow> ls)
             | None \<Rightarrow> ls)
         | _ \<Rightarrow> ls)
     | _ \<Rightarrow> ls)"

fun process_all :: "('w, 'q) ext \<Rightarrow> cqe list \<Rightarrow> ('w, 'q) loop_state \<Rightarrow> ('w, 'q) loop_state flow rust" where
  "process_all X [] ls = Inr (Go ls)"
| "process_all X (c # cs) ls =
     rbind (process_cqe X c ls) (\<lambda>f.
     case f of Return r \<Rightarrow> Inr (Return r) | Go ls' \<Rightarrow> process_all X cs ls')"

text \<open>One turn of the loop: the queue is submitted, a batch of completions comes back (or the wait
  fails), and the batch is processed.\<close>

definition turn ::
  "('w, 'q) ext \<Rightarrow> io_error + cqe list \<Rightarrow> ('w, 'q) loop_state \<Rightarrow> ('w, 'q) loop_state flow rust" where
  "turn X batch ls =
     (case batch of
       Inl e \<Rightarrow> Inr (Return (Inl e))
     | Inr cs \<Rightarrow>
         process_all X cs (fold deliver cs (ls\<lparr>sess := (sess ls)\<lparr>sq := sq_submit X (sq (sess ls))\<rparr>\<rparr>)))"

definition start :: "('w, 'q) ext \<Rightarrow> AdbConnection \<Rightarrow> 'q \<Rightarrow> 'w \<Rightarrow> ('w, 'q) loop_state rust" where
  "start X c q w =
     (let buf = replicate (unat (max_payload PROTOCOL_VERSION)) 0;
          st = \<lparr>conn = c, sq = q, world = w\<rparr>
      in
      rbind (submit_ep0_poll X st) (\<lambda>st.
      rbind (submit_bulk_out_read X (length buf) (user_data_new BulkOutReadHeader None) st) (\<lambda>st.
      Inr \<lparr>sess = st, pending_header = None, bulk_out_buf = buf\<rparr>)))"

text \<open>\<open>run\<close> against the batches the ring returns, one after the other; \<open>Go\<close> is a run that waits
  for the next one. Creating the ring may fail.\<close>

fun turns ::
  "('w, 'q) ext \<Rightarrow> (io_error + cqe list) list \<Rightarrow> ('w, 'q) loop_state \<Rightarrow> ('w, 'q) loop_state flow rust" where
  "turns X [] ls = Inr (Go ls)"
| "turns X (b # bs) ls =
     rbind (turn X b ls) (\<lambda>f. case f of Return r \<Rightarrow> Inr (Return r) | Go ls' \<Rightarrow> turns X bs ls')"

definition run ::
  "('w, 'q) ext \<Rightarrow> AdbConnection \<Rightarrow> io_error + 'q \<Rightarrow> (io_error + cqe list) list \<Rightarrow> 'w
     \<Rightarrow> ('w, 'q) loop_state flow rust" where
  "run X c ring batches w =
     (case ring of
       Inl e \<Rightarrow> Inr (Return (Inl e))
     | Inr q \<Rightarrow> rbind (start X c q w) (turns X batches))"

end
