(* ===== verification/Handler_Invariants.thy ===== *)
theory Handler_Invariants
  imports Event_Loop
begin

text \<open>
  Every handler of the connection touches the ring and the buffer pool through two primitives only:
  queueing one buffer (\<open>submit_buffer\<close>) and queueing the read of a stream's descriptor. The locale
  \<open>session_inv\<close> is what a property of sessions must satisfy for these two; that every command
  handler and every stream completion keeps the property is proved once, inside it.
\<close>

section \<open>Tags\<close>

definition tag_of :: "sqe \<Rightarrow> UserData option" where
  "tag_of e = (case user_data_try_from (sqe_user_data e) of Inr (Inr ud) \<Rightarrow> Some ud | _ \<Rightarrow> None)"

lemma tag_of_packed:
  "user_data_ok ud \<Longrightarrow> sqe_user_data e = u64_of_user_data ud \<Longrightarrow> tag_of e = Some ud"
  by (simp add: tag_of_def user_data_try_from_packed)

lemma tag_of_control [simp]:
  "sqe_user_data e = u64_of_user_data (user_data_new op None) \<Longrightarrow> tag_of e = Some \<lparr>op_type = op, data = None\<rparr>"
  by (simp add: tag_of_packed user_data_ok_def user_data_new_def)

lemma tag_of_numbered [simp]:
  "n \<noteq> 0 \<Longrightarrow> sqe_user_data e = u64_of_user_data (user_data_new op (Some n)) \<Longrightarrow>
     tag_of e = Some \<lparr>op_type = op, data = Some n\<rparr>"
  by (simp add: tag_of_packed user_data_ok_def user_data_new_def)

section \<open>Properties that handlers keep\<close>

definition preserves :: "(('w, 'q) session \<Rightarrow> bool) \<Rightarrow> ('w, 'q) handler \<Rightarrow> bool" where
  "preserves P h \<longleftrightarrow> (\<forall>st st'. P st \<longrightarrow> h st = Inr st' \<longrightarrow> P st')"

lemma preservesD: "preserves P h \<Longrightarrow> h st = Inr st' \<Longrightarrow> P st \<Longrightarrow> P st'"
  by (auto simp: preserves_def)

text \<open>What a session's ring and pool are; the rest is streams, version and world.\<close>

definition session_core :: "('w, 'q) session \<Rightarrow> 'q \<times> BufferManager \<times> fd \<times> fd \<times> fd" where
  "session_core st =
     (sq st, buffers (conn st), ep0 (conn st), bulk_in (conn st), bulk_out (conn st))"

lemma session_core_frame [simp]:
  "session_core (put_stream i s st) = session_core st"
  "session_core (close_stream X i st) = session_core st"
  "session_core (st\<lparr>world := w\<rparr>) = session_core st"
  "session_core (st\<lparr>conn := (conn st)\<lparr>version := v\<rparr>\<rparr>) = session_core st"
  "session_core (st\<lparr>conn := (conn st)\<lparr>conn_streams := m\<rparr>\<rparr>) = session_core st"
  by (simp_all add: session_core_def put_stream_def close_stream_def split: prod.splits)

locale session_inv =
  fixes X :: "('w, 'q) ext"
    and P :: "('w, 'q) session \<Rightarrow> bool"
  assumes core: "session_core st' = session_core st \<Longrightarrow> P st' \<longleftrightarrow> P st"
    and buffer: "preserves P (submit_buffer X d link)"
    and stream_read: "P st \<Longrightarrow> push X e st = Inr st' \<Longrightarrow>
      tag_of e = Some \<lparr>op_type = op, data = Some n\<rparr> \<Longrightarrow> op = PtyRead \<or> op = SocketRead \<Longrightarrow> P st'"
begin

lemma frame [simp]:
  "P (put_stream i s st) \<longleftrightarrow> P st"
  "P (close_stream Y i st) \<longleftrightarrow> P st"
  "P (st\<lparr>world := w\<rparr>) \<longleftrightarrow> P st"
  "P (st\<lparr>conn := (conn st)\<lparr>version := v\<rparr>\<rparr>) \<longleftrightarrow> P st"
  "P (st\<lparr>conn := (conn st)\<lparr>conn_streams := m\<rparr>\<rparr>) \<longleftrightarrow> P st"
  by (rule core, simp)+

lemma submit_message_ok: "preserves (P) (submit_message X h p)"
  unfolding preserves_def submit_message_def Let_def
  by (auto simp: rust_simps split: option.splits list.splits
      intro: preservesD [OF buffer])

lemma send_ok:
  "preserves (P) (send_okay X l r)"
  "preserves (P) (send_clse X l r)"
  "preserves (P) (send_wrte X l r d)"
  unfolding preserves_def send_okay_def send_clse_def send_wrte_def
  by (auto simp: rust_simps intro: preservesD [OF submit_message_ok])

lemma submit_wrte_sync_ok: "preserves (P) (submit_wrte_sync X l r hdr p)"
  unfolding preserves_def submit_wrte_sync_def Let_def by (auto intro: preservesD [OF send_ok(3)])

lemma maybe_submit_wrte_sync_ok: "preserves (P) (maybe_submit_wrte_sync X l)"
  unfolding preserves_def maybe_submit_wrte_sync_def
  by (auto simp: rust_simps split: option.splits if_splits Service.splits SyncState.splits
      intro: preservesD [OF submit_wrte_sync_ok])

lemma maybe_submit_pty_read_ok: "preserves (P) (maybe_submit_pty_read X l)"
  unfolding preserves_def maybe_submit_pty_read_def
  by (auto simp: rust_simps split: option.splits if_splits Service.splits
      elim!: stream_read)

lemma maybe_submit_socket_read_ok: "preserves (P) (maybe_submit_socket_read X l)"
  unfolding preserves_def maybe_submit_socket_read_def
  by (auto simp: rust_simps split: option.splits if_splits Service.splits
      elim!: stream_read)

lemmas maybe_submit_ok = maybe_submit_wrte_sync_ok maybe_submit_pty_read_ok maybe_submit_socket_read_ok

lemma maybe_continue_stream_ok: "preserves (P) (maybe_continue_stream X l)"
  unfolding preserves_def maybe_continue_stream_def
  by (auto split: option.splits Service.splits intro: maybe_submit_ok [THEN preservesD])

lemma close_with_clse_ok: "preserves (P) (close_with_clse X l r)"
  unfolding preserves_def close_with_clse_def
  by (auto simp: rust_simps intro: preservesD [OF send_ok(2)])

lemma handle_clse_ok: "preserves (P) (handle_command_clse X h)"
  unfolding preserves_def handle_command_clse_def Let_def
  by (auto simp: rust_simps split: option.splits Service.splits intro: preservesD [OF send_ok(2)])

lemma handle_cnxn_ok: "preserves (P) (handle_command_cnxn X h p)"
  unfolding preserves_def
proof (intro allI impI)
  fix st st'
  assume ok: "P st" and cn: "handle_command_cnxn X h p st = Inr st'"
  let ?st = "\<lambda>v. st\<lparr>conn := (conn st)\<lparr>version := v\<rparr>\<rparr>"
  from cn obtain v hd pay where "submit_message X hd (Some pay) (?st v) = Inr st'"
    by (auto simp: handle_command_cnxn_def Let_def rust_simps)
  then show "P st'"
    by (rule preservesD [OF submit_message_ok]) (use ok in simp)
qed

lemma handle_okay_ok: "preserves (P) (handle_command_okay X h)"
  unfolding preserves_def handle_command_okay_def Let_def
  by (auto split: option.splits intro: preservesD [OF maybe_continue_stream_ok])

lemma handle_open_ok: "preserves (P) (handle_command_open X h p)"
  unfolding preserves_def
proof (intro allI impI)
  fix st st'
  assume ok: "P st" and op: "handle_command_open X h p st = Inr st'"
  show "P st'"
  proof (cases "\<exists>svc. from_bytes_until_nul p = Some svc \<and> utf8_valid svc")
    case False
    with op have "send_clse X 0 (arg0 h) st = Inr st'"
      by (auto simp: handle_command_open_def Let_def split: option.splits if_splits)
    then show ?thesis using ok by (rule preservesD [OF send_ok(2)])
  next
    case True
    then obtain svc where svc: "from_bytes_until_nul p = Some svc" "utf8_valid svc" by blast
    with op obtain opened m w where
      so: "stream_open (overflow_checks X) (sys X) (arg0 h) svc (conn_streams (conn st)) (world st)
        = Inr (opened, m, w)"
      by (auto simp: handle_command_open_def Let_def rust_simps)
    let ?st = "st\<lparr>conn := (conn st)\<lparr>conn_streams := m\<rparr>, world := w\<rparr>"
    have ok1: "P ?st" using ok by simp
    show ?thesis
    proof (cases opened)
      case None
      with op svc so have "send_clse X 0 (arg0 h) ?st = Inr st'"
        by (simp add: handle_command_open_def)
      then show ?thesis using ok1 by (rule preservesD [OF send_ok(2)])
    next
      case (Some i)
      with op svc so obtain st2 s where st2: "send_okay X i (arg0 h) ?st = Inr st2"
        and s: "get_stream st2 i = Some s"
        by (auto simp: handle_command_open_def rust_simps)
      have "P st2" by (rule preservesD [OF send_ok(1) st2 ok1])
      with op svc so Some st2 s show ?thesis
        by (cases "service s") (auto simp: handle_command_open_def
            intro: preservesD [OF maybe_submit_pty_read_ok] preservesD [OF maybe_submit_socket_read_ok])
    qed
  qed
qed

lemma wrte_sync_ok: "preserves (P) (wrte_sync X l s svc p)"
  unfolding preserves_def
proof (intro allI impI)
  fix st st'
  assume ok: "P st" and wr: "wrte_sync X l s svc p st = Inr st'"
  then obtain res svc' w where "handle (sys X) (parsers X) svc p (world st) = Inr (res, svc', w)"
    by (auto simp: wrte_sync_def rust_simps)
  with ok wr show "P st'"
    by (cases res) (auto simp: wrte_sync_def Let_def
      intro: preservesD [OF send_ok(3)] preservesD [OF submit_wrte_sync_ok]
        preservesD [OF maybe_submit_wrte_sync_ok] preservesD [OF close_with_clse_ok])
qed

lemma handle_wrte_ok: "preserves (P) (handle_command_wrte X h p)"
  unfolding preserves_def
proof (intro allI impI)
  fix st st'
  assume ok: "P st" and wr: "handle_command_wrte X h p st = Inr st'"
  then obtain st1 where okay: "send_okay X (arg1 h) (arg0 h) st = Inr st1"
    by (auto simp: handle_command_wrte_def Let_def rust_simps)
  then have ok1: "P st1" using ok by (rule preservesD [OF send_ok(1)])
  note closing = preservesD [OF close_with_clse_ok]
  show "P st'"
  proof (cases "get_stream st1 (arg1 h)")
    case None
    with wr okay ok1 show ?thesis by (simp add: handle_command_wrte_def Let_def)
  next
    case (Some s)
    with wr okay ok1 show ?thesis
      by (cases "service s")
        (auto simp: handle_command_wrte_def Let_def split: option.splits prod.splits sum.splits
          intro: preservesD [OF wrte_sync_ok] closing)
  qed
qed

lemma handle_command_ok: "preserves (P) (handle_command X h p)"
  unfolding preserves_def handle_command_def
  by (auto simp: rust_simps split: Command.splits
      intro: preservesD [OF handle_clse_ok] preservesD [OF handle_cnxn_ok]
        preservesD [OF handle_okay_ok] preservesD [OF handle_open_ok] preservesD [OF handle_wrte_ok])

lemma stream_handlers_ok:
  "preserves (P) (stream_ended X l)"
  "preserves (P) (pty_data X l n)"
  "preserves (P) (socket_data X l n)"
  unfolding preserves_def stream_ended_def pty_data_def socket_data_def
  by (auto simp: rust_simps split: option.splits Service.splits
      intro: preservesD [OF send_ok(2)] preservesD [OF send_ok(3)])
end

end
