(* ===== verification/Ring_Invariant.thy ===== *)
theory Ring_Invariant
  imports Handler_Invariants
begin

text \<open>
  What is in flight on the ring. The submissions that are queued or accepted by the kernel and not
  yet completed form a multiset; the invariant ties it to the connection: every one has a tag the
  loop decodes, the writes are exactly the live slots of the buffer pool, and there is one poll of
  ep0 and one read of the bulk-out endpoint. The locale \<open>uring\<close> is the contract of the submission
  queue the daemon pushes to.
\<close>

section \<open>The submission queue\<close>

locale uring =
  fixes X :: "('w, 'q) ext"
    and view :: "'q \<Rightarrow> sqe list"
    and cap :: nat
  assumes push_ok: "sq_push X e q = Some q' \<Longrightarrow> view q' = view q @ [e]"
    and push_full: "sq_push X e q = None \<longleftrightarrow> cap \<le> length (view q)"
    and submit_view: "view (sq_submit X q) = []"
begin

lemma push_view: "push X e st = Inr st' \<Longrightarrow> \<exists>q. st' = st\<lparr>sq := q\<rparr> \<and> view q = view (sq st) @ [e]"
  by (auto simp: push_def rust_simps dest: push_ok)

lemma push_succeeds:
  "length (view (sq st)) < cap \<Longrightarrow> \<exists>q. push X e st = Inr (st\<lparr>sq := q\<rparr>) \<and> view q = view (sq st) @ [e]"
  using push_full [of e "sq st"] push_ok [of e "sq st"]
  by (cases "sq_push X e (sq st)") (auto simp: push_def)

end

text \<open>A queue of 32 entries, the size \<open>run\<close> asks for, on the reference system.\<close>

definition ref_ext :: "bool \<Rightarrow> (ref_world, sqe list) ext" where
  "ref_ext oc = \<lparr>
     parsers = winnow_ref, sys = ref_kernel,
     sq_push = (\<lambda>e q. if length q < 32 then Some (q @ [e]) else None),
     sq_submit = (\<lambda>q. []), os_error_msg = (\<lambda>_. bytes_of ''Input/output error (os error 5)''),
     overflow_checks = oc\<rparr>"

lemma ref_ext_simps [simp]:
  "parsers (ref_ext oc) = winnow_ref"
  "sys (ref_ext oc) = ref_kernel"
  "sq_push (ref_ext oc) e q = (if length q < 32 then Some (q @ [e]) else None)"
  "sq_submit (ref_ext oc) q = []"
  "overflow_checks (ref_ext oc) = oc"
  by (simp_all add: ref_ext_def)

interpretation ref_ring: uring "ref_ext oc" "\<lambda>q. q" 32 for oc
  by unfold_locales (auto split: if_splits)

section \<open>Tags in flight\<close>

definition has_op :: "UserDataOpType \<Rightarrow> sqe \<Rightarrow> bool" where
  "has_op op e \<longleftrightarrow> (case tag_of e of None \<Rightarrow> False | Some ud \<Rightarrow> op_type ud = op)"

definition tag_number :: "sqe \<Rightarrow> u32" where
  "tag_number e = the (data (the (tag_of e)))"

text \<open>A submission whose completion the loop can use: the tag decodes and carries the number its
  operation needs, and a read of the bulk-out endpoint fits the 1 MiB buffer.\<close>

fun needs_number :: "UserDataOpType \<Rightarrow> bool" where
  "needs_number BulkInWrite = True"
| "needs_number PtyRead = True"
| "needs_number SocketRead = True"
| "needs_number _ = False"

definition good_tag :: "sqe \<Rightarrow> bool" where
  "good_tag e \<longleftrightarrow>
     (case tag_of e of
       None \<Rightarrow> False
     | Some ud \<Rightarrow>
         (needs_number (op_type ud) \<longleftrightarrow> data ud \<noteq> None)
         \<and> (op_type ud = BulkOutReadHeader \<or> op_type ud = BulkOutReadPayload \<longrightarrow>
              (\<exists>f. sqe_op e = OpRead f BulkOutBuf 0x100000)))"

definition write_slots :: "sqe multiset \<Rightarrow> u32 multiset" where
  "write_slots T = image_mset tag_number (filter_mset (has_op BulkInWrite) T)"

definition control_op :: "sqe \<Rightarrow> bool" where
  "control_op e \<longleftrightarrow> (case tag_of e of None \<Rightarrow> False | Some ud \<Rightarrow> \<not> needs_number (op_type ud))"

definition control_ops :: "sqe multiset \<Rightarrow> UserDataOpType multiset" where
  "control_ops T = image_mset (\<lambda>e. op_type (the (tag_of e))) (filter_mset control_op T)"

lemma write_slots_add:
  "write_slots (add_mset e T) =
     (if has_op BulkInWrite e then add_mset (tag_number e) (write_slots T) else write_slots T)"
  by (simp add: write_slots_def)

lemma control_ops_add:
  "control_ops (add_mset e T) =
     (if control_op e then add_mset (op_type (the (tag_of e))) (control_ops T) else control_ops T)"
  by (simp add: control_ops_def)

section \<open>The invariant of a session\<close>

text \<open>\<open>flight view M q\<close>: what is queued in \<open>q\<close> and what the kernel holds, \<open>M\<close>.\<close>

definition flight :: "('q \<Rightarrow> sqe list) \<Rightarrow> sqe multiset \<Rightarrow> 'q \<Rightarrow> sqe multiset" where
  "flight view M q = mset (view q) + M"

definition sess_ok ::
  "('q \<Rightarrow> sqe list) \<Rightarrow> sqe multiset \<Rightarrow> UserDataOpType multiset \<Rightarrow> ('w, 'q) session \<Rightarrow> bool" where
  "sess_ok view M C st \<longleftrightarrow>
     (let T = flight view M (sq st); B = buffers (conn st) in
      buffers_ok B \<and> write_slots T = mset_set (dom (slot_held B))
      \<and> (\<forall>e \<in># T. good_tag e) \<and> control_ops T = C)"

text \<open>The invariant does not look at the streams, the version or the world.\<close>

lemma sess_ok_cong:
  "sq st' = sq st \<Longrightarrow> buffers (conn st') = buffers (conn st) \<Longrightarrow>
     sess_ok view M C st' \<longleftrightarrow> sess_ok view M C st"
  by (simp add: sess_ok_def)

lemma sess_ok_frame [simp]:
  "sess_ok view M C (put_stream i s st) \<longleftrightarrow> sess_ok view M C st"
  "sess_ok view M C (close_stream X i st) \<longleftrightarrow> sess_ok view M C st"
  "sess_ok view M C (st\<lparr>world := w\<rparr>) \<longleftrightarrow> sess_ok view M C st"
  "sess_ok view M C (st\<lparr>conn := (conn st)\<lparr>version := v\<rparr>\<rparr>) \<longleftrightarrow> sess_ok view M C st"
  "sess_ok view M C (st\<lparr>conn := (conn st)\<lparr>conn_streams := m\<rparr>\<rparr>) \<longleftrightarrow> sess_ok view M C st"
  by (rule sess_ok_cong; simp add: put_stream_def close_stream_def split: prod.splits)+

context uring
begin

lemma flight_push:
  "view q' = view q @ [e] \<Longrightarrow> flight view M q' = add_mset e (flight view M q)"
  by (simp add: flight_def)

text \<open>A push that is neither a write nor a control operation: the read of a stream.\<close>

lemma push_stream_read_ok:
  assumes "sess_ok view M C st" and "push X e st = Inr st'"
    and "tag_of e = Some \<lparr>op_type = op, data = Some n\<rparr>" and "op = PtyRead \<or> op = SocketRead"
  shows "sess_ok view M C st'"
proof -
  obtain q where st': "st' = st\<lparr>sq := q\<rparr>" and "view q = view (sq st) @ [e]"
    using push_view [OF assms(2)] by blast
  then have "flight view M q = add_mset e (flight view M (sq st))" by (simp add: flight_push)
  with assms(1,3,4) st' show ?thesis
    by (auto simp: sess_ok_def Let_def write_slots_add control_ops_add has_op_def control_op_def
        good_tag_def)
qed

lemma push_control_ok:
  assumes "sess_ok view M C st" and "push X e st = Inr st'"
    and "tag_of e = Some \<lparr>op_type = op, data = None\<rparr>" and "\<not> needs_number op"
    and "op = Ep0Poll \<or> (\<exists>f. sqe_op e = OpRead f BulkOutBuf 0x100000)"
  shows "sess_ok view M (add_mset op C) st'"
proof -
  obtain q where st': "st' = st\<lparr>sq := q\<rparr>" and "view q = view (sq st) @ [e]"
    using push_view [OF assms(2)] by blast
  then have "flight view M q = add_mset e (flight view M (sq st))" by (simp add: flight_push)
  moreover have "op \<noteq> BulkInWrite" using assms(4) by auto
  ultimately show ?thesis
    using assms(1,3-5) st'
    by (auto simp: sess_ok_def Let_def write_slots_add control_ops_add has_op_def control_op_def
        good_tag_def)
qed

lemma submit_buffer_ok: "preserves (sess_ok view M C) (submit_buffer X d link)"
  unfolding preserves_def
proof (intro allI impI)
  fix st st'
  assume ok: "sess_ok view M C st" and sub: "submit_buffer X d link st = Inr st'"
  from sub obtain slot pool len where al: "alloc (length d) (buffers (conn st)) = Inr (slot, pool)"
    and nz: "slot \<noteq> 0"
    and push: "push X \<lparr>sqe_op = OpWrite (bulk_in (conn st)) (WriteSlot slot) len,
        sqe_user_data = u64_of_user_data (user_data_new BulkInWrite (Some slot)), sqe_link = link\<rparr>
        (st\<lparr>conn := (conn st)\<lparr>buffers := extend_slot slot d pool\<rparr>\<rparr>) = Inr st'"
      (is "push X ?e _ = _")
    by (auto simp: submit_buffer_def rust_simps)
  from ok have b: "buffers_ok (buffers (conn st))" by (simp add: sess_ok_def Let_def)
  note ext = bm.alloc_extend(1,2) [OF b al, of d] bm.alloc_extend(3) [OF b al]
  obtain q where st': "st' = st\<lparr>conn := (conn st)\<lparr>buffers := extend_slot slot d pool\<rparr>, sq := q\<rparr>"
    and "view q = view (sq st) @ [?e]"
    using push_view [OF push] by auto
  then have fl: "flight view M q = add_mset ?e (flight view M (sq st))" by (simp add: flight_push)
  have tag: "tag_of ?e = Some \<lparr>op_type = BulkInWrite, data = Some slot\<rparr>" using nz by simp
  have "dom (slot_held (extend_slot slot d pool)) = insert slot (dom (slot_held (buffers (conn st))))"
    using ext(2) by simp
  moreover have "slot \<notin> dom (slot_held (buffers (conn st)))" using ext(3) by auto
  moreover have "finite (dom (slot_held (buffers (conn st))))" using bm.held_finite [OF b] by simp
  ultimately have "mset_set (dom (slot_held (extend_slot slot d pool)))
      = add_mset slot (mset_set (dom (slot_held (buffers (conn st)))))"
    by simp
  with ok ext(1) fl tag st' show "sess_ok view M C st'"
    by (simp add: sess_ok_def Let_def write_slots_add control_ops_add has_op_def control_op_def
        good_tag_def tag_number_def)
qed

end

text \<open>The ring invariant is kept by every handler.\<close>

sublocale uring < ring: session_inv X "sess_ok view M C" for M C
  by unfold_locales
    (auto simp: session_core_def intro!: sess_ok_cong submit_buffer_ok elim: push_stream_read_ok)

context uring
begin

text \<open>Completions: a submission leaves the kernel's hands.\<close>

lemma complete_stream_read:
  assumes "sess_ok view (add_mset e M) C st"
    and "tag_of e = Some \<lparr>op_type = op, data = Some n\<rparr>" and "op = PtyRead \<or> op = SocketRead"
  shows "sess_ok view M C st"
  using assms by (auto simp: sess_ok_def Let_def flight_def write_slots_add control_ops_add has_op_def
      control_op_def)

lemma complete_control:
  assumes "sess_ok view (add_mset e M) C st"
    and "tag_of e = Some \<lparr>op_type = op, data = None\<rparr>" and "\<not> needs_number op"
  shows "op \<in># C" and "sess_ok view M (C - {#op#}) st"
proof -
  have "op \<noteq> BulkInWrite" using assms(3) by auto
  with assms show "op \<in># C" and "sess_ok view M (C - {#op#}) st"
    by (auto simp: sess_ok_def Let_def flight_def write_slots_add control_ops_add has_op_def
        control_op_def)
qed

lemma complete_write:
  assumes ok: "sess_ok view (add_mset e M) C st"
    and tag: "tag_of e = Some \<lparr>op_type = BulkInWrite, data = Some n\<rparr>"
  shows "slot_held (buffers (conn st)) n \<noteq> None"
    and "\<exists>st'. free_slot X n st = Inr st' \<and> sess_ok view M C st'"
proof -
  let ?B = "buffers (conn st)"
  from ok have b: "buffers_ok ?B" by (simp add: sess_ok_def Let_def)
  note fin = bm.held_finite [OF b, THEN conjunct1]
  from ok tag have ws: "add_mset n (write_slots (flight view M (sq st))) = mset_set (dom (slot_held ?B))"
    by (simp add: sess_ok_def Let_def flight_def write_slots_add has_op_def tag_number_def)
  then have "n \<in># mset_set (dom (slot_held ?B))" by (metis union_single_eq_member)
  then show held: "slot_held ?B n \<noteq> None" using fin by auto
  obtain B' where B': "free (overflow_checks X) n ?B = Inr B'" "buffers_ok B'"
      "slot_held B' = (slot_held ?B)(n := None)"
    using bm.free_ok [OF b held] by blast
  have "dom (slot_held B') = dom (slot_held ?B) - {n}" using B'(3) by auto
  then have "mset_set (dom (slot_held B')) = mset_set (dom (slot_held ?B)) - {#n#}"
    using fin held by (simp add: mset_set_Diff dom_def)
  with ws have "write_slots (flight view M (sq st)) = mset_set (dom (slot_held B'))"
    by (metis add_mset_remove_trivial)
  with ok B' tag show "\<exists>st'. free_slot X n st = Inr st' \<and> sess_ok view M C st'"
    by (auto simp: free_slot_def sess_ok_def Let_def flight_def control_ops_add control_op_def)
qed

end

end
