(* ===== verification/Ring_Safety.thy ===== *)
theory Ring_Safety
  imports Ring_Invariant
begin

text \<open>
  The event loop and the kernel together: a transition system whose states are the loop, the
  submissions the kernel holds, and the completions that have been delivered and not yet processed.
  The kernel may complete any submissions in any order and number; the loop processes them one by
  one. The invariant of theory \<open>Ring_Invariant\<close> holds in every reachable state.
\<close>

section \<open>The invariant of the loop\<close>

definition awaited_op :: "('w, 'q) loop_state \<Rightarrow> UserDataOpType" where
  "awaited_op ls = (if pending_header ls = None then BulkOutReadHeader else BulkOutReadPayload)"

definition loop_ok :: "('q \<Rightarrow> sqe list) \<Rightarrow> sqe multiset \<Rightarrow> ('w, 'q) loop_state \<Rightarrow> bool" where
  "loop_ok view M ls \<longleftrightarrow>
     sess_ok view M {#Ep0Poll, awaited_op ls#} (sess ls) \<and> length (bulk_out_buf ls) = 0x100000"

text \<open>\<open>completes e c\<close>: \<open>c\<close> is a completion of \<open>e\<close>; a read has put at most what was asked for into
  its buffer, and a result that is no error counts those bytes.\<close>

definition completes :: "sqe \<Rightarrow> cqe \<Rightarrow> bool" where
  "completes e c \<longleftrightarrow> cq_user_data c = sqe_user_data e
     \<and> (case sqe_op e of
          OpRead f b n \<Rightarrow>
            length (cq_bytes c) \<le> unat n \<and> (0 \<le> cq_result c \<longrightarrow> nat (cq_result c) = length (cq_bytes c))
        | _ \<Rightarrow> True)"

lemma completes_decode:
  "completes e c \<Longrightarrow> tag_of e = Some ud \<Longrightarrow> user_data_try_from (cq_user_data c) = Inr (Inr ud)"
  by (auto simp: completes_def tag_of_def split: sum.splits)

lemma deliver_frame:
  "sq (sess (deliver c ls)) = sq (sess ls)"
  "buffers (conn (sess (deliver c ls))) = buffers (conn (sess ls))"
  "pending_header (deliver c ls) = pending_header ls"
  by (auto simp: deliver_def put_stream_def split: sum.splits option.splits UserDataOpType.splits
      Service.splits)

lemma deliver_buf:
  assumes "completes e c" and "good_tag e" and "length (bulk_out_buf ls) = 0x100000"
  shows "length (bulk_out_buf (deliver c ls)) = 0x100000"
proof -
  obtain ud where tag: "tag_of e = Some ud"
    and fit: "op_type ud = BulkOutReadHeader \<or> op_type ud = BulkOutReadPayload \<Longrightarrow>
      \<exists>f. sqe_op e = OpRead f BulkOutBuf 0x100000"
    using assms(2) by (auto simp: good_tag_def split: option.splits)
  have len: "length (copy_at 0 (cq_bytes c) (bulk_out_buf ls)) = 0x100000"
    if "op_type ud = BulkOutReadHeader \<or> op_type ud = BulkOutReadPayload"
    using fit [OF that] assms(1,3) by (auto simp: completes_def length_copy_at)
  show ?thesis
    using len assms(3) completes_decode [OF assms(1) tag]
    by (cases "op_type ud"; cases "data ud")
      (auto simp: deliver_def split: option.splits Service.splits)
qed

lemma deliver_ok:
  assumes "loop_ok view M ls" and "completes e c" and "good_tag e"
  shows "loop_ok view M (deliver c ls)"
  using assms(1) deliver_buf [OF assms(2,3), of ls] sess_ok_cong [of "sess (deliver c ls)" "sess ls" view M]
  by (simp add: loop_ok_def deliver_frame awaited_op_def)

lemma fold_deliver_ok:
  assumes "loop_ok view M ls" and "\<forall>(e, c) \<in> set b. completes e c \<and> good_tag e"
  shows "loop_ok view M (fold deliver (map snd b) ls)"
  using assms by (induction b arbitrary: ls) (auto simp: deliver_ok)

lemma payload_command_cases:
  assumes "payload_command X n ls = Inr ls1"
  shows "pending_header ls1 = None" and "bulk_out_buf ls1 = bulk_out_buf ls"
    and "sess ls1 = sess ls \<or> (\<exists>h d. handle_command X h (Some d) (sess ls) = Inr (sess ls1))"
proof -
  have "pending_header ls1 = None \<and> bulk_out_buf ls1 = bulk_out_buf ls
      \<and> (sess ls1 = sess ls \<or> (\<exists>h d. handle_command X h (Some d) (sess ls) = Inr (sess ls1)))"
  proof (cases "pending_header ls")
    case None
    with assms show ?thesis by (simp add: payload_command_def)
  next
    case (Some h)
    with assms obtain d mismatch where "bulk_slice n (bulk_out_buf ls) = Inr d"
      and "(if mismatch then Inr (ls\<lparr>pending_header := None\<rparr>)
        else rbind (handle_command X h (Some d) (sess (ls\<lparr>pending_header := None\<rparr>)))
          (\<lambda>st. Inr (ls\<lparr>pending_header := None, sess := st\<rparr>))) = Inr ls1"
      by (auto simp: payload_command_def Let_def rust_simps)
    then show ?thesis by (cases mismatch) (auto simp: rust_simps)
  qed
  then show "pending_header ls1 = None" and "bulk_out_buf ls1 = bulk_out_buf ls"
    and "sess ls1 = sess ls \<or> (\<exists>h d. handle_command X h (Some d) (sess ls) = Inr (sess ls1))"
    by simp_all
qed

context uring
begin

lemma read_again_ok:
  assumes "sess_ok view M {#Ep0Poll#} (sess ls)" and "length (bulk_out_buf ls) = 0x100000"
    and "op = awaited_op ls" and "read_again X op ls = Inr (Go ls')"
  shows "loop_ok view M ls'"
proof -
  have nn: "\<not> needs_number op" "op \<noteq> Ep0Poll" using assms(3) by (auto simp: awaited_op_def)
  from assms(2,4) obtain st' where
    sub: "submit_bulk_out_read X 0x100000 (user_data_new op None) (sess ls) = Inr st'"
    and ls': "ls' = ls\<lparr>sess := st'\<rparr>"
    by (auto simp: read_again_def go_session_def rust_simps)
  let ?e = "\<lparr>sqe_op = OpRead (bulk_out (conn (sess ls))) BulkOutBuf 0x100000,
    sqe_user_data = u64_of_user_data (user_data_new op None), sqe_link = False\<rparr>"
  from sub have "push X ?e (sess ls) = Inr st'"
    by (simp add: submit_bulk_out_read_def)
  from push_control_ok [OF assms(1) this _ nn(1)]
  have "sess_ok view M (add_mset op {#Ep0Poll#}) st'" by simp
  with ls' assms(2,3) show ?thesis
    by (simp add: loop_ok_def awaited_op_def add_mset_commute)
qed

text \<open>Processing a completion: from the invariant with the submission still in flight to the
  invariant without it.\<close>

lemma header_read_ok:
  assumes ok: "sess_ok view M {#Ep0Poll#} (sess ls)" and pend: "pending_header ls = None"
    and len: "length (bulk_out_buf ls) = 0x100000"
    and res: "header_read X n ls = Inr (Go ls')"
  shows "loop_ok view M ls'"
proof -
  obtain d where d: "bulk_slice n (bulk_out_buf ls) = Inr d"
    using res by (auto simp: header_read_def rust_simps)
  show ?thesis
  proof (cases "parse_header (parsers X) d")
    case None
    with res d have "read_again X BulkOutReadHeader ls = Inr (Go ls')" by (simp add: header_read_def)
    then show ?thesis by (rule read_again_ok [OF ok len, rotated]) (simp add: awaited_op_def pend)
  next
    case (Some x)
    obtain h r where x: "x = (h, r)" by (cases x)
    show ?thesis
    proof (cases "0 < data_length h")
      case True
      with res d Some x have "read_again X BulkOutReadPayload (ls\<lparr>pending_header := Some h\<rparr>) = Inr (Go ls')"
        by (simp add: header_read_def)
      then show ?thesis
        by (rule read_again_ok [rotated 3]) (use ok len in \<open>simp_all add: awaited_op_def\<close>)
    next
      case False
      with res d Some x obtain st where st: "handle_command X h None (sess ls) = Inr st"
        and ra: "read_again X BulkOutReadHeader (ls\<lparr>sess := st\<rparr>) = Inr (Go ls')"
        by (auto simp: header_read_def rust_simps)
      from st ok have "sess_ok view M {#Ep0Poll#} st" by (rule preservesD [OF ring.handle_command_ok])
      with ra len pend show ?thesis
        by (intro read_again_ok [OF _ _ _ ra]) (simp_all add: awaited_op_def)
    qed
  qed
qed

lemma payload_read_ok:
  assumes ok: "sess_ok view M {#Ep0Poll#} (sess ls)"
    and len: "length (bulk_out_buf ls) = 0x100000"
    and res: "payload_read X n ls = Inr (Go ls')"
  shows "loop_ok view M ls'"
proof -
  from res obtain ls1 where pc: "payload_command X n ls = Inr ls1"
    and ra: "read_again X BulkOutReadHeader ls1 = Inr (Go ls')"
    by (auto simp: payload_read_def rust_simps)
  note ls1 = payload_command_cases [OF pc]
  have "sess_ok view M {#Ep0Poll#} (sess ls1)"
    using ls1(3) ok by (auto intro: preservesD [OF ring.handle_command_ok])
  with ra ls1 len show ?thesis
    by (intro read_again_ok [OF _ _ _ ra]) (simp_all add: awaited_op_def)
qed

lemma ep0_ok:
  assumes "sess_ok view M {#op#} (sess ls)" and "handle_ep0_event X (sess ls) = (False, st)"
    and "submit_ep0_poll X st = Inr st'"
  shows "sess_ok view M {#Ep0Poll, op#} st'"
proof -
  have "sess_ok view M {#op#} st"
    using assms(1,2) by (auto simp: handle_ep0_event_def split: prod.splits sum.splits)
  from push_control_ok [OF this assms(3) [unfolded submit_ep0_poll_def], of Ep0Poll]
  show ?thesis by simp
qed

lemma process_ok:
  assumes ok: "loop_ok view (add_mset e M) ls" and cp: "completes e c"
    and res: "process_cqe X c ls = Inr (Go ls')"
  shows "loop_ok view M ls'"
proof -
  have so: "sess_ok view (add_mset e M) {#Ep0Poll, awaited_op ls#} (sess ls)"
    and len: "length (bulk_out_buf ls) = 0x100000"
    using ok by (auto simp: loop_ok_def)
  then have "good_tag e" by (simp add: sess_ok_def Let_def flight_def)
  then obtain ud where ud: "tag_of e = Some ud" "needs_number (op_type ud) \<longleftrightarrow> data ud \<noteq> None"
    by (auto simp: good_tag_def split: option.splits)
  obtain op d where "ud = \<lparr>op_type = op, data = d\<rparr>" by (cases ud)
  with ud have tag: "tag_of e = Some \<lparr>op_type = op, data = d\<rparr>"
    and nn: "needs_number op \<longleftrightarrow> d \<noteq> None" by simp_all
  note dec = completes_decode [OF cp tag]
  have keep: "loop_ok view M (ls\<lparr>sess := st\<rparr>)"
    if "sess_ok view M {#Ep0Poll, awaited_op ls#} st" for st
    using that len by (simp add: loop_ok_def awaited_op_def)
  show ?thesis
  proof (cases "needs_number op")
    case True
    with nn obtain n where d: "d = Some n" by auto
    note tag' = tag [unfolded d]
    show ?thesis
    proof (cases "op = BulkInWrite")
      case True
      with complete_write [OF so, of n] tag' res dec d obtain st where
        "ls' = ls\<lparr>sess := st\<rparr>" and "sess_ok view M {#Ep0Poll, awaited_op ls#} st"
        by (auto simp: process_cqe_def go_session_def)
      then show ?thesis by (simp add: keep)
    next
      case False
      with True have ps: "op = PtyRead \<or> op = SocketRead" by (cases op) auto
      have so1: "sess_ok view M {#Ep0Poll, awaited_op ls#} (sess ls)"
        by (rule complete_stream_read [OF so tag' ps])
      from res dec d ps obtain st where ls': "ls' = ls\<lparr>sess := st\<rparr>"
        and "stream_ended X n (sess ls) = Inr st \<or> pty_data X n (nat (cq_result c)) (sess ls) = Inr st
          \<or> socket_data X n (nat (cq_result c)) (sess ls) = Inr st"
        by (auto simp: process_cqe_def go_session_def Let_def rust_simps split: if_splits)
      then have "sess_ok view M {#Ep0Poll, awaited_op ls#} st"
        using so1 by (auto intro: ring.stream_handlers_ok [THEN preservesD])
      then show ?thesis by (simp add: ls' keep)
    qed
  next
    case False
    with nn have d: "d = None" by simp
    note ctl = complete_control [OF so tag [unfolded d] False]
    consider "op = Ep0Poll" | "op = BulkOutReadHeader" "awaited_op ls = op"
      | "op = BulkOutReadPayload" "awaited_op ls = op"
      using ctl(1) False by (cases op) (auto simp: awaited_op_def split: if_splits)
    then show ?thesis
    proof cases
      case 1
      with res dec obtain st st' where ev: "handle_ep0_event X (sess ls) = (False, st)"
        and sub: "submit_ep0_poll X st = Inr st'" and ls': "ls' = ls\<lparr>sess := st'\<rparr>"
        by (auto simp: process_cqe_def go_session_def Let_def rust_simps split: if_splits prod.splits bool.splits)
      have "sess_ok view M {#awaited_op ls#} (sess ls)" using ctl(2) 1 by simp
      from keep [OF ep0_ok [OF this ev sub]] ls' show ?thesis by simp
    next
      case 2
      then have "pending_header ls = None" by (auto simp: awaited_op_def split: if_splits)
      moreover have "sess_ok view M {#Ep0Poll#} (sess ls)" using ctl(2) 2 by simp
      moreover have "header_read X (nat (cq_result c)) ls = Inr (Go ls')"
        using res dec 2(1) by (auto simp: process_cqe_def Let_def split: if_splits)
      ultimately show ?thesis using header_read_ok len by blast
    next
      case 3
      have "sess_ok view M {#Ep0Poll#} (sess ls)" using ctl(2) 3 by simp
      moreover have "payload_read X (nat (cq_result c)) ls = Inr (Go ls')"
        using res dec 3(1) by (auto simp: process_cqe_def Let_def split: if_splits)
      ultimately show ?thesis using payload_read_ok len by blast
    qed
  qed
qed

end

section \<open>The loop and the kernel\<close>

record ('w, 'q) config =
  cf_loop :: "('w, 'q) loop_state"
  cf_kernel :: "sqe multiset"
  cf_batch :: "(sqe \<times> cqe) list"

text \<open>A wait hands the queue to the kernel and comes back with completions of some of what the
  kernel holds; then they are processed in order.\<close>

inductive ring_step :: "('w, 'q) ext \<Rightarrow> ('q \<Rightarrow> sqe list) \<Rightarrow> ('w, 'q) config \<Rightarrow> ('w, 'q) config \<Rightarrow> bool"
  for X view where
  wait: "mset (map fst b) \<subseteq># M + mset (view (sq (sess ls))) \<Longrightarrow> list_all (\<lambda>(e, c). completes e c) b \<Longrightarrow>
    ring_step X view \<lparr>cf_loop = ls, cf_kernel = M, cf_batch = []\<rparr>
      \<lparr>cf_loop = fold deliver (map snd b) (ls\<lparr>sess := (sess ls)\<lparr>sq := sq_submit X (sq (sess ls))\<rparr>\<rparr>),
       cf_kernel = M + mset (view (sq (sess ls))) - mset (map fst b), cf_batch = b\<rparr>"
| process: "process_cqe X c ls = Inr (Go ls') \<Longrightarrow>
    ring_step X view \<lparr>cf_loop = ls, cf_kernel = M, cf_batch = (e, c) # b\<rparr>
      \<lparr>cf_loop = ls', cf_kernel = M, cf_batch = b\<rparr>"

inductive ring_reachable :: "('w, 'q) ext \<Rightarrow> ('q \<Rightarrow> sqe list) \<Rightarrow> ('w, 'q) config \<Rightarrow> bool" for X view where
  init: "view q = [] \<Longrightarrow> start X (new_connection f0 fo fi dev) q w = Inr ls \<Longrightarrow>
    ring_reachable X view \<lparr>cf_loop = ls, cf_kernel = {#}, cf_batch = []\<rparr>"
| step: "ring_reachable X view cf \<Longrightarrow> ring_step X view cf cf' \<Longrightarrow> ring_reachable X view cf'"

inductive_cases ring_stepE: "ring_step X view cf cf'"

definition config_flight :: "('q \<Rightarrow> sqe list) \<Rightarrow> ('w, 'q) config \<Rightarrow> sqe multiset" where
  "config_flight view cf =
     mset (view (sq (sess (cf_loop cf)))) + cf_kernel cf + mset (map fst (cf_batch cf))"

definition config_ok :: "('q \<Rightarrow> sqe list) \<Rightarrow> ('w, 'q) config \<Rightarrow> bool" where
  "config_ok view cf \<longleftrightarrow>
     loop_ok view (cf_kernel cf + mset (map fst (cf_batch cf))) (cf_loop cf)
     \<and> list_all (\<lambda>(e, c). completes e c) (cf_batch cf)"

lemma loop_ok_flight:
  assumes "flight view M (sq (sess ls)) = flight view M' (sq (sess ls'))"
    and "buffers (conn (sess ls)) = buffers (conn (sess ls'))"
    and "pending_header ls = pending_header ls'" and "bulk_out_buf ls = bulk_out_buf ls'"
  shows "loop_ok view M ls \<longleftrightarrow> loop_ok view M' ls'"
  using assms by (simp add: loop_ok_def sess_ok_def awaited_op_def)

lemma loop_ok_good: "loop_ok view M ls \<Longrightarrow> e \<in># M \<Longrightarrow> good_tag e"
  by (auto simp: loop_ok_def sess_ok_def Let_def flight_def)

context uring
begin

lemma start_ok:
  assumes "view q = []" and "start X (new_connection f0 fo fi dev) q w = Inr ls"
  shows "loop_ok view {#} ls"
proof -
  let ?st = "\<lparr>conn = new_connection f0 fo fi dev, sq = q, world = w\<rparr>"
  have init: "sess_ok view {#} {#} ?st"
    using assms(1) bm.invar_empty bm.held_empty
    by (simp add: sess_ok_def Let_def flight_def write_slots_def control_ops_def new_connection_def)
  from assms(2) obtain st1 st2 where s1: "submit_ep0_poll X ?st = Inr st1"
    and s2: "submit_bulk_out_read X 0x100000 (user_data_new BulkOutReadHeader None) st1 = Inr st2"
    and ls: "ls = \<lparr>sess = st2, pending_header = None, bulk_out_buf = replicate 0x100000 0\<rparr>"
    by (auto simp: start_def Let_def rust_simps PROTOCOL_VERSION_def)
  from push_control_ok [OF init s1 [unfolded submit_ep0_poll_def], of Ep0Poll]
  have "sess_ok view {#} {#Ep0Poll#} st1" by simp
  moreover have "read_again X BulkOutReadHeader (ls\<lparr>sess := st1\<rparr>) = Inr (Go ls)"
    using s2 ls by (simp add: read_again_def go_session_def)
  ultimately show ?thesis
    using ls by (intro read_again_ok [of "{#}" "ls\<lparr>sess := st1\<rparr>" BulkOutReadHeader ls])
      (simp_all add: awaited_op_def)
qed

lemma step_ok: "ring_step X view cf cf' \<Longrightarrow> config_ok view cf \<Longrightarrow> config_ok view cf'"
proof (induction rule: ring_step.induct)
  case (wait b M ls)
  let ?K = "M + mset (view (sq (sess ls)))"
  let ?ls = "ls\<lparr>sess := (sess ls)\<lparr>sq := sq_submit X (sq (sess ls))\<rparr>\<rparr>"
  have "flight view ?K (sq (sess ?ls)) = flight view M (sq (sess ls))"
    by (simp add: flight_def submit_view add.commute)
  with wait.prems have "loop_ok view ?K ?ls"
    using loop_ok_flight [of view ?K ?ls M ls] by (simp add: config_ok_def)
  moreover have "?K - mset (map fst b) + mset (map fst b) = ?K"
    using wait.hyps(1) by (rule subset_mset.diff_add)
  moreover have "\<forall>(e, c) \<in> set b. completes e c \<and> good_tag e"
  proof
    fix ec assume ec: "ec \<in> set b"
    then have "fst ec \<in># ?K" using mset_subset_eqD [OF wait.hyps(1), of "fst ec"] by auto
    with \<open>loop_ok view ?K ?ls\<close> wait.hyps(2) ec show "case ec of (e, c) \<Rightarrow> completes e c \<and> good_tag e"
      by (auto simp: list_all_iff dest: loop_ok_good)
  qed
  ultimately show ?case
    using wait.hyps(2) fold_deliver_ok [of view ?K ?ls b] by (simp add: config_ok_def)
next
  case (process c ls ls' M e b)
  then show ?case
    using process_ok [of e "M + mset (map fst b)" ls c ls'] by (simp add: config_ok_def)
qed

lemma reachable_ok: "ring_reachable X view cf \<Longrightarrow> config_ok view cf"
proof (induction rule: ring_reachable.induct)
  case (init q f0 fo fi dev w ls)
  then show ?case by (simp add: config_ok_def start_ok)
next
  case (step cf cf')
  then show ?case by (simp add: step_ok)
qed

text \<open>A turn of \<open>run\<close> is a wait and its processing steps.\<close>

lemma process_all_steps:
  "process_all X (map snd b) ls = Inr (Go ls') \<Longrightarrow>
     (ring_step X view)\<^sup>*\<^sup>* \<lparr>cf_loop = ls, cf_kernel = M, cf_batch = b\<rparr>
       \<lparr>cf_loop = ls', cf_kernel = M, cf_batch = []\<rparr>"
proof (induction b arbitrary: ls)
  case (Cons ec b)
  obtain e c where ec: "ec = (e, c)" by (cases ec)
  from Cons.prems ec obtain f where f: "process_cqe X c ls = Inr f"
    by (auto simp: rust_simps)
  show ?case
  proof (cases f)
    case (Go ls1)
    with f have "ring_step X view \<lparr>cf_loop = ls, cf_kernel = M, cf_batch = ec # b\<rparr>
        \<lparr>cf_loop = ls1, cf_kernel = M, cf_batch = b\<rparr>"
      unfolding ec by (intro ring_step.process) simp
    moreover have "process_all X (map snd b) ls1 = Inr (Go ls')" using Cons.prems ec f Go by simp
    ultimately show ?thesis using Cons.IH by (meson converse_rtranclp_into_rtranclp)
  qed (use Cons.prems ec f in simp)
qed simp

lemma turn_steps:
  assumes "mset (map fst b) \<subseteq># M + mset (view (sq (sess ls)))"
    and "list_all (\<lambda>(e, c). completes e c) b"
    and "turn X (Inr (map snd b)) ls = Inr (Go ls')"
  shows "(ring_step X view)\<^sup>*\<^sup>* \<lparr>cf_loop = ls, cf_kernel = M, cf_batch = []\<rparr>
    \<lparr>cf_loop = ls', cf_kernel = M + mset (view (sq (sess ls))) - mset (map fst b), cf_batch = []\<rparr>"
proof -
  let ?ls = "fold deliver (map snd b) (ls\<lparr>sess := (sess ls)\<lparr>sq := sq_submit X (sq (sess ls))\<rparr>\<rparr>)"
  have "process_all X (map snd b) ?ls = Inr (Go ls')" using assms(3) by (simp add: turn_def)
  from process_all_steps [OF this] show ?thesis
    using ring_step.wait [where view = view, OF assms(1,2)]
    by (meson converse_rtranclp_into_rtranclp)
qed

end

section \<open>Properties\<close>

lemma control_count:
  assumes "control_ops T = {#Ep0Poll, op#}" and "op = BulkOutReadHeader \<or> op = BulkOutReadPayload"
  shows "size (filter_mset (has_op Ep0Poll) T) = 1"
    and "size (filter_mset (\<lambda>e. has_op BulkOutReadHeader e \<or> has_op BulkOutReadPayload e) T) = 1"
proof -
  have count: "size (filter_mset P (control_ops T)) =
      size (filter_mset (\<lambda>e. control_op e \<and> P (op_type (the (tag_of e)))) T)" for P
    by (simp add: control_ops_def filter_mset_image_mset filter_filter_mset conj_commute)
  have "filter_mset (has_op Ep0Poll) T
      = filter_mset (\<lambda>e. control_op e \<and> op_type (the (tag_of e)) = Ep0Poll) T"
    by (rule filter_mset_cong) (auto simp: has_op_def control_op_def split: option.splits)
  with count [of "\<lambda>op. op = Ep0Poll"] assms show "size (filter_mset (has_op Ep0Poll) T) = 1" by auto
  have "filter_mset (\<lambda>e. has_op BulkOutReadHeader e \<or> has_op BulkOutReadPayload e) T
      = filter_mset (\<lambda>e. control_op e \<and> (\<lambda>op. op = BulkOutReadHeader \<or> op = BulkOutReadPayload)
          (op_type (the (tag_of e)))) T"
    by (rule filter_mset_cong) (auto simp: has_op_def control_op_def split: option.splits)
  with count [of "\<lambda>op. op = BulkOutReadHeader \<or> op = BulkOutReadPayload"] assms
  show "size (filter_mset (\<lambda>e. has_op BulkOutReadHeader e \<or> has_op BulkOutReadPayload e) T) = 1"
    by auto
qed

text \<open>
  (C1) The ring invariant. From the start of a session on, whatever the host sends, whatever fails
  and in whatever order the kernel completes: exactly one poll of ep0 and exactly one read of the
  bulk-out endpoint are in flight (so the one receive buffer is never the target of two reads, and
  the session never stops listening); the writes in flight are, one for one, the live slots of the
  buffer pool (no buffer is reused or freed under the kernel, and none leaks); and there are at most
  eight of them.
\<close>

theorem ring_invariant:
  assumes "uring X view cap" and "ring_reachable X view cf"
  shows "size (filter_mset (has_op Ep0Poll) (config_flight view cf)) = 1
    \<and> size (filter_mset (\<lambda>e. has_op BulkOutReadHeader e \<or> has_op BulkOutReadPayload e) (config_flight view cf)) = 1
    \<and> write_slots (config_flight view cf) = mset_set (dom (slot_held (buffers (conn (sess (cf_loop cf))))))
    \<and> size (write_slots (config_flight view cf)) \<le> MAX_BUFFER_SLOTS"
proof -
  let ?B = "buffers (conn (sess (cf_loop cf)))"
  have "config_ok view cf" by (rule uring.reachable_ok [OF assms])
  then have so: "sess_ok view (cf_kernel cf + mset (map fst (cf_batch cf)))
      {#Ep0Poll, awaited_op (cf_loop cf)#} (sess (cf_loop cf))"
    by (simp add: config_ok_def loop_ok_def)
  have fl: "flight view (cf_kernel cf + mset (map fst (cf_batch cf))) (sq (sess (cf_loop cf)))
      = config_flight view cf"
    by (simp add: flight_def config_flight_def add.assoc)
  from so [unfolded sess_ok_def Let_def fl] have b: "buffers_ok ?B"
    and ws: "write_slots (config_flight view cf) = mset_set (dom (slot_held ?B))"
    and ctl: "control_ops (config_flight view cf) = {#Ep0Poll, awaited_op (cf_loop cf)#}"
    by simp_all
  have "awaited_op (cf_loop cf) = BulkOutReadHeader \<or> awaited_op (cf_loop cf) = BulkOutReadPayload"
    by (simp add: awaited_op_def)
  with control_count [OF ctl] ws bm.held_finite [OF b] show ?thesis by simp
qed

text \<open>The first state of a session on the reference system.\<close>

definition ref_device :: DeviceInfo where
  "ref_device = \<lparr>serial = [48], name = [49], model = [50], device = [51]\<rparr>"

definition ref_poll :: sqe where
  "ref_poll = \<lparr>sqe_op = OpPollAdd 3 1, sqe_user_data = u64_of_user_data (user_data_new Ep0Poll None),
     sqe_link = False\<rparr>"

definition ref_header_read :: sqe where
  "ref_header_read = \<lparr>sqe_op = OpRead 4 BulkOutBuf 0x100000,
     sqe_user_data = u64_of_user_data (user_data_new BulkOutReadHeader None), sqe_link = False\<rparr>"

definition ref_first :: "(ref_world, sqe list) loop_state" where
  "ref_first = \<lparr>
     sess = \<lparr>conn = new_connection 3 4 5 ref_device, sq = [ref_poll, ref_header_read], world = ref_boot 3 100\<rparr>,
     pending_header = None, bulk_out_buf = replicate 0x100000 0\<rparr>"

lemma ref_start:
  "start (ref_ext oc) (new_connection 3 4 5 ref_device) [] (ref_boot 3 100) = Inr ref_first"
  by (simp add: start_def Let_def submit_ep0_poll_def submit_bulk_out_read_def push_def
      new_connection_def ref_first_def ref_poll_def ref_header_read_def PROTOCOL_VERSION_def)

lemma ref_first_reachable:
  "ring_reachable (ref_ext oc) (\<lambda>q. q) \<lparr>cf_loop = ref_first, cf_kernel = {#}, cf_batch = []\<rparr>"
  by (rule ring_reachable.init [OF _ ref_start]) simp

theorem ring_invariant_witness:
  "start (ref_ext True) (new_connection 3 4 5 ref_device) [] (ref_boot 3 100) = Inr ref_first
   \<and> size (filter_mset (has_op Ep0Poll) {#ref_poll, ref_header_read#}) = 1
   \<and> write_slots {#ref_poll, ref_header_read#} = {#}"
proof (rule conjI [OF ref_start])
  have "config_flight (\<lambda>q. q) \<lparr>cf_loop = ref_first, cf_kernel = {#}, cf_batch = []\<rparr>
      = {#ref_poll, ref_header_read#}"
    and "buffers (conn (sess ref_first)) = new_buffers"
    by (simp_all add: config_flight_def ref_first_def new_connection_def)
  then show "size (filter_mset (has_op Ep0Poll) {#ref_poll, ref_header_read#}) = 1
      \<and> write_slots {#ref_poll, ref_header_read#} = {#}"
    using ring_invariant [OF ref_ring.uring_axioms ref_first_reachable [of True]]
    by (simp add: bm.held_empty del: filter_mset_add_mset)
qed



end
