(* ===== verification/Message_Flow.thy ===== *)
theory Message_Flow
  imports Ring_Safety
begin

text \<open>
  What the handlers answer: the messages a handler queues, as the bytes its writes will put on the
  wire. A queued write names a slot of the pool; \<open>slot_bytes\<close> is what the slot holds. Handlers only
  add to the queue and to the pool, so what was queued first goes out first and unchanged.
\<close>

section \<open>Growth\<close>

definition slot_bytes :: "BufferManager \<Rightarrow> sqe \<Rightarrow> bytes option" where
  "slot_bytes B e = (case sqe_op e of OpWrite f (WriteSlot s) n \<Rightarrow> slot_held B s | _ \<Rightarrow> None)"

text \<open>\<open>extends view st0 st\<close>: \<open>st\<close> has queued more than \<open>st0\<close>, behind it, and holds its buffers as
  they were.\<close>

definition extends :: "('q \<Rightarrow> sqe list) \<Rightarrow> ('w, 'q) session \<Rightarrow> ('w, 'q) session \<Rightarrow> bool" where
  "extends view st0 st \<longleftrightarrow> buffers_ok (buffers (conn st)) \<and> (\<exists>es. view (sq st) = view (sq st0) @ es)
     \<and> slot_held (buffers (conn st0)) \<subseteq>\<^sub>m slot_held (buffers (conn st))"

lemma extends_refl: "buffers_ok (buffers (conn st)) \<Longrightarrow> extends view st st"
  by (simp add: extends_def)

lemma extends_world [simp]: "extends view st0 (st\<lparr>world := w\<rparr>) \<longleftrightarrow> extends view st0 st"
  by (simp add: extends_def)

lemma slot_bytes_extends:
  "extends view st0 st \<Longrightarrow> slot_bytes (buffers (conn st0)) e = Some b \<Longrightarrow> slot_bytes (buffers (conn st)) e = Some b"
  by (auto simp: extends_def slot_bytes_def map_le_def dom_def split: opcode.splits buf_ref.splits)

definition write_sqe :: "fd \<Rightarrow> u32 \<Rightarrow> bytes \<Rightarrow> bool \<Rightarrow> sqe" where
  "write_sqe f slot d link = \<lparr>sqe_op = OpWrite f (WriteSlot slot) (of_nat (length d)),
     sqe_user_data = u64_of_user_data (user_data_new BulkInWrite (Some slot)), sqe_link = link\<rparr>"

text \<open>The effect of queueing one buffer.\<close>

definition buffer_queued ::
  "('q \<Rightarrow> sqe list) \<Rightarrow> bytes \<Rightarrow> bool \<Rightarrow> ('w, 'q) session \<Rightarrow> ('w, 'q) session \<Rightarrow> bool" where
  "buffer_queued view d link st st' \<longleftrightarrow>
     (\<exists>slot B' q. st' = st\<lparr>conn := (conn st)\<lparr>buffers := B'\<rparr>, sq := q\<rparr>
        \<and> slot \<noteq> 0 \<and> slot_held (buffers (conn st)) slot = None
        \<and> slot_held B' = (slot_held (buffers (conn st)))(slot \<mapsto> d) \<and> buffers_ok B'
        \<and> view q = view (sq st) @ [write_sqe (bulk_in (conn st)) slot d link])"

lemma buffer_queuedD:
  assumes "buffer_queued view d link st st'"
  shows "extends view st st'" and "conn_streams (conn st') = conn_streams (conn st)"
    and "version (conn st') = version (conn st)" and "world st' = world st"
    and "\<exists>e. view (sq st') = view (sq st) @ [e] \<and> slot_bytes (buffers (conn st')) e = Some d \<and> sqe_link e = link"
  using assms unfolding buffer_queued_def
  by (auto simp: extends_def slot_bytes_def write_sqe_def map_le_def)

context uring
begin

lemma submit_buffer_queued:
  assumes b: "buffers_ok (buffers (conn st))" and sub: "submit_buffer X d link st = Inr st'"
  shows "buffer_queued view d link st st'"
proof -
  from sub obtain slot pool where al: "alloc (length d) (buffers (conn st)) = Inr (slot, pool)"
    and len: "length d < 2 ^ 32"
    and push: "push X (write_sqe (bulk_in (conn st)) slot d link)
        (st\<lparr>conn := (conn st)\<lparr>buffers := extend_slot slot d pool\<rparr>\<rparr>) = Inr st'"
    by (auto simp: submit_buffer_def write_sqe_def rust_simps)
  note ext = bm.alloc_extend(1,2) [OF b al, of d] bm.alloc_extend(3,4) [OF b al]
  from push_view [OF push] ext show ?thesis
    unfolding buffer_queued_def by fastforce
qed

lemma submit_buffer_succeeds:
  assumes b: "buffers_ok (buffers (conn st))"
    and "card (dom (slot_held (buffers (conn st)))) < MAX_BUFFER_SLOTS"
    and room: "length (view (sq st)) < cap" and len: "length d < 2 ^ 32"
  shows "\<exists>st'. submit_buffer X d link st = Inr st'"
proof -
  obtain slot pool where al: "alloc (length d) (buffers (conn st)) = Inr (slot, pool)"
    using bm.alloc_succeeds [OF b assms(2)] by blast
  have "slot \<noteq> 0" by (rule bm.alloc_extend(4) [OF b al])
  with al len show ?thesis
    using push_succeeds [of "st\<lparr>conn := (conn st)\<lparr>buffers := extend_slot slot d pool\<rparr>\<rparr>"] room
    by (fastforce simp: submit_buffer_def)
qed

lemma buffer_queued_card:
  assumes "buffer_queued view d link st st'" and "buffers_ok (buffers (conn st))"
  shows "card (dom (slot_held (buffers (conn st')))) = Suc (card (dom (slot_held (buffers (conn st)))))"
    and "length (view (sq st')) = Suc (length (view (sq st)))"
  using assms bm.held_finite [OF assms(2)] unfolding buffer_queued_def
  by (auto simp: domIff)

end

sublocale uring < grow: session_inv X "extends view st0" for st0
proof
  show "session_core st' = session_core st \<Longrightarrow> extends view st0 st' \<longleftrightarrow> extends view st0 st" for st st'
    by (simp add: session_core_def extends_def)
  show "preserves (extends view st0) (submit_buffer X d link)" for d link
    unfolding preserves_def
  proof (intro allI impI)
    fix st st'
    assume e: "extends view st0 st" and s: "submit_buffer X d link st = Inr st'"
    then have "buffer_queued view d link st st'" by (intro submit_buffer_queued) (simp add: extends_def)
    from buffer_queuedD(1) [OF this] e show "extends view st0 st'"
      by (auto simp: extends_def intro: map_le_trans)
  qed
  show "extends view st0 st \<Longrightarrow> push X e st = Inr st' \<Longrightarrow> tag_of e = Some \<lparr>op_type = op, data = Some n\<rparr> \<Longrightarrow>
      op = PtyRead \<or> op = SocketRead \<Longrightarrow> extends view st0 st'" for st e st' op n
    by (auto simp: extends_def dest!: push_view)
qed

section \<open>Messages\<close>

definition okay_message :: "u32 \<Rightarrow> u32 \<Rightarrow> AdbHeader" where
  "okay_message l r = \<lparr>command = Okay, arg0 = l, arg1 = r, data_length = 0, data_check = 0,
     magic = u32_of_command Okay XOR 0xffffffff\<rparr>"

definition clse_message :: "u32 \<Rightarrow> u32 \<Rightarrow> AdbHeader" where
  "clse_message l r = \<lparr>command = Clse, arg0 = l, arg1 = r, data_length = 0, data_check = 0,
     magic = u32_of_command Clse XOR 0xffffffff\<rparr>"

text \<open>The message \<open>header\<close>, \<open>payload\<close> is what was queued between two states: the header alone, or the
  header linked to the payload.\<close>

definition message_queued ::
  "('q \<Rightarrow> sqe list) \<Rightarrow> AdbHeader \<Rightarrow> bytes \<Rightarrow> ('w, 'q) session \<Rightarrow> ('w, 'q) session \<Rightarrow> bool" where
  "message_queued view h p st st' \<longleftrightarrow>
     (\<exists>es. view (sq st') = view (sq st) @ es
        \<and> map (slot_bytes (buffers (conn st'))) es
            = Some (as_le_bytes_header h) # (if p = [] then [] else [Some p])
        \<and> map sqe_link es = (if p = [] then [False] else [True, False]))"

lemma message_queued_extends:
  assumes "message_queued view h p st st1" and "extends view st1 st2"
  shows "\<exists>es rest. view (sq st2) = view (sq st) @ es @ rest
    \<and> map (slot_bytes (buffers (conn st2))) es = Some (as_le_bytes_header h) # (if p = [] then [] else [Some p])"
proof -
  obtain es where es: "view (sq st1) = view (sq st) @ es"
    "map (slot_bytes (buffers (conn st1))) es = Some (as_le_bytes_header h) # (if p = [] then [] else [Some p])"
    using assms(1) unfolding message_queued_def by (elim exE conjE) (rule that)
  obtain rest where rest: "view (sq st2) = view (sq st1) @ rest"
    using assms(2) unfolding extends_def by blast
  have "slot_bytes (buffers (conn st2)) e = slot_bytes (buffers (conn st1)) e" if "e \<in> set es" for e
  proof -
    have "slot_bytes (buffers (conn st1)) e \<in> set (map (slot_bytes (buffers (conn st1))) es)"
      using that by simp
    then obtain b where "slot_bytes (buffers (conn st1)) e = Some b"
      unfolding es(2) by (auto split: if_splits)
    with slot_bytes_extends [OF assms(2)] show ?thesis by metis
  qed
  then have "map (slot_bytes (buffers (conn st2))) es = map (slot_bytes (buffers (conn st1))) es" by simp
  with es rest show ?thesis by auto
qed

context uring
begin

lemma submit_message_queued:
  assumes b: "buffers_ok (buffers (conn st))" and sub: "submit_message X h p st = Inr st'"
  shows "message_queued view h (case p of None \<Rightarrow> [] | Some d \<Rightarrow> d) st st' \<and> extends view st st'
    \<and> conn_streams (conn st') = conn_streams (conn st) \<and> version (conn st') = version (conn st)
    \<and> world st' = world st"
proof -
  let ?p = "case p of None \<Rightarrow> [] | Some d \<Rightarrow> d"
  let ?o = "case p of Some (b # bs) \<Rightarrow> Some (b # bs) | _ \<Rightarrow> None"
  have o: "?o = (if ?p = [] then None else Some ?p)"
    by (cases p) (auto split: list.splits)
  from sub obtain st1 where s1: "submit_buffer X (as_le_bytes_header h) (?p \<noteq> []) st = Inr st1"
    and s2: "(case ?o of None \<Rightarrow> Inr st1 | Some p \<Rightarrow> submit_buffer X p False st1) = Inr st'"
    unfolding submit_message_def Let_def rbind_Inr_iff unfolding o by (auto split: if_splits)
  note q1 = submit_buffer_queued [OF b s1]
  note d1 = buffer_queuedD [OF q1]
  show ?thesis
  proof (cases "?p = []")
    case True
    with s2 have "st' = st1" unfolding o by simp
    with True d1 show ?thesis by (auto simp: message_queued_def)
  next
    case False
    have "buffers_ok (buffers (conn st1))" using d1(1) by (simp add: extends_def)
    then have q2: "buffer_queued view ?p False st1 st'"
      using s2 False unfolding o by (auto intro: submit_buffer_queued)
    note d2 = buffer_queuedD [OF q2]
    obtain e1 e2 where e1: "view (sq st1) = view (sq st) @ [e1]" "sqe_link e1"
        "slot_bytes (buffers (conn st1)) e1 = Some (as_le_bytes_header h)"
      and e2: "view (sq st') = view (sq st1) @ [e2]" "slot_bytes (buffers (conn st')) e2 = Some ?p"
        "\<not> sqe_link e2"
      using d1(5) d2(5) False by auto
    have "slot_bytes (buffers (conn st')) e1 = Some (as_le_bytes_header h)"
      by (rule slot_bytes_extends [OF d2(1) e1(3)])
    with e1 e2 False have "message_queued view h ?p st st'"
      unfolding message_queued_def by (intro exI [of _ "[e1, e2]"]) simp
    moreover have "extends view st st'"
      using d1(1) d2(1) by (auto simp: extends_def intro: map_le_trans)
    ultimately show ?thesis using d1 d2 by simp
  qed
qed

lemma send_queued:
  assumes "buffers_ok (buffers (conn st))"
  shows "send_okay X l r st = Inr st' \<Longrightarrow> message_queued view (okay_message l r) [] st st' \<and> extends view st st'
      \<and> conn_streams (conn st') = conn_streams (conn st) \<and> version (conn st') = version (conn st) \<and> world st' = world st"
    and "send_clse X l r st = Inr st' \<Longrightarrow> message_queued view (clse_message l r) [] st st' \<and> extends view st st'
      \<and> conn_streams (conn st') = conn_streams (conn st) \<and> version (conn st') = version (conn st) \<and> world st' = world st"
  using submit_message_queued [OF assms, of "okay_message l r" None st']
    submit_message_queued [OF assms, of "clse_message l r" None st']
  by (simp_all add: send_okay_def send_clse_def okay_message_def clse_message_def)

lemma reads_extend:
  "extends view st0 st \<Longrightarrow> maybe_submit_pty_read X i st = Inr st' \<Longrightarrow> extends view st0 st'"
  "extends view st0 st \<Longrightarrow> maybe_submit_socket_read X i st = Inr st' \<Longrightarrow> extends view st0 st'"
  by (auto intro: preservesD [OF grow.maybe_submit_pty_read_ok]
      preservesD [OF grow.maybe_submit_socket_read_ok])

lemma wrte_first_okay:
  assumes b: "buffers_ok (buffers (conn st))" and wr: "handle_command_wrte X h p st = Inr st'"
  shows "\<exists>e rest. view (sq st') = view (sq st) @ e # rest
    \<and> slot_bytes (buffers (conn st')) e = Some (as_le_bytes_header (okay_message (arg1 h) (arg0 h)))"
proof -
  from wr obtain st1 where s1: "send_okay X (arg1 h) (arg0 h) st = Inr st1"
    by (auto simp: handle_command_wrte_def Let_def rust_simps)
  note q = send_queued(1) [OF b s1]
  have b1: "buffers_ok (buffers (conn st1))" using q by (simp add: extends_def)
  have "extends view st1 st'"
  proof (cases "get_stream st1 (arg1 h)")
    case None
    with wr s1 b1 show ?thesis by (simp add: handle_command_wrte_def Let_def extends_refl)
  next
    case (Some s)
    with wr s1 extends_refl [OF b1, of view] show ?thesis
      by (cases "service s")
        (auto simp: handle_command_wrte_def Let_def split: option.splits prod.splits sum.splits
          intro: preservesD [OF grow.wrte_sync_ok] preservesD [OF grow.close_with_clse_ok])
  qed
  from message_queued_extends [OF q [THEN conjunct1] this] show ?thesis
    by (auto simp: map_eq_Cons_conv)
qed

end

section \<open>Properties\<close>



text \<open>In the first state of a session there is room for a message of any kind.\<close>

lemma submit_message_first:
  assumes "length p < 2 ^ 32"
  shows "\<exists>st'. submit_message (ref_ext oc) h (Some p)
      ((sess ref_first)\<lparr>conn := (conn (sess ref_first))\<lparr>version := v\<rparr>\<rparr>) = Inr st'
    \<and> conn_streams (conn st') = conn_streams (conn (sess ref_first))"
proof -
  let ?st = "(sess ref_first)\<lparr>conn := (conn (sess ref_first))\<lparr>version := v\<rparr>\<rparr>"
  have b: "buffers_ok (buffers (conn ?st))" and e: "slot_held (buffers (conn ?st)) = (\<lambda>_. None)"
    and q: "length (sq ?st) = 2"
    by (simp_all add: ref_first_def new_connection_def bm.invar_empty bm.held_empty)
  obtain st1 where s1: "submit_buffer (ref_ext oc) (as_le_bytes_header h) (p \<noteq> []) ?st = Inr st1"
    using ref_ring.submit_buffer_succeeds [OF b, of "as_le_bytes_header h"] e q
    by (auto simp: MAX_BUFFER_SLOTS_def)
  note q1 = ref_ring.submit_buffer_queued [OF b s1]
  note c1 = ref_ring.buffer_queued_card [OF q1 b] buffer_queuedD(1,2) [OF q1]
  show ?thesis
  proof (cases p)
    case Nil
    with s1 c1 show ?thesis by (auto simp: submit_message_def)
  next
    case (Cons x xs)
    have b1: "buffers_ok (buffers (conn st1))" using c1 by (simp add: extends_def)
    obtain st2 where s2: "submit_buffer (ref_ext oc) p False st1 = Inr st2"
      using ref_ring.submit_buffer_succeeds [OF b1 _ _ assms] c1 e q by (auto simp: MAX_BUFFER_SLOTS_def)
    note d2 = buffer_queuedD(2) [OF ref_ring.submit_buffer_queued [OF b1 s2]]
    with s1 s2 Cons c1 show ?thesis by (auto simp: submit_message_def)
  qed
qed

lemma submit_first_okay:
  "\<exists>st'. send_okay (ref_ext oc) l r (sess ref_first) = Inr st'
     \<and> conn_streams (conn st') = conn_streams (conn (sess ref_first))"
  "\<exists>st'. send_clse (ref_ext oc) l r (sess ref_first) = Inr st'"
proof -
  have same: "(sess ref_first)\<lparr>conn := (conn (sess ref_first))\<lparr>version := V0\<rparr>\<rparr> = sess ref_first"
    by (simp add: ref_first_def new_connection_def)
  have none: "submit_message (ref_ext oc) h (Some []) (sess ref_first)
      = submit_message (ref_ext oc) h None (sess ref_first)" for h
    by (simp add: submit_message_def)
  show "\<exists>st'. send_okay (ref_ext oc) l r (sess ref_first) = Inr st'
     \<and> conn_streams (conn st') = conn_streams (conn (sess ref_first))"
    and "\<exists>st'. send_clse (ref_ext oc) l r (sess ref_first) = Inr st'"
    using submit_message_first [of "[]" oc "okay_message l r" V0] submit_message_first [of "[]" oc "clse_message l r" V0]
    by (auto simp: send_okay_def send_clse_def okay_message_def clse_message_def same none)
qed

text \<open>
  (C5) Every WRTE is acknowledged first. Whatever the stream does with the payload (and even when
  there is no such stream), the first thing the handler queues is an OKAY that names the host's ids
  the other way round.
\<close>

theorem wrte_acknowledged:
  assumes "uring X view cap" and "buffers_ok (buffers (conn st))"
    and "handle_command X h (Some p) st = Inr st'" and "command h = Wrte"
  shows "\<exists>e rest. view (sq st') = view (sq st) @ e # rest
    \<and> slot_bytes (buffers (conn st')) e = Some (as_le_bytes_header (okay_message (arg1 h) (arg0 h)))"
  using uring.wrte_first_okay [OF assms(1,2), of h p st'] assms(3,4) by (simp add: handle_command_def)

theorem wrte_acknowledged_witness:
  "\<exists>st'. handle_command (ref_ext True)
       \<lparr>command = Wrte, arg0 = 5, arg1 = 9, data_length = 1, data_check = 0, magic = 0\<rparr> (Some [1]) (sess ref_first)
         = Inr st'
     \<and> (\<exists>e rest. sq st' = sq (sess ref_first) @ e # rest
         \<and> slot_bytes (buffers (conn st')) e = Some (as_le_bytes_header (okay_message 9 5)))"
proof -
  let ?h = "\<lparr>command = Wrte, arg0 = 5, arg1 = 9, data_length = 1, data_check = 0, magic = 0\<rparr>"
  have b: "buffers_ok (buffers (conn (sess ref_first)))"
    by (simp add: ref_first_def new_connection_def bm.invar_empty)
  obtain st1 where st1: "send_okay (ref_ext True) 9 5 (sess ref_first) = Inr st1"
    and str: "conn_streams (conn st1) = conn_streams (conn (sess ref_first))"
    using submit_first_okay [of True 9 5] by blast
  then have "handle_command (ref_ext True) ?h (Some [1]) (sess ref_first) = Inr st1"
    by (simp add: handle_command_def handle_command_wrte_def get_stream_def get_def ref_first_def
        new_connection_def new_streams_def)
  with wrte_acknowledged [OF ref_ring.uring_axioms b this] show ?thesis by auto
qed

text \<open>
  (C6) CNXN. The session adopts the host's version (version 0 for one it does not know) and queues one
  message: CNXN with the daemon's version 1, its 1 MiB payload limit and the identity string, with a
  checksum exactly when the adopted version asks for one. The streams are untouched.
\<close>

theorem cnxn_answered:
  assumes "uring X view cap" and "buffers_ok (buffers (conn st))"
    and "handle_command X h (Some p) st = Inr st'" and "command h = Cnxn"
    and "length (cnxn_payload (info (conn st))) \<le> 2 ^ 20"
  shows "\<exists>hd. message_queued view hd (cnxn_payload (info (conn st))) st st'
    \<and> command hd = Cnxn \<and> arg0 hd = A_VERSION_V1 \<and> arg1 hd = 1024 * 1024
    \<and> unat (data_length hd) = length (cnxn_payload (info (conn st)))
    \<and> data_check hd = (if version (conn st') = V0 then of_nat (byte_sum (cnxn_payload (info (conn st)))) else 0)
    \<and> (version_try_from (arg0 h) = Inr (version (conn st'))
       \<or> (\<exists>e. version_try_from (arg0 h) = Inl e) \<and> version (conn st') = V0)
    \<and> conn_streams (conn st') = conn_streams (conn st)"
proof -
  let ?v = "case version_try_from (arg0 h) of Inr v \<Rightarrow> v | Inl _ \<Rightarrow> V0"
  let ?p = "cnxn_payload (info (conn st))"
  let ?st = "st\<lparr>conn := (conn st)\<lparr>version := ?v\<rparr>\<rparr>"
  let ?hd = "\<lparr>command = Cnxn, arg0 = A_VERSION_V1, arg1 = 1024 * 1024, data_length = of_nat (length ?p),
    data_check = (if requires_checksum ?v then of_nat (byte_sum ?p) else 0),
    magic = u32_of_command Cnxn XOR 0xffffffff\<rparr>"
  have small: "length ?p \<le> 2 ^ 24" "length ?p < 2 ^ 32" using assms(5) by simp_all
  have "cnxn_response (overflow_checks X) ?v (info (conn st)) = Inr (?hd, ?p)"
    using small by (simp add: cnxn_response_def cnxn_header_def header_from_payload_ok PROTOCOL_VERSION_def
        Let_def)
  with assms(3,4) have sub: "submit_message X ?hd (Some ?p) ?st = Inr st'"
    by (simp add: handle_command_def handle_command_cnxn_def Let_def)
  have b: "buffers_ok (buffers (conn ?st))" using assms(2) by simp
  from uring.submit_message_queued [OF assms(1) b sub] small
  show ?thesis
    by (intro exI [of _ ?hd])
      (auto simp: message_queued_def requires_checksum_def split: sum.splits)
qed

theorem cnxn_answered_witness:
  "\<exists>st' hd. handle_command (ref_ext True)
       \<lparr>command = Cnxn, arg0 = A_VERSION_V1, arg1 = 0, data_length = 1, data_check = 0, magic = 0\<rparr> (Some [0])
         (sess ref_first) = Inr st'
     \<and> message_queued (\<lambda>q. q) hd (cnxn_payload ref_device) (sess ref_first) st' \<and> version (conn st') = V1"
proof -
  let ?h = "\<lparr>command = Cnxn, arg0 = A_VERSION_V1, arg1 = 0, data_length = 1, data_check = 0, magic = 0\<rparr>"
  have b: "buffers_ok (buffers (conn (sess ref_first)))" and i: "info (conn (sess ref_first)) = ref_device"
    by (simp_all add: ref_first_def new_connection_def bm.invar_empty)
  have v: "version_try_from A_VERSION_V1 = Inr V1"
    by (simp add: version_try_from_Inr_iff)
  have len: "length (cnxn_payload ref_device) \<le> 2 ^ 20"
    by (simp add: cnxn_payload_def ref_device_def)
  obtain hd where hd: "cnxn_response True V1 ref_device = Inr (hd, cnxn_payload ref_device)"
    using len by (simp add: cnxn_response_def cnxn_header_def header_from_payload_ok Let_def)
  let ?st = "(sess ref_first)\<lparr>conn := (conn (sess ref_first))\<lparr>version := V1\<rparr>\<rparr>"
  obtain st' where st': "submit_message (ref_ext True) hd (Some (cnxn_payload ref_device)) ?st = Inr st'"
    using submit_message_first [of "cnxn_payload ref_device" True hd V1] len by auto
  then have "handle_command (ref_ext True) ?h (Some [0]) (sess ref_first) = Inr st'"
    using v hd i by (simp add: handle_command_def handle_command_cnxn_def)
  with cnxn_answered [OF ref_ring.uring_axioms b this] i len v show ?thesis by auto
qed

text \<open>
  (C4) OPEN is always answered, and truthfully. An OKAY names an id under which a stream for the
  host's id is now registered; otherwise (a name without NUL or not UTF-8, an unknown service, one
  that did not start) the answer is a CLSE from id 0 and no stream was added.
\<close>

theorem open_answered:
  assumes "uring X view cap" and "buffers_ok (buffers (conn st))"
    and "handle_command X h (Some p) st = Inr st'" and "command h = Open"
  shows "\<exists>e rest i. view (sq st') = view (sq st) @ e # rest
    \<and> ((slot_bytes (buffers (conn st')) e = Some (as_le_bytes_header (okay_message i (arg0 h)))
         \<and> (\<exists>s. get_stream st' i = Some s \<and> remote_id s = arg0 h \<and> \<not> waiting_for_okay s))
      \<or> (slot_bytes (buffers (conn st')) e = Some (as_le_bytes_header (clse_message 0 (arg0 h)))
         \<and> rest = [] \<and> conn_streams (conn st') = conn_streams (conn st)))"
proof -
  from assms(3,4) have op: "handle_command_open X h p st = Inr st'" by (simp add: handle_command_def)
  show ?thesis
  proof (cases "\<exists>svc. from_bytes_until_nul p = Some svc \<and> utf8_valid svc")
    case False
    with op have "send_clse X 0 (arg0 h) st = Inr st'"
      by (auto simp: handle_command_open_def Let_def split: option.splits if_splits)
    from uring.send_queued(2) [OF assms(1,2) this] show ?thesis
      by (auto simp: message_queued_def map_eq_Cons_conv)
  next
    case True
    then obtain svc where svc: "from_bytes_until_nul p = Some svc" "utf8_valid svc" by blast
    with op obtain opened m w where
      so: "stream_open (overflow_checks X) (sys X) (arg0 h) svc (conn_streams (conn st)) (world st)
        = Inr (opened, m, w)"
      by (auto simp: handle_command_open_def Let_def rust_simps)
    let ?st = "st\<lparr>conn := (conn st)\<lparr>conn_streams := m\<rparr>, world := w\<rparr>"
    have b: "buffers_ok (buffers (conn ?st))" using assms(2) by simp
    show ?thesis
    proof (cases opened)
      case None
      with op svc so have cl: "send_clse X 0 (arg0 h) ?st = Inr st'"
        by (simp add: handle_command_open_def)
      have "m = conn_streams (conn st)"
        using stream_open_cases [OF so] None by simp
      with uring.send_queued(2) [OF assms(1) b cl] show ?thesis
        by (auto simp: message_queued_def map_eq_Cons_conv)
    next
      case (Some i)
      with op svc so obtain st2 s where st2: "send_okay X i (arg0 h) ?st = Inr st2"
        and s: "get_stream st2 i = Some s"
        and st': "(case service s of
              SvcShell _ \<Rightarrow> maybe_submit_pty_read X i st2
            | SvcForward _ \<Rightarrow> maybe_submit_socket_read X i st2
            | SvcSync _ \<Rightarrow> Inr st2
            | SvcReboot \<Rightarrow>
                Inr (st2\<lparr>world := snd (k_spawn (sys X) (bytes_of ''reboot'') [] None (world st2))\<rparr>)) = Inr st'"
        by (auto simp: handle_command_open_def rust_simps)
      note q = uring.send_queued(1) [OF assms(1) b st2]
      have "remote_id s = arg0 h \<and> \<not> waiting_for_okay s"
        using stream_open_cases [OF so] Some s q by (auto simp: get_stream_def get_def)
      moreover have "conn_streams (conn st') = conn_streams (conn st2)"
        using st' by (auto simp: maybe_submit_pty_read_def maybe_submit_socket_read_def push_def rust_simps
            split: Service.splits option.splits if_splits)
      moreover have ext: "extends view st2 st'"
      proof -
        have "extends view st2 st2" using q by (simp add: extends_def)
        with st' show ?thesis
          by (cases "service s")
            (auto intro: uring.reads_extend [OF assms(1)])
      qed
      moreover obtain e rest where "view (sq st') = view (sq st) @ e # rest"
        and "slot_bytes (buffers (conn st')) e = Some (as_le_bytes_header (okay_message i (arg0 h)))"
        using message_queued_extends [OF q [THEN conjunct1] ext] by (auto simp: map_eq_Cons_conv)
      ultimately show ?thesis
        using s by (intro exI [of _ e] exI [of _ rest] exI [of _ i]) (simp add: get_stream_def)
    qed
  qed
qed

theorem open_answered_witness:
  "\<exists>st'. handle_command (ref_ext True)
       \<lparr>command = Open, arg0 = 5, arg1 = 0, data_length = 1, data_check = 0, magic = 0\<rparr> (Some [1]) (sess ref_first)
         = Inr st'
     \<and> (\<exists>e rest. sq st' = sq (sess ref_first) @ e # rest)"
proof -
  let ?h = "\<lparr>command = Open, arg0 = 5, arg1 = 0, data_length = 1, data_check = 0, magic = 0\<rparr>"
  have b: "buffers_ok (buffers (conn (sess ref_first)))"
    by (simp add: ref_first_def new_connection_def bm.invar_empty)
  obtain st1 where "send_clse (ref_ext True) 0 5 (sess ref_first) = Inr st1"
    using submit_first_okay [of True 0 5] by blast
  then have op: "handle_command (ref_ext True) ?h (Some [1]) (sess ref_first) = Inr st1"
    by (simp add: handle_command_def handle_command_open_def from_bytes_until_nul_def)
  from open_answered [OF ref_ring.uring_axioms b this] op show ?thesis by fastforce
qed

end
