(* ===== verification/Spec2Isabelle.thy ===== *)
theory Spec2Isabelle
  imports Message_Flow
begin

text \<open>
  A verification of the ADB device daemon \<open>adibi\<close>.
\<close>

end
